(* ===== verification/Prelude.thy ===== *)
theory Prelude
  imports Complex_Main "HOL-Library.Word" "HOL-Library.Char_ord" "HOL-Library.List_Lexorder"
    "HOL-Library.Sublist"
begin

text \<open>
  Shared vocabulary of the development: machine integers at their Rust width, the saturating and
  checked operations the sources call on them, \<open>std::time::Duration\<close>, IEEE doubles as far as the
  sources compare them, results and panics, the string operations of \<open>str\<close> the sources use,
  JSON values, and ordered string maps (\<open>BTreeMap<String, V>\<close>) with the interface that the
  components rely on.
\<close>

named_theorems result_simps \<open>inversion rules for results\<close>

section \<open>Machine integers\<close>

type_synonym u8 = "8 word"
type_synonym u16 = "16 word"
type_synonym u32 = "32 word"
type_synonym u64 = "64 word"

text \<open>\<open>saturating_sub\<close>, \<open>saturating_add\<close>, \<open>saturating_mul\<close> and \<open>checked_add\<close> of the unsigned types.\<close>

definition sat_sub :: "'a::len word \<Rightarrow> 'a word \<Rightarrow> 'a word" where
  "sat_sub a b = (if a < b then 0 else a - b)"

definition sat_add :: "'a::len word \<Rightarrow> 'a word \<Rightarrow> 'a word" where
  "sat_add a b = (if unat a + unat b < 2 ^ LENGTH('a) then a + b else - 1)"

definition sat_mul :: "'a::len word \<Rightarrow> 'a word \<Rightarrow> 'a word" where
  "sat_mul a b = (if unat a * unat b < 2 ^ LENGTH('a) then a * b else - 1)"

definition chk_add :: "'a::len word \<Rightarrow> 'a word \<Rightarrow> 'a word option" where
  "chk_add a b = (if unat a + unat b < 2 ^ LENGTH('a) then Some (a + b) else None)"

lemma unat_below: "unat (a :: 'a::len word) < 2 ^ LENGTH('a)"
  by (rule unsigned_less)

lemma unat_le_max: "unat (a :: 'a::len word) \<le> 2 ^ LENGTH('a) - 1"
proof -
  have "Suc (unat a) \<le> 2 ^ LENGTH('a)"
    using unat_below [of a] by (rule Suc_leI)
  then show ?thesis by arith
qed

lemma unat_max_word: "unat (- 1 :: 'a::len word) = 2 ^ LENGTH('a) - 1"
  by (simp add: unsigned_minus_1_eq_mask mask_eq_exp_minus_1)

lemma unat_sat_sub [simp]: "unat (sat_sub a b) = unat a - unat b"
  by (auto simp: sat_sub_def word_less_nat_alt unat_sub_if')

lemma sat_sub_pos: "0 < sat_sub a b \<longleftrightarrow> b < a"
  by (simp add: word_less_nat_alt)

text \<open>For evaluation the bounds are compared as binary integers.\<close>

lemma sat_add_code [code]: "sat_add a b = (if uint a + uint b < 2 ^ LENGTH('a) then a + b else - 1)"
  for a b :: "'a::len word"
proof -
  have "(unat a + unat b < 2 ^ LENGTH('a)) = (uint a + uint b < 2 ^ LENGTH('a))"
    by (simp flip: uint_nat of_nat_less_iff [where 'a = int])
  then show ?thesis by (simp add: sat_add_def)
qed

lemma sat_mul_code [code]: "sat_mul a b = (if uint a * uint b < 2 ^ LENGTH('a) then a * b else - 1)"
  for a b :: "'a::len word"
proof -
  have "(unat a * unat b < 2 ^ LENGTH('a)) = (uint a * uint b < 2 ^ LENGTH('a))"
    by (simp flip: uint_nat of_nat_less_iff [where 'a = int])
  then show ?thesis by (simp add: sat_mul_def)
qed

lemma chk_add_code [code]: "chk_add a b = (if uint a + uint b < 2 ^ LENGTH('a) then Some (a + b) else None)"
  for a b :: "'a::len word"
proof -
  have "(unat a + unat b < 2 ^ LENGTH('a)) = (uint a + uint b < 2 ^ LENGTH('a))"
    by (simp flip: uint_nat of_nat_less_iff [where 'a = int])
  then show ?thesis by (simp add: chk_add_def)
qed

lemma unat_sat_add: "unat (sat_add a b) = min (unat a + unat b) (2 ^ LENGTH('a) - 1)"
  for a b :: "'a::len word"
  by (auto simp: sat_add_def unat_max_word unat_word_ariths min_def)

lemma sat_add_ge: "a \<le> sat_add a b" "b \<le> sat_add a b"
  using unat_le_max [of a] unat_le_max [of b]
  by (simp_all add: word_le_nat_alt unat_sat_add)

lemma chk_add_Some_iff:
  "chk_add a b = Some c \<longleftrightarrow> unat c = unat a + unat b" for a b c :: "'a::len word"
proof (cases "unat a + unat b < 2 ^ LENGTH('a)")
  case True
  then show ?thesis
    by (auto simp: chk_add_def unat_word_ariths word_unat_eq_iff)
next
  case False
  then have "unat c \<noteq> unat a + unat b"
    using unat_below [of c] by linarith
  with False show ?thesis by (simp add: chk_add_def)
qed

lemma unat_inc_below:
  fixes a b :: "'a::len word"
  assumes "a < b"
  shows "unat (a + 1) = unat a + 1"
proof -
  have "unat a < unat b" "unat b < 2 ^ LENGTH('a)"
    using assms unat_below [of b] by (simp_all add: word_less_nat_alt)
  then have "unat a + 1 < 2 ^ LENGTH('a)" by linarith
  then show ?thesis by (simp add: unat_word_ariths)
qed

section \<open>Durations\<close>

text \<open>
  A \<open>std::time::Duration\<close> is a number of nanoseconds; seconds are 64 bits wide, so there is a
  greatest duration, at which \<open>saturating_add\<close> stops and above which \<open>+\<close> panics.
\<close>

type_synonym duration = nat

definition NANOS_PER_SEC :: nat where
  "NANOS_PER_SEC = 1000000000"

definition DURATION_MAX :: duration where
  "DURATION_MAX = (2 ^ 64 - 1) * NANOS_PER_SEC + (NANOS_PER_SEC - 1)"

definition dur_from_secs :: "u64 \<Rightarrow> duration" where
  "dur_from_secs s = unat s * NANOS_PER_SEC"

definition dur_as_secs :: "duration \<Rightarrow> u64" where
  "dur_as_secs d = of_nat (d div NANOS_PER_SEC)"

definition dur_sat_add :: "duration \<Rightarrow> duration \<Rightarrow> duration" where
  "dur_sat_add a b = min (a + b) DURATION_MAX"

definition dur_sat_sub :: "duration \<Rightarrow> duration \<Rightarrow> duration" where
  "dur_sat_sub a b = a - b"

definition dur_checked_add :: "duration \<Rightarrow> duration \<Rightarrow> duration option" where
  "dur_checked_add a b = (if a + b \<le> DURATION_MAX then Some (a + b) else None)"

lemma dur_as_secs_code [code]: "dur_as_secs d = word_of_int (int d div 1000000000)"
proof -
  have "int d div 1000000000 = int (d div 1000000000)" by (simp add: zdiv_int)
  then show ?thesis by (simp add: dur_as_secs_def NANOS_PER_SEC_def)
qed

lemma dur_as_secs_from_secs [simp]: "dur_as_secs (dur_from_secs s) = s"
  by (simp add: dur_as_secs_def dur_from_secs_def NANOS_PER_SEC_def)

lemma dur_from_secs_bound: "dur_from_secs s \<le> DURATION_MAX"
  using unat_le_max [of s] by (simp add: dur_from_secs_def DURATION_MAX_def NANOS_PER_SEC_def)

section \<open>Doubles\<close>

text \<open>
  An \<open>f64\<close> as far as comparisons see it: a NaN, an infinity, or a finite (dyadic) rational. The two
  zeros compare equal and are one value here.
\<close>

datatype f64 = NaN | Infinite bool | Finite rat

fun f64_lt :: "f64 \<Rightarrow> f64 \<Rightarrow> bool" where
  "f64_lt NaN _ = False"
| "f64_lt _ NaN = False"
| "f64_lt (Infinite a) (Infinite b) = (\<not> a \<and> b)"
| "f64_lt (Infinite a) (Finite _) = (\<not> a)"
| "f64_lt (Finite _) (Infinite b) = b"
| "f64_lt (Finite x) (Finite y) = (x < y)"

fun f64_eq :: "f64 \<Rightarrow> f64 \<Rightarrow> bool" where
  "f64_eq NaN _ = False"
| "f64_eq x y = (x = y)"

definition f64_le :: "f64 \<Rightarrow> f64 \<Rightarrow> bool" where
  "f64_le x y = (f64_lt x y \<or> f64_eq x y)"

fun f64_is_finite :: "f64 \<Rightarrow> bool" where
  "f64_is_finite (Finite _) = True"
| "f64_is_finite _ = False"

definition f64_in_unit :: "f64 \<Rightarrow> bool" where
  "f64_in_unit x = (f64_le (Finite 0) x \<and> f64_le x (Finite 1))"

lemma f64_in_unit_iff: "f64_in_unit x \<longleftrightarrow> (\<exists>q. x = Finite q \<and> 0 \<le> q \<and> q \<le> 1)"
  by (cases x) (auto simp: f64_in_unit_def f64_le_def)

section \<open>Results and panics\<close>

text \<open>
  \<open>Result<T, E>\<close> is a sum with the error on the left. Operations through \<open>&mut self\<close> return the
  result together with the state they leave behind, because Rust keeps what was written before an
  early return. A panic is an error of its own.
\<close>

type_synonym ('e, 'a) result = "'e + 'a"

datatype fault = Failed string | Panic string

fun rbind :: "('e, 'a) result \<Rightarrow> ('a \<Rightarrow> ('e, 'b) result) \<Rightarrow> ('e, 'b) result" where
  "rbind (Inl e) f = Inl e"
| "rbind (Inr x) f = f x"

lemma rbind_Inr_iff [result_simps]: "rbind m f = Inr y \<longleftrightarrow> (\<exists>x. m = Inr x \<and> f x = Inr y)"
  by (cases m) auto

lemma rbind_Inl_iff [result_simps]:
  "rbind m f = Inl e \<longleftrightarrow> m = Inl e \<or> (\<exists>x. m = Inr x \<and> f x = Inl e)"
  by (cases m) auto

fun map_err :: "('e \<Rightarrow> 'f) \<Rightarrow> ('e, 'a) result \<Rightarrow> ('f, 'a) result" where
  "map_err g (Inl e) = Inl (g e)"
| "map_err g (Inr x) = Inr x"

lemma map_err_Inr_iff [result_simps]: "map_err g m = Inr x \<longleftrightarrow> m = Inr x"
  by (cases m) auto

lemma map_err_Inl_iff [result_simps]: "map_err g m = Inl e \<longleftrightarrow> (\<exists>e'. m = Inl e' \<and> e = g e')"
  by (cases m) auto

fun ok_or :: "'e \<Rightarrow> 'a option \<Rightarrow> ('e, 'a) result" where
  "ok_or e None = Inl e"
| "ok_or e (Some x) = Inr x"

lemma ok_or_Inr_iff [result_simps]: "ok_or e m = Inr x \<longleftrightarrow> m = Some x"
  by (cases m) auto

lemma ok_or_Inl_iff [result_simps]: "ok_or e m = Inl e' \<longleftrightarrow> m = None \<and> e' = e"
  by (cases m) auto

fun is_ok :: "('e, 'a) result \<Rightarrow> bool" where
  "is_ok (Inr _) = True"
| "is_ok (Inl _) = False"

lemma is_ok_iff: "is_ok m \<longleftrightarrow> (\<exists>x. m = Inr x)"
  by (cases m) auto

section \<open>Strings\<close>

text \<open>
  A Rust \<open>str\<close> is UTF-8, a HOL \<open>string\<close> a list of bytes; \<open>length\<close> is \<open>str::len\<close>. The scalar values
  that \<open>chars()\<close> iterates over are decoded by \<open>str_chars\<close>; on bytes that are not UTF-8, which no
  \<open>str\<close> holds, it yields one value for each stray byte.
\<close>

abbreviation byte_of :: "char \<Rightarrow> nat" where
  "byte_of c \<equiv> of_char c"

definition is_ascii_digit :: "char \<Rightarrow> bool" where
  "is_ascii_digit c = (48 \<le> byte_of c \<and> byte_of c \<le> 57)"

definition is_ascii_upper :: "char \<Rightarrow> bool" where
  "is_ascii_upper c = (65 \<le> byte_of c \<and> byte_of c \<le> 90)"

definition is_ascii_lower :: "char \<Rightarrow> bool" where
  "is_ascii_lower c = (97 \<le> byte_of c \<and> byte_of c \<le> 122)"

definition is_ascii_alphanumeric :: "char \<Rightarrow> bool" where
  "is_ascii_alphanumeric c = (is_ascii_digit c \<or> is_ascii_upper c \<or> is_ascii_lower c)"

definition is_ascii_hexdigit :: "char \<Rightarrow> bool" where
  "is_ascii_hexdigit c =
     (is_ascii_digit c \<or> (65 \<le> byte_of c \<and> byte_of c \<le> 70) \<or> (97 \<le> byte_of c \<and> byte_of c \<le> 102))"

definition byte_to_lower :: "char \<Rightarrow> char" where
  "byte_to_lower c = (if is_ascii_upper c then char_of (byte_of c + 32 :: nat) else c)"

definition byte_to_upper :: "char \<Rightarrow> char" where
  "byte_to_upper c = (if is_ascii_lower c then char_of (byte_of c - 32 :: nat) else c)"

definition to_ascii_lowercase :: "string \<Rightarrow> string" where
  "to_ascii_lowercase = map byte_to_lower"

definition to_ascii_uppercase :: "string \<Rightarrow> string" where
  "to_ascii_uppercase = map byte_to_upper"

fun str_chars :: "string \<Rightarrow> nat list" where
  "str_chars [] = []"
| "str_chars (a # s) =
     (let x = byte_of a in
      if x < 192 then x # str_chars s
      else if x < 224 then
        (case s of b # s1 \<Rightarrow> ((x - 192) * 64 + (byte_of b - 128)) # str_chars s1
         | _ \<Rightarrow> x # str_chars s)
      else if x < 240 then
        (case s of b # c # s2 \<Rightarrow>
           ((x - 224) * 4096 + (byte_of b - 128) * 64 + (byte_of c - 128)) # str_chars s2
         | _ \<Rightarrow> x # str_chars s)
      else
        (case s of b # c # d # s3 \<Rightarrow>
           ((x - 240) * 262144 + (byte_of b - 128) * 4096 + (byte_of c - 128) * 64
             + (byte_of d - 128)) # str_chars s3
         | _ \<Rightarrow> x # str_chars s))"

text \<open>\<open>char::is_control\<close>: the Unicode category Cc is exactly the C0 and C1 controls and DEL.\<close>

definition is_control :: "nat \<Rightarrow> bool" where
  "is_control c = (c < 32 \<or> (127 \<le> c \<and> c < 160))"

definition starts_with :: "string \<Rightarrow> string \<Rightarrow> bool" where
  "starts_with s p = (take (length p) s = p)"

fun str_contains :: "string \<Rightarrow> string \<Rightarrow> bool" where
  "str_contains [] p = (p = [])"
| "str_contains (c # s) p = (starts_with (c # s) p \<or> str_contains s p)"

lemma starts_with_prefix: "starts_with s p \<longleftrightarrow> prefix p s"
  by (metis append_eq_conv_conj prefix_def starts_with_def)

lemma str_contains_sublist: "str_contains s p \<longleftrightarrow> sublist p s"
proof (induction s)
  case Nil
  then show ?case by simp
next
  case (Cons c s)
  then show ?case by (simp add: starts_with_prefix sublist_Cons_right)
qed

text \<open>The \<open>Display\<close> of an unsigned integer.\<close>

fun decimal :: "nat \<Rightarrow> string" where
  "decimal n =
     (if n < 10 then [char_of (48 + n :: nat)] else decimal (n div 10) @ [char_of (48 + n mod 10 :: nat)])"

declare decimal.simps [simp del]

section \<open>JSON values\<close>

text \<open>The public \<open>serde_json::Value\<close>; a number is an unsigned or a negative integer or a double.\<close>

datatype json_number = PosInt u64 | NegInt int | Float f64

datatype json =
    JNull | JBool bool | JNumber json_number | JString string
  | JArray "json list" | JObject "(string \<times> json) list"

fun json_as_str :: "json \<Rightarrow> string option" where
  "json_as_str (JString s) = Some s"
| "json_as_str _ = None"

fun json_as_bool :: "json \<Rightarrow> bool option" where
  "json_as_bool (JBool b) = Some b"
| "json_as_bool _ = None"

fun json_as_u64 :: "json \<Rightarrow> u64 option" where
  "json_as_u64 (JNumber (PosInt n)) = Some n"
| "json_as_u64 _ = None"

lemma json_as_str_Some_iff [simp]: "json_as_str v = Some s \<longleftrightarrow> v = JString s"
  by (cases v) auto

section \<open>Ordered string maps\<close>

text \<open>
  The interface the components use of a map from keys: a lookup after an insertion or a removal, the
  bindings in key order, and what keeps the representation well formed.
\<close>

locale keyed_map =
  fixes get :: "'m \<Rightarrow> 'k \<Rightarrow> 'v option"
    and put :: "'k \<Rightarrow> 'v \<Rightarrow> 'm \<Rightarrow> 'm"
    and del :: "'k \<Rightarrow> 'm \<Rightarrow> 'm"
    and entries :: "'m \<Rightarrow> ('k \<times> 'v) list"
    and wf :: "'m \<Rightarrow> bool"
  assumes get_put: "get (put k v m) x = (if x = k then Some v else get m x)"
    and get_del: "get (del k m) x = (if x = k then None else get m x)"
    and get_entries: "wf m \<Longrightarrow> get m k = Some v \<longleftrightarrow> (k, v) \<in> set (entries m)"
    and wf_put: "wf m \<Longrightarrow> wf (put k v m)"
    and wf_del: "wf m \<Longrightarrow> wf (del k m)"
begin

lemma entries_put:
  assumes "wf m"
  shows "set (entries (put k v m)) = insert (k, v) {(a, b). (a, b) \<in> set (entries m) \<and> a \<noteq> k}"
proof -
  have "(a, b) \<in> set (entries (put k v m)) \<longleftrightarrow> get (put k v m) a = Some b" for a b
    by (rule get_entries [OF wf_put [OF assms], symmetric])
  then show ?thesis
    using get_entries [OF assms] by (auto simp: get_put split: if_splits)
qed

lemma entries_del:
  assumes "wf m"
  shows "set (entries (del k m)) = {(a, b). (a, b) \<in> set (entries m) \<and> a \<noteq> k}"
proof -
  have "(a, b) \<in> set (entries (del k m)) \<longleftrightarrow> get (del k m) a = Some b" for a b
    by (rule get_entries [OF wf_del [OF assms], symmetric])
  then show ?thesis
    using get_entries [OF assms] by (auto simp: get_del split: if_splits)
qed

lemma put_Ball:
  assumes "wf m" "\<forall>(a, b) \<in> set (entries m). P a b" "P k v"
  shows "\<forall>(a, b) \<in> set (entries (put k v m)). P a b"
  using assms by (auto simp: entries_put)

end

text \<open>\<open>BTreeMap\<close> keyed by strings: the bindings, strictly increasing in the byte order of the keys.\<close>

type_synonym 'v btree = "(string \<times> 'v) list"

abbreviation bt_get :: "'v btree \<Rightarrow> string \<Rightarrow> 'v option" where
  "bt_get m k \<equiv> map_of m k"

abbreviation bt_values :: "'v btree \<Rightarrow> 'v list" where
  "bt_values m \<equiv> map snd m"

fun bt_insert :: "string \<Rightarrow> 'v \<Rightarrow> 'v btree \<Rightarrow> 'v btree" where
  "bt_insert k v [] = [(k, v)]"
| "bt_insert k v ((a, b) # m) =
     (if k = a then (k, v) # m
      else if k < a then (k, v) # (a, b) # m
      else (a, b) # bt_insert k v m)"

fun bt_remove :: "string \<Rightarrow> 'v btree \<Rightarrow> 'v btree" where
  "bt_remove k m = filter (\<lambda>(a, b). a \<noteq> k) m"

definition bt_wf :: "'v btree \<Rightarrow> bool" where
  "bt_wf m = sorted_wrt (<) (map fst m)"

definition bt_contains :: "'v btree \<Rightarrow> string \<Rightarrow> bool" where
  "bt_contains m k = (bt_get m k \<noteq> None)"

definition bt_from_list :: "(string \<times> 'v) list \<Rightarrow> 'v btree" where
  "bt_from_list xs = fold (\<lambda>(k, v) m. bt_insert k v m) xs []"

lemma bt_get_insert: "bt_get (bt_insert k v m) x = (if x = k then Some v else bt_get m x)"
  by (induction k v m rule: bt_insert.induct) auto

lemma bt_get_remove: "bt_get (bt_remove k m) x = (if x = k then None else bt_get m x)"
  by (induction m) auto

lemma bt_insert_keys: "set (map fst (bt_insert k v m)) = insert k (set (map fst m))"
  by (induction k v m rule: bt_insert.induct) auto

lemma bt_wf_insert: "bt_wf m \<Longrightarrow> bt_wf (bt_insert k v m)"
  unfolding bt_wf_def
proof (induction k v m rule: bt_insert.induct)
  case (2 k v a b m)
  have keys: "\<forall>x \<in> set (map fst (bt_insert k v m)). x = k \<or> x \<in> set (map fst m)"
    using bt_insert_keys [of k v m] by blast
  show ?case
  proof (cases "a < k")
    case True
    with 2 keys show ?thesis by fastforce
  next
    case False
    with 2 show ?thesis by (auto dest: order.strict_trans)
  qed
qed simp

lemma bt_wf_remove: "bt_wf m \<Longrightarrow> bt_wf (bt_remove k m)"
  by (induction m) (auto simp: bt_wf_def)

lemma bt_wf_distinct: "bt_wf m \<Longrightarrow> distinct (map fst m)"
  unfolding bt_wf_def by (induction m) auto

interpretation bt: keyed_map "map_of :: 'v btree \<Rightarrow> string \<Rightarrow> 'v option" bt_insert bt_remove
  "\<lambda>m. m" bt_wf
proof (unfold_locales, goal_cases)
  case (1 k v m x)
  show ?case by (rule bt_get_insert)
next
  case (2 k m x)
  show ?case by (rule bt_get_remove)
next
  case (3 m k v)
  then show ?case by (simp add: map_of_eq_Some_iff bt_wf_distinct)
next
  case (4 m k v)
  then show ?case by (rule bt_wf_insert)
next
  case (5 m k)
  then show ?case by (rule bt_wf_remove)
qed

declare bt_remove.simps [simp del]

lemma bt_from_list_snoc: "bt_from_list (xs @ [(k, v)]) = bt_insert k v (bt_from_list xs)"
  by (simp add: bt_from_list_def)

lemma bt_wf_from_list: "bt_wf (bt_from_list xs)"
proof (induction xs rule: rev_induct)
  case (snoc x xs)
  then show ?case by (cases x) (simp add: bt_from_list_snoc bt_wf_insert)
qed (simp add: bt_from_list_def bt_wf_def)

lemma bt_from_list_subset: "set (bt_from_list xs) \<subseteq> set xs"
proof (induction xs rule: rev_induct)
  case (snoc x xs)
  then show ?case
    by (cases x) (auto simp: bt_from_list_snoc bt.entries_put [OF bt_wf_from_list])
qed (simp add: bt_from_list_def)

lemma bt_insert_last: "\<forall>a \<in> set (map fst m). a < k \<Longrightarrow> bt_insert k v m = m @ [(k, v)]"
  by (induction k v m rule: bt_insert.induct) auto

lemma bt_from_list_wf: "bt_wf m \<Longrightarrow> bt_from_list m = m"
proof (induction m rule: rev_induct)
  case (snoc x m)
  obtain k v where x: "x = (k, v)" by fastforce
  have "bt_wf m" "\<forall>a \<in> set (map fst m). a < k"
    using snoc.prems by (auto simp: bt_wf_def sorted_wrt_append x)
  then show ?case using snoc.IH by (simp add: x bt_from_list_snoc bt_insert_last)
qed (simp add: bt_from_list_def)

lemma bt_insert_same [simp]: "bt_get (bt_insert k v m) k = Some v"
  by (simp add: bt.get_put)

lemma bt_insert_other: "x \<noteq> k \<Longrightarrow> bt_get (bt_insert k v m) x = bt_get m x"
  by (simp add: bt.get_put)

lemma bt_remove_same [simp]: "bt_get (bt_remove k m) k = None"
  by (simp add: bt.get_del)

end
