(* ===== verification/Model_Event.thy ===== *)
theory Model_Event
  imports Prelude
begin

text \<open>
  Events (\<open>src/src/model/event.rs\<close>): the sources an observation can come from and their ranks, the
  event categories, the event record with its validation, construction and deserialisation. The RFC
  3339 parser of \<open>chrono\<close> is a parameter, a function from text to an instant in nanoseconds.
\<close>

type_synonym rfc3339 = "string \<Rightarrow> int option"

section \<open>Sources, categories, hints\<close>

datatype source_kind =
    TypedApi | Hook | StructuredLog | ProcessMetadata | HerdrAgentState | ScreenDetection
  | Planner | Internal

fun source_rank :: "source_kind \<Rightarrow> u8" where
  "source_rank TypedApi = 8"
| "source_rank Hook = 7"
| "source_rank StructuredLog = 6"
| "source_rank ProcessMetadata = 5"
| "source_rank HerdrAgentState = 4"
| "source_rank ScreenDetection = 3"
| "source_rank Planner = 2"
| "source_rank Internal = 1"

record event_source =
  src_kind :: source_kind
  source_id :: string
  rule_or_field :: string
  source_version :: "string option"

definition event_source_new :: "source_kind \<Rightarrow> string \<Rightarrow> string \<Rightarrow> event_source" where
  "event_source_new k sid rule =
     \<lparr>src_kind = k, source_id = sid, rule_or_field = rule, source_version = None\<rparr>"

datatype event_category =
    Working | Idle | WaitingForModel | WaitingForTool | WaitingForUser | PermissionPrompt
  | QuestionPrompt | UsageLimit | SessionLimit | WeeklyLimit | ModelCreditExhausted
  | TransientOverload | CapacityBlock | AuthenticationFailure | BillingFailure | InvalidRequest
  | ModelUnavailable | SafetyBlock | PausedGoal | BlockedGoal | ContextLimit | TerminalFailure
  | Crashed | Terminated | UnknownBlocked | Recovered | HumanIntervention

fun is_actionable :: "event_category \<Rightarrow> bool" where
  "is_actionable Working = False"
| "is_actionable Idle = False"
| "is_actionable Recovered = False"
| "is_actionable HumanIntervention = False"
| "is_actionable Terminated = False"
| "is_actionable _ = True"

text \<open>The derived \<open>Debug\<close> rendering of a category, which policies compare in upper case.\<close>

fun category_debug :: "event_category \<Rightarrow> string" where
  "category_debug Working = ''Working''"
| "category_debug Idle = ''Idle''"
| "category_debug WaitingForModel = ''WaitingForModel''"
| "category_debug WaitingForTool = ''WaitingForTool''"
| "category_debug WaitingForUser = ''WaitingForUser''"
| "category_debug PermissionPrompt = ''PermissionPrompt''"
| "category_debug QuestionPrompt = ''QuestionPrompt''"
| "category_debug UsageLimit = ''UsageLimit''"
| "category_debug SessionLimit = ''SessionLimit''"
| "category_debug WeeklyLimit = ''WeeklyLimit''"
| "category_debug ModelCreditExhausted = ''ModelCreditExhausted''"
| "category_debug TransientOverload = ''TransientOverload''"
| "category_debug CapacityBlock = ''CapacityBlock''"
| "category_debug AuthenticationFailure = ''AuthenticationFailure''"
| "category_debug BillingFailure = ''BillingFailure''"
| "category_debug InvalidRequest = ''InvalidRequest''"
| "category_debug ModelUnavailable = ''ModelUnavailable''"
| "category_debug SafetyBlock = ''SafetyBlock''"
| "category_debug PausedGoal = ''PausedGoal''"
| "category_debug BlockedGoal = ''BlockedGoal''"
| "category_debug ContextLimit = ''ContextLimit''"
| "category_debug TerminalFailure = ''TerminalFailure''"
| "category_debug Crashed = ''Crashed''"
| "category_debug Terminated = ''Terminated''"
| "category_debug UnknownBlocked = ''UnknownBlocked''"
| "category_debug Recovered = ''Recovered''"
| "category_debug HumanIntervention = ''HumanIntervention''"

datatype policy_hint =
    ObserveOnly | DeterministicActionAllowed | WaitAllowed | PlannerAllowed | HumanRequired
  | StopWatching

section \<open>The event record\<close>

record event_reset =
  reset_source_text :: string
  reset_parsed_at :: string
  reset_timezone :: "string option"
  reset_confidence :: f64
  reset_margin_seconds :: "u64 option"

record event =
  ev_schema_version :: string
  event_id :: string
  observed_at :: string
  monotonic_sequence :: "u64 option"
  ev_watcher_id :: string
  target_identity_hash :: string
  ev_agent_id :: "string option"
  ev_session_id :: "string option"
  ev_provider_family :: "string option"
  ev_source :: event_source
  ev_category :: event_category
  ev_confidence :: f64
  ev_terminal :: bool
  evidence_fingerprint :: string
  ev_summary :: string
  redacted_evidence :: "string option"
  ev_reset :: "event_reset option"
  ev_policy_hint :: policy_hint
  supersedes_event_id :: "string option"
  ev_metadata :: "json btree"

definition EVENT_SCHEMA_VERSION :: string where
  "EVENT_SCHEMA_VERSION = ''1.0''"

section \<open>Validation\<close>

definition id_byte_ok :: "nat \<Rightarrow> char \<Rightarrow> bool" where
  "id_byte_ok i b = (is_ascii_alphanumeric b \<or> (0 < i \<and> b \<in> set ''._:-''))"

definition validate_id :: "string \<Rightarrow> (string, unit) result" where
  "validate_id v =
     (if v = [] \<or> 96 < length v \<or> \<not> list_all (\<lambda>(i, b). id_byte_ok i b) (enumerate 0 v)
      then Inl ''invalid id'' else Inr ())"

definition validate_hash :: "string \<Rightarrow> (string, unit) result" where
  "validate_hash v =
     (if \<not> (16 \<le> length v \<and> length v \<le> 128) \<or> \<not> list_all is_ascii_hexdigit v
      then Inl ''invalid hash'' else Inr ())"

text \<open>\<open>opt.is_some_and(|v| v.len() > n)\<close>\<close>

fun opt_longer :: "nat \<Rightarrow> string option \<Rightarrow> bool" where
  "opt_longer n None = False"
| "opt_longer n (Some v) = (n < length v)"

fun json_is_scalar :: "json \<Rightarrow> bool" where
  "json_is_scalar (JArray _) = False"
| "json_is_scalar (JObject _) = False"
| "json_is_scalar _ = True"

definition reset_invalid :: "rfc3339 \<Rightarrow> event_reset \<Rightarrow> bool" where
  "reset_invalid parse r =
     (reset_source_text r = [] \<or> 500 < length (reset_source_text r)
      \<or> parse (reset_parsed_at r) = None
      \<or> \<not> f64_in_unit (reset_confidence r)
      \<or> (case reset_margin_seconds r of None \<Rightarrow> False | Some margin \<Rightarrow> 3600 < margin)
      \<or> opt_longer 128 (reset_timezone r))"

definition event_bounds_violated :: "rfc3339 \<Rightarrow> event \<Rightarrow> bool" where
  "event_bounds_violated parse e =
     (parse (observed_at e) = None
      \<or> 256 < length (source_id (ev_source e))
      \<or> 256 < length (rule_or_field (ev_source e))
      \<or> opt_longer 128 (source_version (ev_source e))
      \<or> opt_longer 64 (ev_agent_id e)
      \<or> opt_longer 256 (ev_session_id e)
      \<or> opt_longer 64 (ev_provider_family e)
      \<or> opt_longer 4000 (redacted_evidence e)
      \<or> opt_longer 96 (supersedes_event_id e)
      \<or> list_ex (\<lambda>v. \<not> json_is_scalar v) (bt_values (ev_metadata e)))"

definition event_validate :: "rfc3339 \<Rightarrow> event \<Rightarrow> (string, unit) result" where
  "event_validate parse e =
     (if ev_schema_version e \<noteq> EVENT_SCHEMA_VERSION then Inl ''unsupported event schema version''
      else if \<not> f64_in_unit (ev_confidence e) \<or> \<not> f64_is_finite (ev_confidence e)
        then Inl ''confidence outside 0..=1''
      else rbind (validate_id (event_id e)) (\<lambda>_.
           rbind (validate_id (ev_watcher_id e)) (\<lambda>_.
           rbind (validate_hash (target_identity_hash e)) (\<lambda>_.
           rbind (validate_hash (evidence_fingerprint e)) (\<lambda>_.
           if ev_summary e = [] \<or> 1000 < length (ev_summary e)
              \<or> source_id (ev_source e) = [] \<or> rule_or_field (ev_source e) = []
           then Inl ''invalid bounded event text''
           else if event_bounds_violated parse e then Inl ''event violates schema bounds''
           else if (case ev_reset e of None \<Rightarrow> False | Some r \<Rightarrow> reset_invalid parse r)
           then Inl ''invalid reset''
           else if 32 < length (ev_metadata e) then Inl ''too many metadata fields''
           else Inr ())))))"

definition event_new ::
  "rfc3339 \<Rightarrow> string \<Rightarrow> string \<Rightarrow> string \<Rightarrow> string \<Rightarrow> event_source \<Rightarrow> event_category \<Rightarrow> f64 \<Rightarrow> bool
     \<Rightarrow> string \<Rightarrow> string \<Rightarrow> policy_hint \<Rightarrow> (string, event) result" where
  "event_new parse eid obs wid thash src cat conf term fp summary hint =
     (let e = \<lparr>ev_schema_version = EVENT_SCHEMA_VERSION, event_id = eid, observed_at = obs,
        monotonic_sequence = None, ev_watcher_id = wid, target_identity_hash = thash,
        ev_agent_id = None, ev_session_id = None, ev_provider_family = None, ev_source = src,
        ev_category = cat, ev_confidence = conf, ev_terminal = term, evidence_fingerprint = fp,
        ev_summary = summary, redacted_evidence = None, ev_reset = None, ev_policy_hint = hint,
        supersedes_event_id = None, ev_metadata = []\<rparr>
      in rbind (event_validate parse e) (\<lambda>_. Inr e))"

text \<open>
  Deserialisation: the wire structure has the fields of the event, and is accepted only if the event
  it becomes is valid.
\<close>

definition event_from_wire :: "rfc3339 \<Rightarrow> event \<Rightarrow> (string, event) result" where
  "event_from_wire parse wire = rbind (event_validate parse wire) (\<lambda>_. Inr wire)"

section \<open>Ranks\<close>

lemma source_rank_bounds: "1 \<le> source_rank k \<and> source_rank k \<le> 8"
  by (cases k) simp_all

lemma source_rank_inj: "source_rank a = source_rank b \<longleftrightarrow> a = b"
  by (cases a; cases b) simp_all

section \<open>What a valid event promises\<close>

text \<open>The declarative contract: what every reader of a persisted event may rely on.\<close>

definition well_formed_id :: "string \<Rightarrow> bool" where
  "well_formed_id v \<longleftrightarrow> v \<noteq> [] \<and> length v \<le> 96 \<and> is_ascii_alphanumeric (hd v) \<and>
     (\<forall>b \<in> set v. is_ascii_alphanumeric b \<or> b \<in> set ''._:-'')"

definition well_formed_hash :: "string \<Rightarrow> bool" where
  "well_formed_hash v \<longleftrightarrow> 16 \<le> length v \<and> length v \<le> 128 \<and> (\<forall>b \<in> set v. is_ascii_hexdigit b)"

lemma enumerate_all_tail:
  "0 < n \<Longrightarrow> list_all (\<lambda>(i, b). id_byte_ok i b) (enumerate n v) \<longleftrightarrow>
     (\<forall>b \<in> set v. is_ascii_alphanumeric b \<or> b \<in> set ''._:-'')"
  by (induction v arbitrary: n) (auto simp: id_byte_ok_def)

lemma validate_id_iff [result_simps]: "validate_id v = Inr u \<longleftrightarrow> well_formed_id v"
proof (cases v)
  case Nil
  then show ?thesis by (simp add: validate_id_def well_formed_id_def)
next
  case (Cons b bs)
  have "list_all (\<lambda>(i, b). id_byte_ok i b) (enumerate 0 v) \<longleftrightarrow>
      is_ascii_alphanumeric b \<and> (\<forall>b \<in> set bs. is_ascii_alphanumeric b \<or> b \<in> set ''._:-'')"
    using Cons enumerate_all_tail [of 1 bs] by (simp add: id_byte_ok_def)
  then show ?thesis
    using Cons by (auto simp: validate_id_def well_formed_id_def)
qed

lemma validate_hash_iff [result_simps]: "validate_hash v = Inr u \<longleftrightarrow> well_formed_hash v"
  by (auto simp: validate_hash_def well_formed_hash_def list_all_iff)

definition event_valid :: "rfc3339 \<Rightarrow> event \<Rightarrow> bool" where
  "event_valid parse e \<longleftrightarrow>
     ev_schema_version e = EVENT_SCHEMA_VERSION \<and>
     (\<exists>q. ev_confidence e = Finite q \<and> 0 \<le> q \<and> q \<le> 1) \<and>
     well_formed_id (event_id e) \<and> well_formed_id (ev_watcher_id e) \<and>
     well_formed_hash (target_identity_hash e) \<and> well_formed_hash (evidence_fingerprint e) \<and>
     ev_summary e \<noteq> [] \<and> length (ev_summary e) \<le> 1000 \<and>
     source_id (ev_source e) \<noteq> [] \<and> rule_or_field (ev_source e) \<noteq> [] \<and>
     \<not> event_bounds_violated parse e \<and>
     (\<forall>r. ev_reset e = Some r \<longrightarrow> \<not> reset_invalid parse r) \<and>
     length (ev_metadata e) \<le> 32"

lemma event_validate_iff [result_simps]: "event_validate parse e = Inr u \<longleftrightarrow> event_valid parse e"
  by (auto simp: event_validate_def event_valid_def result_simps f64_in_unit_iff not_less
      split: if_splits option.splits)

text \<open>Constructing an event and reading one back are the two ways an event enters the program, and
  both yield only valid events: \<open>Event::new\<close> succeeds exactly when the event it builds is valid, a
  wire image is accepted exactly when it is valid, and an event that was accepted once is read back
  unchanged.\<close>

theorem event_entry_points_valid:
  "(event_new parse eid obs wid thash src cat conf term fp summary hint = Inr e \<longrightarrow>
      event_valid parse e \<and> evidence_fingerprint e = fp \<and> ev_category e = cat \<and>
      ev_metadata e = [] \<and> event_from_wire parse e = Inr e) \<and>
   (event_from_wire parse wire = Inr e' \<longleftrightarrow> e' = wire \<and> event_valid parse wire)"
  by (auto simp: event_new_def event_from_wire_def Let_def result_simps)

definition example_event :: event where
  "example_event = \<lparr>ev_schema_version = ''1.0'', event_id = ''obs-1'',
     observed_at = ''2026-07-17T00:00:00Z'', monotonic_sequence = None, ev_watcher_id = ''w'',
     target_identity_hash = ''0123456789abcdef'', ev_agent_id = None, ev_session_id = None,
     ev_provider_family = None, ev_source = event_source_new Hook ''claude'' ''rule'',
     ev_category = WaitingForModel, ev_confidence = Finite 1, ev_terminal = False,
     evidence_fingerprint = ''fedcba9876543210'', ev_summary = ''bounded observation'',
     redacted_evidence = None, ev_reset = None, ev_policy_hint = WaitAllowed,
     supersedes_event_id = None, ev_metadata = []\<rparr>"

lemmas example_event_simps = example_event_def event_source_new_def

theorem event_entry_points_valid_witness:
  "event_valid (\<lambda>_. Some 0) example_event"
proof -
  have "event_new (\<lambda>_. Some 0) ''obs-1'' ''2026-07-17T00:00:00Z'' ''w'' ''0123456789abcdef''
      (event_source_new Hook ''claude'' ''rule'') WaitingForModel (Finite 1) False
      ''fedcba9876543210'' ''bounded observation'' WaitAllowed = Inr example_event"
    by (simp add: event_new_def event_validate_def validate_id_def validate_hash_def id_byte_ok_def
        event_bounds_violated_def EVENT_SCHEMA_VERSION_def example_event_simps
        is_ascii_alphanumeric_def is_ascii_hexdigit_def is_ascii_digit_def is_ascii_upper_def
        is_ascii_lower_def f64_in_unit_def f64_le_def)
  then show ?thesis
    using event_entry_points_valid by blast
qed

end
