(* ===== verification/Model_Identity.thy ===== *)
theory Model_Identity
  imports Prelude
begin

text \<open>
  Target identities (\<open>src/src/model/identity.rs\<close>): processes, multiplexer panes, the constructors, the
  versioned wire form and its reader. A version 1 image of a multiplexer target has no proven
  context, so reading it always asks for revalidation. \<open>TmuxChrome\<close> is the trusted screen boundary
  of \<open>src/src/observe/screen.rs\<close>.
\<close>

section \<open>Data\<close>

record trusted_screen_boundary =
  tsb_adapter :: string
  tsb_version :: u16
  first_live_line :: nat

type_synonym tmux_chrome = trusted_screen_boundary

definition tsb_is_supported :: "trusted_screen_boundary \<Rightarrow> bool" where
  "tsb_is_supported b = (tsb_adapter b \<noteq> [] \<and> tsb_version b = 1)"

datatype herdr_wire_protocol = Auto | BridgeV1 | Native16

datatype multiplexer_context =
    Tmux (tmux_socket_path: string) (tmux_server_instance: string) (tmux_session_id: string)
      (tmux_window_id: string) (tmux_pane_id: string) (tmux_tty: string)
  | Herdr (herdr_socket_path: string) (herdr_server_instance: string) (herdr_workspace_id: string)
      (herdr_tab_id: string) (herdr_pane_id: string) (herdr_tty: string)
      (wire_protocol: herdr_wire_protocol)

record process_identity =
  pi_schema_version :: u16
  pi_pid :: u32
  pi_start_time :: u64
  pi_executable :: "string option"
  pi_argv_digest :: "string option"
  pi_uid :: "u32 option"
  pi_process_group_id :: "u32 option"
  pi_session_leader_id :: "u32 option"
  pi_tty :: "string option"
  pi_parent_digest :: "string option"

definition PROCESS_IDENTITY_SCHEMA_VERSION :: u16 where
  "PROCESS_IDENTITY_SCHEMA_VERSION = 1"

definition TARGET_IDENTITY_SCHEMA_VERSION :: u16 where
  "TARGET_IDENTITY_SCHEMA_VERSION = 2"

definition process_identity_new :: "u32 \<Rightarrow> u64 \<Rightarrow> process_identity" where
  "process_identity_new pid start =
     \<lparr>pi_schema_version = PROCESS_IDENTITY_SCHEMA_VERSION, pi_pid = pid, pi_start_time = start,
      pi_executable = None, pi_argv_digest = None, pi_uid = None, pi_process_group_id = None,
      pi_session_leader_id = None, pi_tty = None, pi_parent_digest = None\<rparr>"

text \<open>The derived reader yields the fields; the hand-written part checks the version.\<close>

definition process_identity_from_wire :: "process_identity \<Rightarrow> (string, process_identity) result" where
  "process_identity_from_wire wire =
     (if pi_schema_version wire \<noteq> PROCESS_IDENTITY_SCHEMA_VERSION
      then Inl ''unsupported process identity schema version''
      else Inr wire)"

datatype target_identity =
    Process (ti_process: process_identity)
  | Multiplexer (ti_provider: string) (ti_server: string) (ti_pane: string)
      (ti_process: process_identity) (ti_session: "string option")
      (ti_context: "multiplexer_context option") (ti_chrome: "tmux_chrome option")
      (ti_needs_revalidation: bool)

section \<open>Constructors and accessors\<close>

definition target_multiplexer ::
  "string \<Rightarrow> string \<Rightarrow> string \<Rightarrow> process_identity \<Rightarrow> string option \<Rightarrow> target_identity" where
  "target_multiplexer provider server pane process session =
     Multiplexer provider server pane process session None None True"

definition target_tmux ::
  "string \<Rightarrow> string \<Rightarrow> string \<Rightarrow> string \<Rightarrow> string \<Rightarrow> string \<Rightarrow> process_identity
     \<Rightarrow> tmux_chrome option \<Rightarrow> target_identity" where
  "target_tmux socket server session window pane tty process chrome =
     Multiplexer ''tmux'' socket pane process (Some session)
       (Some (Tmux socket server session window pane tty)) chrome False"

definition target_herdr ::
  "string \<Rightarrow> string \<Rightarrow> string \<Rightarrow> string \<Rightarrow> string \<Rightarrow> string \<Rightarrow> process_identity
     \<Rightarrow> herdr_wire_protocol \<Rightarrow> target_identity" where
  "target_herdr socket server workspace tab pane tty process wire =
     Multiplexer ''herdr'' socket pane process (Some workspace)
       (Some (Herdr socket server workspace tab pane tty wire)) None False"

fun needs_revalidation :: "target_identity \<Rightarrow> bool" where
  "needs_revalidation (Process _) = False"
| "needs_revalidation (Multiplexer _ _ _ _ _ _ _ nr) = nr"

fun observation_context :: "target_identity \<Rightarrow> multiplexer_context option" where
  "observation_context (Process _) = None"
| "observation_context (Multiplexer _ _ _ _ _ ctx _ _) = ctx"

fun tmux_chrome_of :: "target_identity \<Rightarrow> tmux_chrome option" where
  "tmux_chrome_of (Process _) = None"
| "tmux_chrome_of (Multiplexer provider _ _ _ _ _ chrome _) =
     (if provider = ''tmux'' then chrome else None)"

section \<open>The wire form\<close>

datatype target_wire =
    WireProcess (tw_schema_version: u16) process_identity
  | WireMultiplexer (tw_schema_version: u16) string string string process_identity "string option"
      "multiplexer_context option" "tmux_chrome option" bool

fun target_serialize :: "target_identity \<Rightarrow> target_wire" where
  "target_serialize (Process p) = WireProcess TARGET_IDENTITY_SCHEMA_VERSION p"
| "target_serialize (Multiplexer provider server pane p session ctx chrome nr) =
     WireMultiplexer TARGET_IDENTITY_SCHEMA_VERSION provider server pane p session ctx chrome nr"

fun target_of_wire :: "u16 \<Rightarrow> target_wire \<Rightarrow> target_identity" where
  "target_of_wire version (WireProcess _ p) = Process p"
| "target_of_wire version (WireMultiplexer _ provider server pane p session ctx chrome nr) =
     Multiplexer provider server pane p session ctx chrome (version = 1 \<or> nr)"

definition target_deserialize :: "target_wire \<Rightarrow> (string, target_identity) result" where
  "target_deserialize wire =
     (let version = tw_schema_version wire in
      if version \<noteq> 1 \<and> version \<noteq> TARGET_IDENTITY_SCHEMA_VERSION
      then Inl ''unsupported target identity schema version''
      else Inr (target_of_wire version wire))"

section \<open>Properties\<close>

text \<open>A target identity written by this version of the program is read back exactly as it was.\<close>

theorem target_roundtrip:
  "target_deserialize (target_serialize t) = Inr t"
  by (cases t) (simp_all add: target_deserialize_def TARGET_IDENTITY_SCHEMA_VERSION_def Let_def)

text \<open>Reading an older target image fails closed: whatever it claims, a version 1 multiplexer target
  needs revalidation, and every version but 1 and 2 is refused.\<close>

theorem target_legacy_fails_closed:
  "target_deserialize (WireMultiplexer v provider server pane p session ctx chrome nr) =
     (if v = 1 then Inr (Multiplexer provider server pane p session ctx chrome True)
      else if v = 2 then Inr (Multiplexer provider server pane p session ctx chrome nr)
      else Inl ''unsupported target identity schema version'')"
  by (auto simp: target_deserialize_def TARGET_IDENTITY_SCHEMA_VERSION_def Let_def)

end
