(* ===== verification/Recovery_Machine.thy ===== *)
theory Recovery_Machine
  imports Prelude
begin

text \<open>
  The recovery state machine of \<open>src/src/recovery/state_machine.rs\<close>: its states, budgets and
  commands, the whole of \<open>RecoveryMachine\<close> with the audit trail it keeps, and the invariants that
  make it safe to drive: attempts, waits and planner calls stay within the budget, every audit entry
  is one of the eight allowed edges or a restart, and an action whose fingerprint was completed is
  never begun again.

  A method on \<open>&mut self\<close> is a function to the result and the machine left behind, so that what
  Rust writes before an early return is visible.
\<close>

section \<open>Data\<close>

datatype recovery_state =
    NeedsRevalidation | Observing | Confirmed | Acting | Waiting | Verifying | Recovered
  | HumanRequired | Stopped

record budget =
  max_attempts :: u32
  max_cumulative_wait :: duration
  budget_planner_calls :: u32
  cooldown :: duration

record clock_snapshot =
  monotonic_seconds :: u64
  wall_seconds :: int

datatype recovery_command =
    Revalidated
  | Confirm (cmd_fingerprint: string)
  | BeginAction (cmd_fingerprint: string) (cmd_clock: clock_snapshot)
  | ActionFailed (cmd_fingerprint: string) (cmd_wait: duration) (cmd_clock: clock_snapshot)
  | ActionSucceeded (cmd_fingerprint: string)
  | RearmAfterWait
  | ReservePlanner

record audit_transition =
  at_from :: recovery_state
  at_to :: recovery_state
  at_reason :: string

record recovery_machine =
  rm_schema_version :: u16
  rm_state :: recovery_state
  rm_budget :: budget
  rm_attempts :: u32
  rm_cumulative_wait :: duration
  rm_last_attempt_mono :: "u64 option"
  rm_completed :: "string set"
  rm_current :: "string option"
  rm_planner_calls :: u32
  rm_audit :: "audit_transition list"

type_synonym rm_result = "(fault, unit) result \<times> recovery_machine"

section \<open>Operations\<close>

definition rm_new :: "budget \<Rightarrow> recovery_machine" where
  "rm_new b = \<lparr>rm_schema_version = 1, rm_state = NeedsRevalidation, rm_budget = b, rm_attempts = 0,
     rm_cumulative_wait = 0, rm_last_attempt_mono = None, rm_completed = {}, rm_current = None,
     rm_planner_calls = 0, rm_audit = []\<rparr>"

fun valid_edge :: "recovery_state \<Rightarrow> recovery_state \<Rightarrow> bool" where
  "valid_edge NeedsRevalidation Observing = True"
| "valid_edge Observing Confirmed = True"
| "valid_edge Confirmed Acting = True"
| "valid_edge Acting Waiting = True"
| "valid_edge Recovered Observing = True"
| "valid_edge Acting Verifying = True"
| "valid_edge Waiting Confirmed = True"
| "valid_edge Verifying Recovered = True"
| "valid_edge _ _ = False"

definition rm_transition :: "recovery_state \<Rightarrow> recovery_machine \<Rightarrow> rm_result" where
  "rm_transition nxt m =
     (if valid_edge (rm_state m) nxt
      then (Inr (), m\<lparr>rm_state := nxt,
              rm_audit := rm_audit m @ [\<lparr>at_from = rm_state m, at_to = nxt,
                at_reason = ''validated transition''\<rparr>]\<rparr>)
      else (Inl (Failed ''invalid recovery transition''), m))"

text \<open>Sequencing with \<open>?\<close>: the next step runs only after success, on the machine left behind.\<close>

fun rm_then :: "rm_result \<Rightarrow> (recovery_machine \<Rightarrow> rm_result) \<Rightarrow> rm_result" where
  "rm_then (Inl e, m) f = (Inl e, m)"
| "rm_then (Inr _, m) f = f m"

definition restore_for_restart :: "recovery_machine \<Rightarrow> (string, recovery_machine) result" where
  "restore_for_restart m =
     (if rm_schema_version m \<noteq> 1 then Inl ''unsupported recovery schema''
      else Inr (m\<lparr>rm_state := NeedsRevalidation,
             rm_audit := rm_audit m @ [\<lparr>at_from = rm_state m, at_to = NeedsRevalidation,
               at_reason = ''restart requires live revalidation''\<rparr>]\<rparr>))"

definition revalidated :: "recovery_machine \<Rightarrow> rm_result" where
  "revalidated m = rm_transition Observing m"

definition confirm :: "string \<Rightarrow> recovery_machine \<Rightarrow> rm_result" where
  "confirm fp m = rm_then (rm_transition Confirmed m) (\<lambda>m. (Inr (), m\<lparr>rm_current := Some fp\<rparr>))"

definition begin_action :: "string \<Rightarrow> clock_snapshot \<Rightarrow> recovery_machine \<Rightarrow> rm_result" where
  "begin_action fp now m =
     (if rm_state m = NeedsRevalidation then (Inl (Failed ''revalidation required''), m)
      else if fp \<in> rm_completed m then (Inl (Failed ''duplicate action''), m)
      else if rm_current m \<noteq> Some fp then (Inl (Failed ''stale evidence''), m)
      else if max_attempts (rm_budget m) \<le> rm_attempts m
        then (Inl (Failed ''attempt budget exhausted''), m)
      else if (case rm_last_attempt_mono m of None \<Rightarrow> False
               | Some prev \<Rightarrow> sat_sub (monotonic_seconds now) prev < dur_as_secs (cooldown (rm_budget m)))
        then (Inl (Failed ''cooldown active''), m)
      else rm_then (rm_transition Acting m)
        (\<lambda>m. (Inr (), m\<lparr>rm_attempts := rm_attempts m + 1,
                       rm_last_attempt_mono := Some (monotonic_seconds now)\<rparr>)))"

definition action_failed ::
  "string \<Rightarrow> duration \<Rightarrow> clock_snapshot \<Rightarrow> recovery_machine \<Rightarrow> rm_result" where
  "action_failed fp wait now m =
     (if rm_current m \<noteq> Some fp
         \<or> max_cumulative_wait (rm_budget m) < dur_sat_add (rm_cumulative_wait m) wait
      then (Inl (Failed ''wait budget exhausted''), m)
      else case dur_checked_add (rm_cumulative_wait m) wait of
        None \<Rightarrow> (Inl (Panic ''overflow when adding durations''), m)
      | Some w \<Rightarrow>
          rm_then (rm_transition Waiting (m\<lparr>rm_cumulative_wait := w\<rparr>)) (rm_transition Confirmed))"

definition action_succeeded :: "string \<Rightarrow> recovery_machine \<Rightarrow> rm_result" where
  "action_succeeded fp m =
     (if rm_current m \<noteq> Some fp then (Inl (Failed ''stale evidence''), m)
      else rm_then (rm_then (rm_transition Verifying m) (rm_transition Recovered))
        (\<lambda>m. (Inr (), m\<lparr>rm_completed := insert fp (rm_completed m)\<rparr>)))"

definition rearm_after_wait :: "recovery_machine \<Rightarrow> rm_result" where
  "rearm_after_wait m =
     (if rm_state m \<noteq> Recovered then (Inl (Failed ''wait rearm requires a completed action''), m)
      else rm_transition Observing (m\<lparr>rm_current := None\<rparr>))"

definition reserve_planner_call :: "recovery_machine \<Rightarrow> rm_result" where
  "reserve_planner_call m =
     (if budget_planner_calls (rm_budget m) \<le> rm_planner_calls m
      then (Inl (Failed ''planner budget exhausted''), m)
      else (Inr (), m\<lparr>rm_planner_calls := rm_planner_calls m + 1\<rparr>))"

fun rm_apply :: "recovery_command \<Rightarrow> recovery_machine \<Rightarrow> rm_result" where
  "rm_apply Revalidated m = revalidated m"
| "rm_apply (Confirm fp) m = confirm fp m"
| "rm_apply (BeginAction fp clk) m = begin_action fp clk m"
| "rm_apply (ActionFailed fp wait clk) m = action_failed fp wait clk m"
| "rm_apply (ActionSucceeded fp) m = action_succeeded fp m"
| "rm_apply RearmAfterWait m = rearm_after_wait m"
| "rm_apply ReservePlanner m = reserve_planner_call m"

lemmas rm_op_defs = revalidated_def confirm_def begin_action_def action_failed_def
  action_succeeded_def rearm_after_wait_def reserve_planner_call_def

section \<open>Transitions\<close>

lemma valid_edge_iff:
  "valid_edge a b \<longleftrightarrow>
     (a, b) \<in> {(NeedsRevalidation, Observing), (Observing, Confirmed), (Confirmed, Acting),
       (Acting, Waiting), (Recovered, Observing), (Acting, Verifying), (Waiting, Confirmed),
       (Verifying, Recovered)}"
  by (cases a; cases b) simp_all

lemma rm_then_eq:
  "rm_then r f = (case fst r of Inl e \<Rightarrow> r | Inr _ \<Rightarrow> f (snd r))"
  by (cases "(r, f)" rule: rm_then.cases) auto

text \<open>What each command does when it succeeds, as one equation or implication per command.\<close>

lemma rm_transition_ok_iff:
  "rm_transition nxt m = (Inr u, m') \<longleftrightarrow>
     valid_edge (rm_state m) nxt \<and>
     m' = m\<lparr>rm_state := nxt, rm_audit := rm_audit m @
       [\<lparr>at_from = rm_state m, at_to = nxt, at_reason = ''validated transition''\<rparr>]\<rparr>"
  by (auto simp: rm_transition_def)

lemma rm_transition_err_iff:
  "rm_transition nxt m = (Inl e, m') \<longleftrightarrow>
     \<not> valid_edge (rm_state m) nxt \<and> e = Failed ''invalid recovery transition'' \<and> m' = m"
  by (auto simp: rm_transition_def)

lemma rm_then_ok_iff:
  "rm_then r f = (Inr u, m') \<longleftrightarrow> (\<exists>m1. r = (Inr (), m1) \<and> f m1 = (Inr u, m'))"
  by (cases "(r, f)" rule: rm_then.cases) auto

lemma rm_then_err_iff:
  "rm_then r f = (Inl e, m') \<longleftrightarrow>
     r = (Inl e, m') \<or> (\<exists>m1. r = (Inr (), m1) \<and> f m1 = (Inl e, m'))"
  by (cases "(r, f)" rule: rm_then.cases) auto

lemmas rm_step_iffs = rm_transition_ok_iff rm_transition_err_iff rm_then_ok_iff rm_then_err_iff

lemma valid_edge_into:
  "valid_edge s Observing \<longleftrightarrow> s = NeedsRevalidation \<or> s = Recovered"
  "valid_edge s Confirmed \<longleftrightarrow> s = Observing \<or> s = Waiting"
  "valid_edge s Acting \<longleftrightarrow> s = Confirmed"
  "valid_edge s Waiting \<longleftrightarrow> s = Acting"
  "valid_edge s Verifying \<longleftrightarrow> s = Acting"
  "valid_edge s Recovered \<longleftrightarrow> s = Verifying"
  by (cases s; simp)+

lemma begin_action_ok:
  assumes "begin_action fp now m = (Inr u, m')"
  shows "rm_state m = Confirmed" "rm_state m' = Acting" "fp \<notin> rm_completed m"
    "rm_current m = Some fp" "rm_attempts m < max_attempts (rm_budget m)"
    "rm_attempts m' = rm_attempts m + 1" "rm_last_attempt_mono m' = Some (monotonic_seconds now)"
    "rm_current m' = rm_current m" "rm_completed m' = rm_completed m"
    "rm_budget m' = rm_budget m" "rm_cumulative_wait m' = rm_cumulative_wait m"
    "rm_planner_calls m' = rm_planner_calls m" "rm_schema_version m' = rm_schema_version m"
    "rm_audit m' = rm_audit m @
       [\<lparr>at_from = Confirmed, at_to = Acting, at_reason = ''validated transition''\<rparr>]"
    "\<And>prev. rm_last_attempt_mono m = Some prev \<Longrightarrow>
       dur_as_secs (cooldown (rm_budget m)) \<le> sat_sub (monotonic_seconds now) prev"
  using assms
  by (auto simp: begin_action_def rm_step_iffs valid_edge_into split: if_splits option.splits)

lemma begin_action_err: "begin_action fp now m = (Inl e, m') \<Longrightarrow> m' = m"
  by (auto simp: begin_action_def rm_step_iffs split: if_splits)

lemma action_failed_ok:
  assumes "action_failed fp wait now m = (Inr u, m')"
  shows "rm_state m = Acting" "rm_state m' = Confirmed" "rm_current m = Some fp"
    "rm_cumulative_wait m' = rm_cumulative_wait m + wait"
    "rm_cumulative_wait m' \<le> max_cumulative_wait (rm_budget m)"
    "rm_budget m' = rm_budget m" "rm_attempts m' = rm_attempts m"
    "rm_current m' = rm_current m" "rm_completed m' = rm_completed m"
    "rm_planner_calls m' = rm_planner_calls m"
  using assms
  by (auto simp: action_failed_def rm_step_iffs valid_edge_into dur_checked_add_def dur_sat_add_def
      split: if_splits option.splits)

lemma action_succeeded_ok:
  assumes "action_succeeded fp m = (Inr u, m')"
  shows "rm_state m = Acting" "rm_state m' = Recovered" "rm_current m = Some fp"
    "rm_completed m' = insert fp (rm_completed m)" "rm_current m' = rm_current m"
    "rm_budget m' = rm_budget m" "rm_attempts m' = rm_attempts m"
    "rm_cumulative_wait m' = rm_cumulative_wait m" "rm_planner_calls m' = rm_planner_calls m"
  using assms
  by (auto simp: action_succeeded_def rm_step_iffs valid_edge_into split: if_splits)

section \<open>The audit trail\<close>

text \<open>
  The trail is a path: it starts where the machine started, each entry starts where the one before
  ended, each is an allowed edge or a restart, and it ends in the machine's state.
\<close>

definition audit_entry_ok :: "audit_transition \<Rightarrow> bool" where
  "audit_entry_ok e \<longleftrightarrow>
     (valid_edge (at_from e) (at_to e) \<and> at_reason e = ''validated transition'') \<or>
     (at_to e = NeedsRevalidation \<and> at_reason e = ''restart requires live revalidation'')"

fun audit_path :: "recovery_state \<Rightarrow> audit_transition list \<Rightarrow> recovery_state \<Rightarrow> bool" where
  "audit_path s [] t = (s = t)"
| "audit_path s (e # es) t = (at_from e = s \<and> audit_entry_ok e \<and> audit_path (at_to e) es t)"

lemma audit_path_append_Cons [simp]:
  "audit_path s (es @ e # fs) t \<longleftrightarrow>
     audit_path s es (at_from e) \<and> audit_entry_ok e \<and> audit_path (at_to e) fs t"
  by (induction es arbitrary: s) auto

section \<open>The invariant\<close>

definition rm_inv :: "recovery_machine \<Rightarrow> bool" where
  "rm_inv m \<longleftrightarrow>
     rm_schema_version m = 1 \<and>
     rm_attempts m \<le> max_attempts (rm_budget m) \<and>
     rm_cumulative_wait m \<le> max_cumulative_wait (rm_budget m) \<and>
     rm_planner_calls m \<le> budget_planner_calls (rm_budget m) \<and>
     rm_state m \<in> {NeedsRevalidation, Observing, Confirmed, Acting, Recovered} \<and>
     (rm_state m \<in> {Confirmed, Acting, Recovered} \<longrightarrow> rm_current m \<noteq> None) \<and>
     (rm_state m = Recovered \<longrightarrow> (\<exists>fp \<in> rm_completed m. rm_current m = Some fp)) \<and>
     audit_path NeedsRevalidation (rm_audit m) (rm_state m)"

lemma rm_inv_new: "rm_inv (rm_new b)"
  by (simp add: rm_inv_def rm_new_def)

lemma restore_for_restart_Inr_iff:
  "restore_for_restart m = Inr m' \<longleftrightarrow>
     rm_schema_version m = 1 \<and>
     m' = m\<lparr>rm_state := NeedsRevalidation, rm_audit := rm_audit m @
       [\<lparr>at_from = rm_state m, at_to = NeedsRevalidation,
         at_reason = ''restart requires live revalidation''\<rparr>]\<rparr>"
  by (simp add: restore_for_restart_def) blast

lemma rm_inv_restart:
  assumes "rm_inv m" "restore_for_restart m = Inr m'"
  shows "rm_inv m'"
proof -
  have m': "m' = m\<lparr>rm_state := NeedsRevalidation, rm_audit := rm_audit m @
       [\<lparr>at_from = rm_state m, at_to = NeedsRevalidation,
         at_reason = ''restart requires live revalidation''\<rparr>]\<rparr>"
    using assms(2) by (simp add: restore_for_restart_Inr_iff)
  show ?thesis
    using assms(1) unfolding m' by (simp add: rm_inv_def audit_entry_ok_def)
qed

lemma inc_le_word: "(a::'a::len word) < b \<Longrightarrow> a + 1 \<le> b"
  by (rule inc_le)

lemma rm_inv_revalidated: "rm_inv m \<Longrightarrow> rm_inv (snd (revalidated m))"
  by (auto simp: rm_inv_def revalidated_def rm_transition_def audit_entry_ok_def)

lemma rm_inv_confirm: "rm_inv m \<Longrightarrow> rm_inv (snd (confirm fp m))"
  by (auto simp: rm_inv_def confirm_def rm_transition_def audit_entry_ok_def)

lemma rm_inv_begin_action:
  assumes "rm_inv m"
  shows "rm_inv (snd (begin_action fp now m))"
proof (cases "begin_action fp now m")
  case (Pair r m')
  show ?thesis
  proof (cases r)
    case (Inl e)
    with Pair assms show ?thesis by (auto dest: begin_action_err)
  next
    case (Inr u)
    with Pair have ok: "begin_action fp now m = (Inr u, m')" by simp
    note f = begin_action_ok [OF ok]
    from f(5) have "rm_attempts m + 1 \<le> max_attempts (rm_budget m)" by (rule inc_le_word)
    with Pair assms f show ?thesis by (simp add: rm_inv_def audit_entry_ok_def)
  qed
qed

lemma rm_inv_action_failed: "rm_inv m \<Longrightarrow> rm_inv (snd (action_failed fp wait now m))"
  by (auto simp: rm_inv_def action_failed_def rm_transition_def audit_entry_ok_def
      valid_edge_into dur_checked_add_def dur_sat_add_def)

lemma rm_inv_action_succeeded: "rm_inv m \<Longrightarrow> rm_inv (snd (action_succeeded fp m))"
  by (auto simp: rm_inv_def action_succeeded_def rm_transition_def
      audit_entry_ok_def valid_edge_into)

lemma rm_inv_rearm: "rm_inv m \<Longrightarrow> rm_inv (snd (rearm_after_wait m))"
  by (auto simp: rm_inv_def rearm_after_wait_def rm_transition_def
      audit_entry_ok_def)

lemma rm_inv_reserve: "rm_inv m \<Longrightarrow> rm_inv (snd (reserve_planner_call m))"
  by (auto simp: rm_inv_def reserve_planner_call_def inc_le_word not_le)

lemmas rm_inv_ops = rm_inv_revalidated rm_inv_confirm rm_inv_begin_action rm_inv_action_failed
  rm_inv_action_succeeded rm_inv_rearm rm_inv_reserve

lemma rm_inv_apply: "rm_inv m \<Longrightarrow> rm_inv (snd (rm_apply c m))"
  by (cases c) (simp_all add: rm_inv_ops)

section \<open>Runs and reachable machines\<close>

text \<open>
  A life of a machine: commands in any order, successful or refused, and restarts of the daemon, from
  a new machine. The command loop itself is \<open>rm_run\<close>, which keeps going after a refused command.
\<close>

inductive rm_reach :: "budget \<Rightarrow> recovery_machine \<Rightarrow> bool" for b where
  new: "rm_reach b (rm_new b)"
| command: "rm_reach b m \<Longrightarrow> rm_apply c m = (r, m') \<Longrightarrow> rm_reach b m'"
| restart: "rm_reach b m \<Longrightarrow> restore_for_restart m = Inr m' \<Longrightarrow> rm_reach b m'"

fun rm_run :: "recovery_command list \<Rightarrow> recovery_machine \<Rightarrow> recovery_machine" where
  "rm_run [] m = m"
| "rm_run (c # cs) m = rm_run cs (snd (rm_apply c m))"

lemma rm_apply_budget [simp]: "rm_budget (snd (rm_apply c m)) = rm_budget m"
  by (cases c) (auto simp: rm_op_defs rm_transition_def rm_then_eq split: option.splits)

lemma rm_apply_completed_mono: "rm_completed m \<subseteq> rm_completed (snd (rm_apply c m))"
  by (cases c) (auto simp: rm_op_defs rm_transition_def rm_then_eq split: option.splits)

lemma rm_run_budget [simp]: "rm_budget (rm_run cs m) = rm_budget m"
  by (induction cs arbitrary: m) simp_all

lemma rm_run_completed_mono: "rm_completed m \<subseteq> rm_completed (rm_run cs m)"
proof (induction cs arbitrary: m)
  case (Cons c cs)
  show ?case
    using rm_apply_completed_mono [of m c] Cons.IH [of "snd (rm_apply c m)"] by simp
qed simp

lemma rm_run_append: "rm_run (cs @ ds) m = rm_run ds (rm_run cs m)"
  by (induction cs arbitrary: m) simp_all

lemma rm_reach_inv: "rm_reach b m \<Longrightarrow> rm_inv m \<and> rm_budget m = b"
proof (induction rule: rm_reach.induct)
  case new
  show ?case by (simp add: rm_inv_new) (simp add: rm_new_def)
next
  case (command m c r m')
  then show ?case
    using rm_inv_apply [of m c] rm_apply_budget [of c m] by simp
next
  case (restart m m')
  then show ?case
    using rm_inv_restart [of m m'] by (simp add: restore_for_restart_Inr_iff)
qed

lemma rm_reach_run: "rm_reach b m \<Longrightarrow> rm_reach b (rm_run cs m)"
proof (induction cs arbitrary: m)
  case (Cons c cs)
  have "rm_reach b (snd (rm_apply c m))"
    by (rule rm_reach.command [OF Cons.prems prod.collapse [symmetric]])
  then show ?case by (simp add: Cons.IH)
qed simp

text \<open>Successful starts of an action in a run, counted as the loop goes.\<close>

fun rm_starts :: "recovery_command list \<Rightarrow> recovery_machine \<Rightarrow> nat" where
  "rm_starts [] m = 0"
| "rm_starts (c # cs) m =
     (case c of BeginAction fp clk \<Rightarrow> if fst (rm_apply c m) = Inr () then 1 else 0 | _ \<Rightarrow> 0)
       + rm_starts cs (snd (rm_apply c m))"

lemma rm_apply_attempts:
  "unat (rm_attempts (snd (rm_apply c m))) =
     unat (rm_attempts m) +
       (case c of BeginAction fp clk \<Rightarrow> if fst (rm_apply c m) = Inr () then 1 else 0 | _ \<Rightarrow> 0)"
proof (cases "\<exists>fp clk. c = BeginAction fp clk")
  case True
  then obtain fp clk where c: "c = BeginAction fp clk" by blast
  obtain r m' where r: "begin_action fp clk m = (r, m')" by fastforce
  show ?thesis
  proof (cases r)
    case (Inl e)
    with r have "m' = m" by (auto dest: begin_action_err)
    with c r Inl show ?thesis by simp
  next
    case (Inr u)
    with r have "rm_attempts m' = rm_attempts m + 1" "rm_attempts m < max_attempts (rm_budget m)"
      by (auto dest: begin_action_ok(5,6))
    with c r Inr show ?thesis by (simp add: unat_inc_below)
  qed
next
  case False
  then show ?thesis
    by (cases c) (auto simp: rm_op_defs rm_transition_def rm_then_eq split: option.splits)
qed

lemma rm_run_attempts:
  "unat (rm_attempts (rm_run cs m)) = unat (rm_attempts m) + rm_starts cs m"
  by (induction cs arbitrary: m) (simp_all add: rm_apply_attempts)

lemma rm_apply_err:
  assumes err: "rm_apply c m = (Inl e, m')"
  shows "m' = m \<or>
    (\<exists>fp wait clk. c = ActionFailed fp wait clk \<and> rm_state m \<noteq> Acting \<and>
       e = Failed ''invalid recovery transition'' \<and>
       m' = m\<lparr>rm_cumulative_wait := rm_cumulative_wait m + wait\<rparr>)"
proof (cases c)
  case (BeginAction fp clk)
  with err show ?thesis by (auto dest: begin_action_err)
next
  case (ActionFailed fp wait clk)
  with err show ?thesis
    by (auto simp: action_failed_def rm_step_iffs valid_edge_into dur_checked_add_def
        split: if_splits)
qed (use err in \<open>auto simp: rm_op_defs rm_step_iffs valid_edge_into split: if_splits\<close>)

section \<open>Properties\<close>

text \<open>C22: Every machine a life can reach keeps its budgets and its audit trail: attempts, accumulated
  waiting and planner calls are within the budget it was made with; it never rests in a state that
  only a compound command passes through (\<open>Waiting\<close>, \<open>Verifying\<close>) nor in one no edge leads to
  (\<open>HumanRequired\<close>, \<open>Stopped\<close>); and the audit trail is a path of allowed edges and restarts from
  \<open>NeedsRevalidation\<close> to the present state.\<close>

theorem rm_reach_safe:
  assumes "rm_reach b m"
  shows "rm_attempts m \<le> max_attempts b \<and> rm_cumulative_wait m \<le> max_cumulative_wait b \<and>
    rm_planner_calls m \<le> budget_planner_calls b \<and>
    rm_state m \<in> {NeedsRevalidation, Observing, Confirmed, Acting, Recovered} \<and>
    audit_path NeedsRevalidation (rm_audit m) (rm_state m)"
  using rm_reach_inv [OF assms] by (auto simp: rm_inv_def)

theorem rm_reach_safe_witness:
  "let m = rm_run [Revalidated, Confirm ''fp'', BeginAction ''fp'' \<lparr>monotonic_seconds = 5, wall_seconds = 0\<rparr>]
             (rm_new \<lparr>max_attempts = 3, max_cumulative_wait = 300, budget_planner_calls = 0, cooldown = 60\<rparr>)
   in rm_state m = Acting \<and> rm_attempts m \<le> 3"
proof -
  let ?b = "\<lparr>max_attempts = 3, max_cumulative_wait = 300, budget_planner_calls = 0, cooldown = 60\<rparr>"
  let ?m = "rm_run [Revalidated, Confirm ''fp'',
     BeginAction ''fp'' \<lparr>monotonic_seconds = 5, wall_seconds = 0\<rparr>] (rm_new ?b)"
  have "rm_attempts ?m \<le> max_attempts ?b"
    using rm_reach_safe [OF rm_reach_run [OF rm_reach.new]] by blast
  moreover have "rm_state ?m = Acting"
    by (simp add: rm_op_defs rm_transition_def rm_new_def)
  ultimately show ?thesis by (simp add: Let_def)
qed

text \<open>C21: Over any sequence of commands, whatever they return, the number of actions that are started is
  at most what the attempt budget leaves; the 32-bit attempt counter never wraps.\<close>

theorem rm_starts_bounded:
  assumes "rm_reach b m"
  shows "rm_starts cs m \<le> unat (max_attempts b) - unat (rm_attempts m)"
proof -
  have "rm_attempts (rm_run cs m) \<le> max_attempts b"
    using rm_reach_inv [OF rm_reach_run [OF assms, of cs]] by (auto simp: rm_inv_def)
  then show ?thesis
    using rm_run_attempts [of cs m] by (simp add: word_le_nat_alt)
qed

theorem rm_starts_bounded_witness:
  "rm_starts [Revalidated, Confirm ''fp'', BeginAction ''fp'' \<lparr>monotonic_seconds = 5, wall_seconds = 0\<rparr>,
      ActionFailed ''fp'' 1 \<lparr>monotonic_seconds = 5, wall_seconds = 0\<rparr>,
      BeginAction ''fp'' \<lparr>monotonic_seconds = 9, wall_seconds = 0\<rparr>]
     (rm_new \<lparr>max_attempts = 1, max_cumulative_wait = 300, budget_planner_calls = 0, cooldown = 0\<rparr>) \<le> 1"
  by (rule order_trans [OF rm_starts_bounded [OF rm_reach.new]]) (simp add: rm_new_def)

text \<open>C23: An action that completed is never started again: after a successful \<open>ActionSucceeded\<close> for a
  fingerprint, and any further commands, \<open>BeginAction\<close> for it is refused and changes nothing.\<close>

theorem completed_never_restarted:
  assumes "rm_apply (ActionSucceeded fp) m = (Inr u, m1)" and "m2 = rm_run cs m1"
  shows "\<exists>e. rm_apply (BeginAction fp clk) m2 = (Inl e, m2)"
proof -
  have "fp \<in> rm_completed m1"
    using assms(1) by (simp add: action_succeeded_ok(4))
  then have "fp \<in> rm_completed m2"
    using rm_run_completed_mono [of m1 cs] assms(2) by blast
  then show ?thesis by (simp add: begin_action_def)
qed

definition acting_example :: recovery_machine where
  "acting_example = rm_run [Revalidated, Confirm ''fp'',
     BeginAction ''fp'' \<lparr>monotonic_seconds = 5, wall_seconds = 0\<rparr>]
     (rm_new \<lparr>max_attempts = 3, max_cumulative_wait = 300, budget_planner_calls = 0, cooldown = 0\<rparr>)"

theorem completed_never_restarted_witness:
  "\<exists>e. rm_apply (BeginAction ''fp'' \<lparr>monotonic_seconds = 900, wall_seconds = 0\<rparr>)
        (rm_run [RearmAfterWait, Confirm ''fp''] (snd (rm_apply (ActionSucceeded ''fp'') acting_example))) =
      (Inl e, rm_run [RearmAfterWait, Confirm ''fp''] (snd (rm_apply (ActionSucceeded ''fp'') acting_example)))"
proof (rule completed_never_restarted [OF _ refl])
  show "rm_apply (ActionSucceeded ''fp'') acting_example =
      (Inr (), snd (rm_apply (ActionSucceeded ''fp'') acting_example))"
    by (simp add: acting_example_def rm_op_defs rm_transition_def rm_new_def)
qed

text \<open>An action starts only from a confirmed observation of the same fingerprint, within the attempt
  budget and at least the cooldown after the previous start on the monotonic clock; it then records
  the start. Every refusal leaves the machine unchanged.\<close>

theorem begin_action_guarded:
  "case rm_apply (BeginAction fp clk) m of
     (Inr _, m') \<Rightarrow>
       rm_state m = Confirmed \<and> rm_state m' = Acting \<and> rm_current m = Some fp \<and>
       fp \<notin> rm_completed m \<and> rm_attempts m < max_attempts (rm_budget m) \<and>
       unat (rm_attempts m') = unat (rm_attempts m) + 1 \<and>
       rm_last_attempt_mono m' = Some (monotonic_seconds clk) \<and>
       (case rm_last_attempt_mono m of None \<Rightarrow> True
        | Some prev \<Rightarrow> unat (dur_as_secs (cooldown (rm_budget m)))
                        \<le> unat (monotonic_seconds clk) - unat prev)
   | (Inl _, m') \<Rightarrow> m' = m"
proof (cases "begin_action fp clk m")
  case (Pair r m')
  show ?thesis
  proof (cases r)
    case (Inl e)
    with Pair show ?thesis by (auto dest: begin_action_err)
  next
    case (Inr u)
    with Pair have ok: "begin_action fp clk m = (Inr u, m')" by simp
    note f = begin_action_ok [OF ok]
    have "unat (dur_as_secs (cooldown (rm_budget m))) \<le> unat (monotonic_seconds clk) - unat prev"
      if "rm_last_attempt_mono m = Some prev" for prev
      using f(15) [OF that] by (simp add: word_le_nat_alt)
    with Pair Inr f(1-7) show ?thesis
      by (simp add: unat_inc_below split: option.split)
  qed
qed

text \<open>A refused command leaves the machine unchanged, with one exception: \<open>ActionFailed\<close> for the
  current fingerprint outside the \<open>Acting\<close> state has charged the wait to the budget before the
  transition is refused. (The registry applies commands to a copy and drops it on an error.)\<close>

theorem rm_apply_error_frame:
  "case rm_apply c m of
     (Inr _, _) \<Rightarrow> True
   | (Inl e, m') \<Rightarrow> m' = m \<or>
       (\<exists>fp wait clk. c = ActionFailed fp wait clk \<and> rm_state m \<noteq> Acting \<and>
          e = Failed ''invalid recovery transition'' \<and>
          m' = m\<lparr>rm_cumulative_wait := rm_cumulative_wait m + wait\<rparr>)"
  using rm_apply_err [of c m] by (auto split: prod.split sum.split)

text \<open>A failed action never makes the machine panic unless the wait budget is the greatest duration:
  for every smaller budget the saturating guard refuses the wait before the addition can overflow.\<close>

theorem action_failed_no_panic:
  assumes "max_cumulative_wait (rm_budget m) < DURATION_MAX"
  shows "fst (rm_apply (ActionFailed fp wait clk) m) \<noteq> Inl (Panic p)"
  using assms
  by (auto simp: action_failed_def rm_transition_def dur_sat_add_def dur_checked_add_def rm_then_eq
      split: if_splits)

theorem action_failed_no_panic_witness:
  "fst (rm_apply (ActionFailed ''fp'' DURATION_MAX \<lparr>monotonic_seconds = 5, wall_seconds = 0\<rparr>) acting_example)
     \<noteq> Inl (Panic ''overflow when adding durations'')"
  by (rule action_failed_no_panic)
    (simp add: acting_example_def rm_new_def DURATION_MAX_def NANOS_PER_SEC_def rm_op_defs
      rm_transition_def)

end
