(* ===== verification/Watcher_State.thy ===== *)
theory Watcher_State
  imports Model_Event Model_Identity Recovery_Machine
begin

text \<open>
  The durable state of one watcher (\<open>src/src/model/state.rs\<close>): its target, lifecycle, revision,
  recovery machine, observation schedule, last event and session references, with the setters that
  admit a session reference and the version check of the reader.
\<close>

section \<open>Data\<close>

record observation_schedule =
  next_due_wall_ms :: u64
  last_check_wall_ms :: "u64 option"
  event_wake_pending :: bool
  interval_sequence :: u64
  last_wake_fingerprint :: "string option"
  last_wake_completed_wall_ms :: "u64 option"
  herdr_after_sequence :: u64
  screen_fingerprint :: "string option"
  screen_stable_count :: u8

definition observation_schedule_default :: observation_schedule where
  "observation_schedule_default =
     \<lparr>next_due_wall_ms = 0, last_check_wall_ms = None, event_wake_pending = False,
      interval_sequence = 0, last_wake_fingerprint = None, last_wake_completed_wall_ms = None,
      herdr_after_sequence = 0, screen_fingerprint = None, screen_stable_count = 0\<rparr>"

definition observation_schedule_is_default :: "observation_schedule \<Rightarrow> bool" where
  "observation_schedule_is_default s = (s = observation_schedule_default)"

record transcript_binding =
  tb_canonical_path :: string
  tb_device :: u64
  tb_inode :: u64

record claude_session_reference =
  cl_session_id :: string
  cl_transcript_path :: string
  cl_marker_path :: string
  cl_process_start_time :: u64
  cl_process_cwd :: string
  cl_target_session :: "string option"
  cl_transcript_binding :: "transcript_binding option"

record codex_bound_file =
  cbf_canonical_path :: string
  cbf_device :: u64
  cbf_inode :: u64
  cbf_owner_uid :: u32

record codex_structured_state_reference =
  css_rollout :: codex_bound_file
  css_thread_db :: codex_bound_file
  css_goals_db :: codex_bound_file

record codex_rollout_binding =
  crb_device :: u64
  crb_inode :: u64
  crb_size :: u64
  crb_mtime_secs :: int

record codex_session_reference =
  cx_thread_id :: string
  cx_rollout_path :: string
  cx_process_start_time :: u64
  cx_process_cwd :: string
  cx_target_session :: "string option"
  cx_rollout_binding :: "codex_rollout_binding option"
  cx_app_server_state_path :: "string option"
  cx_structured_state :: "codex_structured_state_reference option"

datatype watcher_lifecycle =
    Registered
  | Observing
  | Paused
  | Recovering (lc_evidence_fingerprint: string)
  | Waiting (until_unix_ms: u64) (lc_reason: string)
  | HumanRequired (lc_reason: string)
  | TargetTerminated
  | Stopped (lc_reason: string)

record watcher_state =
  ws_schema_version :: u16
  watcher_id :: string
  ws_target :: target_identity
  ws_lifecycle :: watcher_lifecycle
  ws_revision :: u64
  updated_at_unix_ms :: u64
  ws_recovery :: "recovery_machine option"
  ws_observation_schedule :: observation_schedule
  ws_last_observation :: "event option"
  ws_claude_session :: "claude_session_reference option"
  ws_codex_session :: "codex_session_reference option"

definition WATCHER_STATE_SCHEMA_VERSION :: u16 where
  "WATCHER_STATE_SCHEMA_VERSION = 1"

section \<open>Operations\<close>

definition watcher_state_new ::
  "string \<Rightarrow> target_identity \<Rightarrow> watcher_lifecycle \<Rightarrow> u64 \<Rightarrow> u64 \<Rightarrow> watcher_state" where
  "watcher_state_new wid target lc revision now =
     \<lparr>ws_schema_version = WATCHER_STATE_SCHEMA_VERSION, watcher_id = wid, ws_target = target,
      ws_lifecycle = lc, ws_revision = revision, updated_at_unix_ms = now, ws_recovery = None,
      ws_observation_schedule = observation_schedule_default, ws_last_observation = None,
      ws_claude_session = None, ws_codex_session = None\<rparr>"

text \<open>\<open>Path::is_absolute\<close> on Unix: the path starts with a slash.\<close>

definition is_absolute :: "string \<Rightarrow> bool" where
  "is_absolute p = starts_with p ''/''"

definition set_claude_session ::
  "claude_session_reference \<Rightarrow> watcher_state \<Rightarrow> (string, watcher_state) result" where
  "set_claude_session r w =
     (if cl_session_id r = [] \<or> 256 < length (cl_session_id r)
         \<or> \<not> is_absolute (cl_transcript_path r) \<or> \<not> is_absolute (cl_marker_path r)
         \<or> \<not> is_absolute (cl_process_cwd r)
         \<or> (case cl_target_session r of None \<Rightarrow> False
            | Some session \<Rightarrow> session = [] \<or> 256 < length session)
      then Inl ''invalid trusted Claude session reference''
      else Inr (w\<lparr>ws_claude_session := Some r\<rparr>))"

definition set_codex_session ::
  "codex_session_reference \<Rightarrow> watcher_state \<Rightarrow> (string, watcher_state) result" where
  "set_codex_session r w =
     (if cx_thread_id r = [] \<or> 256 < length (cx_thread_id r)
         \<or> \<not> is_absolute (cx_rollout_path r) \<or> \<not> is_absolute (cx_process_cwd r)
         \<or> (case cx_target_session r of None \<Rightarrow> False
            | Some session \<Rightarrow> session = [] \<or> 256 < length session)
         \<or> (case cx_app_server_state_path r of None \<Rightarrow> False | Some path \<Rightarrow> \<not> is_absolute path)
      then Inl ''invalid trusted Codex session reference''
      else Inr (w\<lparr>ws_codex_session := Some r\<rparr>))"

text \<open>The reader: the wire structure has the fields of the state; only version 1 is accepted.\<close>

definition watcher_state_from_wire :: "watcher_state \<Rightarrow> (string, watcher_state) result" where
  "watcher_state_from_wire wire =
     (if ws_schema_version wire \<noteq> WATCHER_STATE_SCHEMA_VERSION
      then Inl ''unsupported watcher state schema version''
      else Inr ((watcher_state_new (watcher_id wire) (ws_target wire) (ws_lifecycle wire)
                  (ws_revision wire) (updated_at_unix_ms wire))
                \<lparr>ws_recovery := ws_recovery wire,
                 ws_observation_schedule := ws_observation_schedule wire,
                 ws_last_observation := ws_last_observation wire,
                 ws_claude_session := ws_claude_session wire,
                 ws_codex_session := ws_codex_session wire\<rparr>))"

section \<open>Properties\<close>

text \<open>Reading a persisted watcher rebuilds it field by field and loses nothing: the reader returns
  exactly the state that was written, or refuses an image of another schema version.\<close>

theorem watcher_state_roundtrip:
  "watcher_state_from_wire w =
     (if ws_schema_version w = 1 then Inr w
      else Inl ''unsupported watcher state schema version'')"
  by (cases w) (simp add: watcher_state_from_wire_def watcher_state_new_def
      WATCHER_STATE_SCHEMA_VERSION_def)

end
