(* ===== verification/Model_Action.thy ===== *)
theory Model_Action
  imports Model_Event
begin

text \<open>
  Actions (\<open>src/src/model/action.rs\<close>): the closed set of things a recovery may do, their conditions,
  the constructors, and \<open>Action::validate\<close> with every bound it checks.
\<close>

section \<open>Data\<close>

record condition =
  cond_kind :: string
  cond_value :: "json option"

record status_check =
  check_kind :: string
  check_value :: "string option"

datatype action_kind =
    WaitUntil (wait_at: string)
  | WaitDuration (duration_seconds: u64)
  | Capture (capture_source: string) (max_lines: u16)
  | CheckStatus (status_check: status_check)
  | SendText (send_text: string)
  | SubmitText (submit_text: string)
  | SendKeys (send_keys: "string list")
  | Notify (severity: string) (notify_message: string)
  | Escalate (escalate_level: string)
  | StopWatching
  | Noop

record action =
  act_kind :: action_kind
  action_id :: string
  act_reason :: string
  preconditions :: "condition list"
  expected_outcomes :: "condition list"
  timeout_seconds :: u64

text \<open>\<open>condition.value.as_ref().and_then(Value::as_str)\<close>\<close>

definition cond_text :: "condition \<Rightarrow> string option" where
  "cond_text c = Option.bind (cond_value c) json_as_str"

section \<open>Constructors\<close>

definition action_new :: "string \<Rightarrow> action_kind \<Rightarrow> string \<Rightarrow> string \<Rightarrow> u64 \<Rightarrow> action" where
  "action_new aid kind reason fp timeout =
     \<lparr>act_kind = kind, action_id = aid, act_reason = reason,
      preconditions = [\<lparr>cond_kind = ''EVIDENCE_FINGERPRINT_MATCHES'', cond_value = Some (JString fp)\<rparr>],
      expected_outcomes = [\<lparr>cond_kind = ''NO_STATE_CHANGE_EXPECTED'', cond_value = None\<rparr>],
      timeout_seconds = timeout\<rparr>"

definition action_send_text :: "string \<Rightarrow> string \<Rightarrow> string \<Rightarrow> string \<Rightarrow> action" where
  "action_send_text aid text reason fp =
     (let a = action_new aid (SendText text) reason fp 30
      in a\<lparr>preconditions := preconditions a @
             [\<lparr>cond_kind = ''TARGET_IDENTITY_MATCHES'', cond_value = None\<rparr>]\<rparr>)"

definition action_submit_text :: "string \<Rightarrow> string \<Rightarrow> string \<Rightarrow> string \<Rightarrow> action" where
  "action_submit_text aid text reason fp =
     (let a = action_new aid (SubmitText text) reason fp 30
      in a\<lparr>preconditions := preconditions a @
             [\<lparr>cond_kind = ''TARGET_IDENTITY_MATCHES'', cond_value = None\<rparr>,
              \<lparr>cond_kind = ''COMPOSER_EMPTY'', cond_value = None\<rparr>]\<rparr>)"

section \<open>Validation\<close>

definition valid_id :: "string \<Rightarrow> bool" where
  "valid_id v = (v \<noteq> [] \<and> length v \<le> 96 \<and> list_all (\<lambda>(i, b). id_byte_ok i b) (enumerate 0 v))"

fun scalar_json_ok :: "json \<Rightarrow> bool" where
  "scalar_json_ok (JString text) = (length text \<le> 256)"
| "scalar_json_ok (JArray _) = False"
| "scalar_json_ok (JObject _) = False"
| "scalar_json_ok _ = True"

definition scalar_value :: "condition \<Rightarrow> bool" where
  "scalar_value c = (case cond_value c of None \<Rightarrow> True | Some v \<Rightarrow> scalar_json_ok v)"

definition PRECONDITION_KINDS :: "string list" where
  "PRECONDITION_KINDS =
     [''TARGET_IDENTITY_MATCHES'', ''PROCESS_ALIVE'', ''SESSION_ID_MATCHES'',
      ''EVIDENCE_FINGERPRINT_MATCHES'', ''COMPOSER_EMPTY'', ''MENU_STABLE'', ''AGENT_STATE_IS'',
      ''GOAL_STATE_IS'', ''EVENT_CATEGORY_IS'', ''NO_HUMAN_INTERVENTION'',
      ''CLAUDE_RESUME_SESSION'', ''CURRENT_TIME_AT_OR_AFTER'']"

definition valid_precondition :: "condition \<Rightarrow> bool" where
  "valid_precondition c = (scalar_value c \<and> cond_kind c \<in> set PRECONDITION_KINDS)"

definition OUTCOME_KINDS :: "string list" where
  "OUTCOME_KINDS =
     [''AGENT_WORKING'', ''AGENT_IDLE'', ''BLOCK_CLEARED'', ''GOAL_ACTIVE_OR_PURSUING'',
      ''MENU_DISMISSED'', ''WAIT_STATE_RECORDED'', ''AGENT_STATE_IS'', ''PROCESS_TERMINATED'',
      ''CLAUDE_PROGRESS'', ''HUMAN_NOTIFIED'', ''NO_STATE_CHANGE_EXPECTED'']"

definition valid_outcome :: "condition \<Rightarrow> bool" where
  "valid_outcome c = (scalar_value c \<and> cond_kind c \<in> set OUTCOME_KINDS)"

definition valid_datetime :: "rfc3339 \<Rightarrow> string \<Rightarrow> bool" where
  "valid_datetime parse v = (parse v \<noteq> None)"

definition VALID_KEYS :: "string list" where
  "VALID_KEYS =
     [''ENTER'', ''ESCAPE'', ''UP'', ''DOWN'', ''LEFT'', ''RIGHT'', ''TAB'', ''BACKTAB'',
      ''CTRL_C'', ''CTRL_D'', ''CTRL_L'', ''HOME'', ''END'', ''PAGE_UP'', ''PAGE_DOWN'']"

definition valid_key :: "string \<Rightarrow> bool" where
  "valid_key k = (k \<in> set VALID_KEYS)"

definition CHECK_KINDS :: "string list" where
  "CHECK_KINDS =
     [''PROCESS_ALIVE'', ''TARGET_IDENTITY'', ''AGENT_STATE'', ''GOAL_STATE'', ''EVENT_CLEARED'',
      ''COMPOSER_EMPTY'', ''SCREEN_CONTAINS_LITERAL'', ''SCREEN_NOT_CONTAINS_LITERAL'']"

definition valid_check :: "status_check \<Rightarrow> bool" where
  "valid_check c =
     (check_kind c \<in> set CHECK_KINDS \<and>
      (case check_value c of None \<Rightarrow> True | Some v \<Rightarrow> length v \<le> 256))"

definition CAPTURE_SOURCES :: "string list" where
  "CAPTURE_SOURCES = [''screen_detection'', ''screen_recent'', ''structured_state'', ''log_tail'']"

definition ESCALATION_LEVELS :: "string list" where
  "ESCALATION_LEVELS = [''alternate_planner'', ''independent_second_opinion'', ''human_required'']"

fun valid_variant :: "rfc3339 \<Rightarrow> condition list \<Rightarrow> action_kind \<Rightarrow> bool" where
  "valid_variant parse pre (WaitUntil t) = valid_datetime parse t"
| "valid_variant parse pre (WaitDuration d) = (1 \<le> d \<and> d \<le> 86400)"
| "valid_variant parse pre (Capture src n) = (src \<in> set CAPTURE_SOURCES \<and> 1 \<le> n \<and> n \<le> 300)"
| "valid_variant parse pre (CheckStatus c) = valid_check c"
| "valid_variant parse pre (SendText text) = (pre \<noteq> [] \<and> text \<noteq> [] \<and> length text \<le> 512)"
| "valid_variant parse pre (SubmitText text) = (pre \<noteq> [] \<and> text \<noteq> [] \<and> length text \<le> 512)"
| "valid_variant parse pre (SendKeys keys) =
     (pre \<noteq> [] \<and> keys \<noteq> [] \<and> length keys \<le> 16 \<and> list_all valid_key keys)"
| "valid_variant parse pre (Notify sev msg) =
     (sev \<in> set [''info'', ''warning'', ''error'', ''critical''] \<and> msg \<noteq> [] \<and> length msg \<le> 500)"
| "valid_variant parse pre (Escalate level) = (level \<in> set ESCALATION_LEVELS)"
| "valid_variant parse pre StopWatching = True"
| "valid_variant parse pre Noop = True"

definition action_validate :: "rfc3339 \<Rightarrow> action \<Rightarrow> (string, unit) result" where
  "action_validate parse a =
     (if \<not> valid_id (action_id a) \<or> 96 < length (action_id a) \<or> act_reason a = []
         \<or> 500 < length (act_reason a) \<or> timeout_seconds a = 0 \<or> 86400 < timeout_seconds a
      then Inl ''invalid common action fields''
      else if 12 < length (preconditions a) \<or> expected_outcomes a = []
         \<or> 6 < length (expected_outcomes a)
      then Inl ''invalid action conditions''
      else if \<not> list_all valid_precondition (preconditions a)
         \<or> \<not> list_all valid_outcome (expected_outcomes a)
      then Inl ''invalid condition kind or value''
      else if valid_variant parse (preconditions a) (act_kind a) then Inr ()
      else Inl ''invalid action variant fields'')"

section \<open>What a valid action promises\<close>

lemma valid_id_iff [simp]: "valid_id v \<longleftrightarrow> well_formed_id v"
  using validate_id_iff [of v "()"] by (auto simp: valid_id_def validate_id_def split: if_splits)

definition action_valid :: "rfc3339 \<Rightarrow> action \<Rightarrow> bool" where
  "action_valid parse a \<longleftrightarrow>
     well_formed_id (action_id a) \<and>
     act_reason a \<noteq> [] \<and> length (act_reason a) \<le> 500 \<and>
     0 < timeout_seconds a \<and> timeout_seconds a \<le> 86400 \<and>
     length (preconditions a) \<le> 12 \<and>
     expected_outcomes a \<noteq> [] \<and> length (expected_outcomes a) \<le> 6 \<and>
     (\<forall>c \<in> set (preconditions a). valid_precondition c) \<and>
     (\<forall>c \<in> set (expected_outcomes a). valid_outcome c) \<and>
     valid_variant parse (preconditions a) (act_kind a)"

lemma action_validate_iff [result_simps]: "action_validate parse a = Inr u \<longleftrightarrow> action_valid parse a"
  by (auto simp: action_validate_def action_valid_def list_all_iff not_less word_gt_0
      well_formed_id_def)

lemma action_new_fields [simp]:
  "act_kind (action_new aid kind reason fp t) = kind"
  "action_id (action_new aid kind reason fp t) = aid"
  "act_reason (action_new aid kind reason fp t) = reason"
  "timeout_seconds (action_new aid kind reason fp t) = t"
  by (simp_all add: action_new_def)

lemma action_new_conditions_valid:
  "length fp \<le> 256 \<Longrightarrow> c \<in> set (preconditions (action_new aid kind reason fp t)) \<Longrightarrow>
     valid_precondition c"
  "c \<in> set (expected_outcomes (action_new aid kind reason fp t)) \<Longrightarrow> valid_outcome c"
  by (auto simp: action_new_def valid_precondition_def valid_outcome_def scalar_value_def
      PRECONDITION_KINDS_def OUTCOME_KINDS_def)

text \<open>The text constructors build valid actions from any bounded text: \<open>Action::send_text\<close> and
  \<open>Action::submit_text\<close> with a well-formed id, a bounded reason, a fingerprint of at most 256 bytes and
  a text of 1 to 512 bytes pass \<open>validate\<close>, whatever the date parser does.\<close>

theorem text_actions_valid:
  assumes "well_formed_id aid" "reason \<noteq> []" "length reason \<le> 500" "length fp \<le> 256"
    and "text \<noteq> []" "length text \<le> 512"
  shows "action_validate parse (action_send_text aid text reason fp) = Inr () \<and>
    action_validate parse (action_submit_text aid text reason fp) = Inr ()"
  using assms
  by (auto simp: result_simps action_valid_def action_send_text_def action_submit_text_def Let_def
      action_new_def valid_precondition_def valid_outcome_def scalar_value_def
      PRECONDITION_KINDS_def OUTCOME_KINDS_def)

theorem text_actions_valid_witness:
  "action_validate (\<lambda>_. None) (action_send_text ''a'' ''continue'' ''why'' ''fedcba9876543210'') = Inr ()"
proof -
  have "well_formed_id ''a''"
    by (simp add: well_formed_id_def is_ascii_alphanumeric_def is_ascii_digit_def
        is_ascii_upper_def is_ascii_lower_def)
  then show ?thesis
    using text_actions_valid [of "''a''" "''why''" "''fedcba9876543210''" "''continue''" "\<lambda>_. None"]
    by simp
qed

end
