(* ===== verification/Policy.thy ===== *)
theory Policy
  imports Model_Action
begin

text \<open>
  The compiled policy (\<open>src/src/policy.rs\<close>): the context it judges, \<open>CompiledPolicy::authorize\<close> with
  every guard in source order, the preconditions it evaluates, and the allowlist of texts a recovery
  may type. The theorems say what an authorised action can be, whoever proposed it.
\<close>

section \<open>The context\<close>

record policy_context =
  target_revalidated :: bool
  evidence_current :: bool
  human_intervened :: bool
  pc_source_rank :: u8
  contradictory_source_rank :: "u8 option"
  process_alive :: bool
  pane_matches :: bool
  composer_empty :: bool
  failed_provider_family :: "string option"
  planner_provider_family :: "string option"
  attempts_remaining :: u32
  cumulative_wait_remaining_seconds :: u64
  planner_calls_remaining :: u32
  planner_concurrency_available :: bool
  cooldown_ready :: bool
  pc_session_id :: "string option"
  pc_evidence_fingerprint :: "string option"
  menu_stable :: bool
  agent_state :: "string option"
  goal_state :: "string option"
  event_category :: "string option"
  wall_time_rfc3339 :: "string option"
  claude_resume_session :: "string option"

definition policy_context_safe :: policy_context where
  "policy_context_safe =
     \<lparr>target_revalidated = True, evidence_current = True, human_intervened = False,
      pc_source_rank = 255, contradictory_source_rank = None, process_alive = True,
      pane_matches = True, composer_empty = True, failed_provider_family = None,
      planner_provider_family = None, attempts_remaining = 1,
      cumulative_wait_remaining_seconds = 86400, planner_calls_remaining = 1,
      planner_concurrency_available = True, cooldown_ready = True, pc_session_id = None,
      pc_evidence_fingerprint = None, menu_stable = True, agent_state = None, goal_state = None,
      event_category = None, wall_time_rfc3339 = None, claude_resume_session = None\<rparr>"

section \<open>Guards\<close>

text \<open>
  \<open>TimeDelta::num_seconds\<close> truncates towards zero, and \<open>u64::try_from\<close> refuses a negative number.
\<close>

definition num_seconds :: "int \<Rightarrow> int" where
  "num_seconds d = (if d < 0 then - ((- d) div 1000000000) else d div 1000000000)"

definition wait_until_seconds :: "rfc3339 \<Rightarrow> string \<Rightarrow> string option \<Rightarrow> nat option" where
  "wait_until_seconds parse due now =
     Option.bind (parse due) (\<lambda>t. Option.bind now (\<lambda>n. Option.bind (parse n) (\<lambda>t0.
       let s = num_seconds (t - t0) in if s < 0 then None else Some (nat s))))"

definition current_time_at_or_after :: "rfc3339 \<Rightarrow> string option \<Rightarrow> string option \<Rightarrow> bool" where
  "current_time_at_or_after parse required current =
     (case (required, current) of
        (Some r, Some c) \<Rightarrow>
          (case (parse r, parse c) of (Some tr, Some tc) \<Rightarrow> tr \<le> tc | _ \<Rightarrow> False)
      | _ \<Rightarrow> False)"

definition precondition_holds :: "rfc3339 \<Rightarrow> condition \<Rightarrow> policy_context \<Rightarrow> bool" where
  "precondition_holds parse c ctx =
     (let k = cond_kind c; text = cond_text c in
      if k = ''TARGET_IDENTITY_MATCHES'' then target_revalidated ctx \<and> pane_matches ctx
      else if k = ''PROCESS_ALIVE'' then process_alive ctx
      else if k = ''SESSION_ID_MATCHES'' then text = pc_session_id ctx
      else if k = ''EVIDENCE_FINGERPRINT_MATCHES'' then text = pc_evidence_fingerprint ctx
      else if k = ''COMPOSER_EMPTY'' then composer_empty ctx
      else if k = ''MENU_STABLE'' then menu_stable ctx
      else if k = ''AGENT_STATE_IS'' then text = agent_state ctx
      else if k = ''GOAL_STATE_IS'' then text = goal_state ctx
      else if k = ''EVENT_CATEGORY_IS'' then text = event_category ctx
      else if k = ''NO_HUMAN_INTERVENTION'' then \<not> human_intervened ctx
      else if k = ''CLAUDE_RESUME_SESSION'' then text = claude_resume_session ctx
      else if k = ''CURRENT_TIME_AT_OR_AFTER''
        then current_time_at_or_after parse text (wall_time_rfc3339 ctx)
      else False)"

definition DENIED_WORDS :: "string list" where
  "DENIED_WORDS =
     [''login'', ''sign in'', ''billing'', ''fund'', ''credit'', ''upgrade'', ''approve'',
      ''permission'', ''yolo'', ''sudo'', ''rm -rf'', ''password'', ''token'', ''secret'']"

definition SAFE_TEXTS :: "string list" where
  "SAFE_TEXTS =
     [''/goal resume'', ''continue'', ''retry'', ''Continue exactly where you left off.'']"

definition safe_text :: "string \<Rightarrow> bool" where
  "safe_text text =
     (let lower = to_ascii_lowercase text in
      \<not> list_ex is_control (str_chars text)
      \<and> \<not> list_ex (str_contains lower) DENIED_WORDS
      \<and> text \<in> set SAFE_TEXTS)"

definition is_safe_send_text :: "string \<Rightarrow> bool" where
  "is_safe_send_text text = safe_text text"

definition POLICY_KEYS :: "string list" where
  "POLICY_KEYS =
     [''ENTER'', ''ESCAPE'', ''UP'', ''DOWN'', ''LEFT'', ''RIGHT'', ''TAB'', ''BACKTAB'', ''HOME'',
      ''END'', ''PAGE_UP'', ''PAGE_DOWN'']"

text \<open>The final match on the kind of action.\<close>

fun kind_permitted :: "policy_context \<Rightarrow> action_kind \<Rightarrow> bool" where
  "kind_permitted ctx (WaitUntil _) = True"
| "kind_permitted ctx (WaitDuration d) = (d \<le> 86400)"
| "kind_permitted ctx (Capture _ n) = (n \<le> 300)"
| "kind_permitted ctx (CheckStatus _) = True"
| "kind_permitted ctx (Notify _ _) = True"
| "kind_permitted ctx StopWatching = True"
| "kind_permitted ctx Noop = True"
| "kind_permitted ctx (Escalate level) =
     (level = ''human_required'' \<or> level = ''alternate_planner''
      \<or> level = ''independent_second_opinion'')"
| "kind_permitted ctx (SendKeys keys) =
     (composer_empty ctx \<and> list_all (\<lambda>k. k \<in> set POLICY_KEYS) keys)"
| "kind_permitted ctx (SendText text) = (composer_empty ctx \<and> safe_text text)"
| "kind_permitted ctx (SubmitText text) = (composer_empty ctx \<and> safe_text text)"

fun escalates_to_planner :: "action_kind \<Rightarrow> bool" where
  "escalates_to_planner (Escalate level) = (level \<noteq> ''human_required'')"
| "escalates_to_planner _ = False"

fun escalates_second_opinion :: "action_kind \<Rightarrow> bool" where
  "escalates_second_opinion (Escalate level) = (level = ''independent_second_opinion'')"
| "escalates_second_opinion _ = False"

fun wait_duration_exceeds :: "action_kind \<Rightarrow> u64 \<Rightarrow> bool" where
  "wait_duration_exceeds (WaitDuration d) remaining = (remaining < d)"
| "wait_duration_exceeds _ remaining = False"

fun wait_until_denied :: "rfc3339 \<Rightarrow> action_kind \<Rightarrow> policy_context \<Rightarrow> string option" where
  "wait_until_denied parse (WaitUntil t) ctx =
     (case wait_until_seconds parse t (wall_time_rfc3339 ctx) of
        None \<Rightarrow> Some ''valid wall time required''
      | Some s \<Rightarrow> if unat (cumulative_wait_remaining_seconds ctx) < s
                  then Some ''cumulative wait budget denied'' else None)"
| "wait_until_denied parse _ ctx = None"

definition authorize :: "rfc3339 \<Rightarrow> action \<Rightarrow> policy_context \<Rightarrow> (string, unit) result" where
  "authorize parse a ctx =
     rbind (action_validate parse a) (\<lambda>_.
     if \<not> target_revalidated ctx \<or> \<not> evidence_current ctx \<or> human_intervened ctx
        \<or> \<not> process_alive ctx \<or> \<not> pane_matches ctx
     then Inl ''revalidation required''
     else if escalates_to_planner (act_kind a)
        \<and> (failed_provider_family ctx = None \<or> planner_provider_family ctx = None
           \<or> failed_provider_family ctx = planner_provider_family ctx)
     then Inl ''same-provider planner denied''
     else if attempts_remaining ctx = 0 \<or> \<not> cooldown_ready ctx
     then Inl ''attempt or cooldown budget denied''
     else if wait_duration_exceeds (act_kind a) (cumulative_wait_remaining_seconds ctx)
     then Inl ''cumulative wait budget denied''
     else case wait_until_denied parse (act_kind a) ctx of Some reason \<Rightarrow> Inl reason | None \<Rightarrow>
     if escalates_to_planner (act_kind a) \<and> planner_calls_remaining ctx = 0
     then Inl ''planner budget denied''
     else if escalates_second_opinion (act_kind a)
        \<and> (planner_calls_remaining ctx < 2 \<or> \<not> planner_concurrency_available ctx
           \<or> \<not> composer_empty ctx)
     then Inl ''independent second opinion budget denied''
     else if \<not> list_all (\<lambda>c. precondition_holds parse c ctx) (preconditions a)
     then Inl ''declared precondition failed''
     else if (case contradictory_source_rank ctx of None \<Rightarrow> False | Some r \<Rightarrow> pc_source_rank ctx < r)
     then Inl ''higher-ranked contradiction''
     else if kind_permitted ctx (act_kind a) then Inr ()
     else Inl ''action denied by compiled policy'')"

section \<open>The allowlist of texts\<close>

lemma safe_texts_pass: "list_all safe_text SAFE_TEXTS"
  by code_simp

text \<open>The text filter is exactly a four-literal allowlist: the scan for control characters and the
  deny list of words, run first on every text, reject none of the four and so decide nothing.\<close>

theorem safe_text_iff: "safe_text text \<longleftrightarrow> text \<in> set SAFE_TEXTS"
  using safe_texts_pass by (auto simp: list_all_iff safe_text_def Let_def)

section \<open>What authorisation means\<close>

text \<open>
  The policy as a predicate: the conjunction of what must hold, with no order of evaluation. An
  action that passes \<open>authorize\<close> satisfies it, and one that satisfies it passes.
\<close>

definition live_target :: "policy_context \<Rightarrow> bool" where
  "live_target ctx \<longleftrightarrow> target_revalidated ctx \<and> evidence_current ctx \<and> \<not> human_intervened ctx \<and>
     process_alive ctx \<and> pane_matches ctx"

definition planner_independent :: "policy_context \<Rightarrow> bool" where
  "planner_independent ctx \<longleftrightarrow>
     (\<exists>f p. failed_provider_family ctx = Some f \<and> planner_provider_family ctx = Some p \<and> f \<noteq> p)"

definition wait_within_budget :: "rfc3339 \<Rightarrow> action_kind \<Rightarrow> policy_context \<Rightarrow> bool" where
  "wait_within_budget parse k ctx \<longleftrightarrow>
     (\<forall>d. k = WaitDuration d \<longrightarrow> d \<le> cumulative_wait_remaining_seconds ctx) \<and>
     (\<forall>t. k = WaitUntil t \<longrightarrow>
        (\<exists>s. wait_until_seconds parse t (wall_time_rfc3339 ctx) = Some s \<and>
             s \<le> unat (cumulative_wait_remaining_seconds ctx)))"

definition policy_permits :: "rfc3339 \<Rightarrow> action \<Rightarrow> policy_context \<Rightarrow> bool" where
  "policy_permits parse a ctx \<longleftrightarrow>
     action_valid parse a \<and> live_target ctx \<and>
     0 < attempts_remaining ctx \<and> cooldown_ready ctx \<and>
     (escalates_to_planner (act_kind a) \<longrightarrow>
        planner_independent ctx \<and> 0 < planner_calls_remaining ctx) \<and>
     (escalates_second_opinion (act_kind a) \<longrightarrow>
        2 \<le> planner_calls_remaining ctx \<and> planner_concurrency_available ctx \<and> composer_empty ctx) \<and>
     wait_within_budget parse (act_kind a) ctx \<and>
     (\<forall>c \<in> set (preconditions a). precondition_holds parse c ctx) \<and>
     (\<forall>r. contradictory_source_rank ctx = Some r \<longrightarrow> r \<le> pc_source_rank ctx) \<and>
     kind_permitted ctx (act_kind a)"

lemma wait_within_budget_iff:
  "wait_within_budget parse k ctx \<longleftrightarrow>
     \<not> wait_duration_exceeds k (cumulative_wait_remaining_seconds ctx) \<and>
     wait_until_denied parse k ctx = None"
  by (cases k) (auto simp: wait_within_budget_def not_less split: option.split)

lemma not_planner_independent_iff:
  "(failed_provider_family ctx = None \<or> planner_provider_family ctx = None
      \<or> failed_provider_family ctx = planner_provider_family ctx) \<longleftrightarrow> \<not> planner_independent ctx"
  by (cases "failed_provider_family ctx"; cases "planner_provider_family ctx")
    (auto simp: planner_independent_def)

lemma authorize_permits: "authorize parse a ctx = Inr u \<longleftrightarrow> policy_permits parse a ctx"
proof -
  have live: "(\<not> target_revalidated ctx \<or> \<not> evidence_current ctx \<or> human_intervened ctx
      \<or> \<not> process_alive ctx \<or> \<not> pane_matches ctx) \<longleftrightarrow> \<not> live_target ctx"
    by (auto simp: live_target_def)
  have rank: "(case contradictory_source_rank ctx of None \<Rightarrow> False | Some r \<Rightarrow> pc_source_rank ctx < r)
      \<longleftrightarrow> \<not> (\<forall>r. contradictory_source_rank ctx = Some r \<longrightarrow> r \<le> pc_source_rank ctx)"
    by (auto simp: not_le split: option.splits)
  show ?thesis
    unfolding authorize_def live rank not_planner_independent_iff
    by (auto simp: policy_permits_def wait_within_budget_iff result_simps list_all_iff word_gt_0
        not_less split: option.splits)
qed

text \<open>C11: \<open>authorize\<close> decides exactly the declarative policy: it accepts an action if and only if the
  action is valid, the target is live and revalidated, attempts and cooldown allow it, waiting fits
  the remaining wait budget, a planner escalation goes to another provider family within its budget,
  every declared precondition holds, no higher-ranked source contradicts, and the kind is permitted.\<close>

theorem authorize_iff_policy_permits:
  "authorize parse a ctx = Inr () \<longleftrightarrow> policy_permits parse a ctx"
  by (rule authorize_permits)

fun input_allowed :: "action_kind \<Rightarrow> bool" where
  "input_allowed (SendText text) = (text \<in> set SAFE_TEXTS)"
| "input_allowed (SubmitText text) = (text \<in> set SAFE_TEXTS)"
| "input_allowed (SendKeys keys) =
     (set keys \<subseteq> set POLICY_KEYS \<and> set keys \<inter> {''CTRL_C'', ''CTRL_D'', ''CTRL_L''} = {})"
| "input_allowed _ = False"

fun is_input :: "action_kind \<Rightarrow> bool" where
  "is_input (SendText _) = True"
| "is_input (SubmitText _) = True"
| "is_input (SendKeys _) = True"
| "is_input _ = False"

lemma policy_keys_no_interrupt: "set POLICY_KEYS \<inter> {''CTRL_C'', ''CTRL_D'', ''CTRL_L''} = {}"
  by (simp add: POLICY_KEYS_def)

lemma kind_permitted_input:
  "is_input k \<Longrightarrow> kind_permitted ctx k \<Longrightarrow> input_allowed k \<and> composer_empty ctx"
  using policy_keys_no_interrupt
  by (cases k) (auto simp: safe_text_def Let_def list_all_iff)

text \<open>C10: Whatever proposed it, an authorised input action only ever types one of the four allowlisted
  texts, or navigation keys (never an interrupt such as \<open>CTRL_C\<close>), and only into an empty composer of
  a live, revalidated target with no human at the keyboard.\<close>

theorem authorized_input_is_safe:
  assumes "authorize parse a ctx = Inr ()" and "is_input (act_kind a)"
  shows "input_allowed (act_kind a) \<and> composer_empty ctx \<and> live_target ctx"
  using assms kind_permitted_input [of "act_kind a" ctx]
  by (simp add: authorize_permits policy_permits_def)

definition example_policy_context :: policy_context where
  "example_policy_context = policy_context_safe\<lparr>pc_evidence_fingerprint := Some ''fedcba9876543210''\<rparr>"

theorem authorized_input_is_safe_witness:
  "live_target example_policy_context \<and>
   authorize (\<lambda>_. None) (action_submit_text ''a'' ''continue'' ''why'' ''fedcba9876543210'')
     example_policy_context = Inr ()"
proof -
  let ?a = "action_submit_text ''a'' ''continue'' ''why'' ''fedcba9876543210''"
  have ok: "authorize (\<lambda>_. None) ?a example_policy_context = Inr ()"
    by code_simp
  moreover have "is_input (act_kind ?a)"
    by (simp add: action_submit_text_def Let_def)
  ultimately show ?thesis
    using authorized_input_is_safe [OF ok] by simp
qed

lemma precondition_holds_known:
  "precondition_holds parse c ctx \<Longrightarrow> cond_kind c \<in> set PRECONDITION_KINDS"
  by (auto simp: precondition_holds_def PRECONDITION_KINDS_def Let_def split: if_splits)

text \<open>A precondition of a kind the policy does not know never holds, so an action that declares one is
  never authorised.\<close>

theorem unknown_precondition_denied:
  assumes "c \<in> set (preconditions a)" and "cond_kind c \<notin> set PRECONDITION_KINDS"
  shows "\<exists>e. authorize parse a ctx = Inl e"
proof -
  have "\<not> policy_permits parse a ctx"
    using assms precondition_holds_known [of parse c ctx] by (auto simp: policy_permits_def)
  then show ?thesis
    using authorize_permits [of parse a ctx "()"] by (cases "authorize parse a ctx") auto
qed

theorem unknown_precondition_denied_witness:
  "\<exists>e. authorize (\<lambda>_. None)
     (action_new ''a'' Noop ''why'' ''fedcba9876543210'' 30
        \<lparr>preconditions := [\<lparr>cond_kind = ''ALWAYS'', cond_value = None\<rparr>]\<rparr>) policy_context_safe = Inl e"
  by (rule unknown_precondition_denied [where c = "\<lparr>cond_kind = ''ALWAYS'', cond_value = None\<rparr>"])
    (simp_all add: PRECONDITION_KINDS_def)

lemma num_seconds_bounds: "0 \<le> num_seconds d \<Longrightarrow> - 1000000000 < d \<and> d < (num_seconds d + 1) * 1000000000"
  by (simp add: num_seconds_def split: if_splits)

text \<open>An authorised wait never exceeds the remaining wait budget, nor a day: a \<open>WaitDuration\<close> is at most
  both, and a \<open>WaitUntil\<close> names an instant that is not in the past by a whole second or more and at most
  the remaining seconds ahead of the wall clock.\<close>

theorem authorized_wait_bounded:
  assumes "authorize parse a ctx = Inr ()"
  shows "case act_kind a of
     WaitDuration d \<Rightarrow> 1 \<le> d \<and> d \<le> 86400 \<and> d \<le> cumulative_wait_remaining_seconds ctx
   | WaitUntil t \<Rightarrow> (\<exists>due n t0. parse t = Some due \<and> wall_time_rfc3339 ctx = Some n \<and> parse n = Some t0 \<and>
        t0 - 1000000000 < due \<and>
        due < t0 + (int (unat (cumulative_wait_remaining_seconds ctx)) + 1) * 1000000000)
   | _ \<Rightarrow> True"
proof (cases "act_kind a")
  case (WaitUntil t)
  obtain s where s: "wait_until_seconds parse t (wall_time_rfc3339 ctx) = Some s"
      "s \<le> unat (cumulative_wait_remaining_seconds ctx)"
    using assms WaitUntil by (auto simp: authorize_permits policy_permits_def wait_within_budget_def)
  then obtain due n t0 where t: "parse t = Some due" "wall_time_rfc3339 ctx = Some n" "parse n = Some t0"
      "0 \<le> num_seconds (due - t0)" "s = nat (num_seconds (due - t0))"
    by (auto simp: wait_until_seconds_def Let_def bind_eq_Some_conv split: if_splits)
  have "num_seconds (due - t0) \<le> int (unat (cumulative_wait_remaining_seconds ctx))"
    using s(2) t(4,5) by linarith
  then have "(num_seconds (due - t0) + 1) * 1000000000
      \<le> (int (unat (cumulative_wait_remaining_seconds ctx)) + 1) * 1000000000"
    by simp
  then show ?thesis
    using t num_seconds_bounds [OF t(4)] WaitUntil by auto
qed (use assms in \<open>auto simp: authorize_permits policy_permits_def wait_within_budget_def
      action_valid_def\<close>)

definition example_parse :: rfc3339 where
  "example_parse s = (if s = ''now'' then Some 0 else if s = ''later'' then Some 60000000000 else None)"

theorem authorized_wait_bounded_witness:
  "\<exists>due n t0. example_parse ''later'' = Some due \<and> Some ''now'' = Some n \<and> example_parse n = Some t0 \<and>
     t0 - 1000000000 < due \<and> due < t0 + (int (unat (86400 :: u64)) + 1) * 1000000000"
proof -
  let ?a = "action_new ''w'' (WaitUntil ''later'') ''why'' ''fedcba9876543210'' 30"
  let ?ctx = "example_policy_context\<lparr>wall_time_rfc3339 := Some ''now''\<rparr>"
  have "authorize example_parse ?a ?ctx = Inr ()"
    by (simp add: authorize_def action_validate_def well_formed_id_def is_ascii_alphanumeric_def
        is_ascii_digit_def is_ascii_upper_def is_ascii_lower_def action_new_def cond_text_def
        valid_precondition_def valid_outcome_def scalar_value_def PRECONDITION_KINDS_def
        OUTCOME_KINDS_def valid_datetime_def example_parse_def example_policy_context_def
        policy_context_safe_def wait_until_seconds_def num_seconds_def precondition_holds_def)
  from authorized_wait_bounded [OF this] show ?thesis
    by (simp add: example_policy_context_def policy_context_safe_def)
qed

end
