(* ===== verification/Actuator.thy ===== *)
theory Actuator
  imports Policy Model_Identity
begin

text \<open>
  Executing one action (\<open>src/src/recovery/actuator.rs\<close>) over the multiplexer interface
  (\<open>src/src/mux/mod.rs\<close>) or the daemon's runtime services. Both interfaces are traits, so their
  operations are parameters: functions on a world \<open>'w\<close> that return a result and the world after the
  call. What a call did to the pane is in the world, so an error path that sent nothing is one that
  leaves the world of the last harmless call.
\<close>

section \<open>Results\<close>

datatype execution_output =
    Committed | Scheduled duration | Captured string | Status json | Notified | Escalated

datatype execution_error =
    Unsafe string | Integration string | PossibleSideEffect string

fun execution_error_display :: "execution_error \<Rightarrow> string" where
  "execution_error_display (Unsafe e) = ''unsafe action: '' @ e"
| "execution_error_display (Integration e) = ''multiplexer operation failed: '' @ e"
| "execution_error_display (PossibleSideEffect e) =
     ''operation may have committed a side effect: '' @ e"

text \<open>An error that was returned, or a panic.\<close>

datatype 'e or_panic = Raised 'e | Panicked string

section \<open>The multiplexer interface\<close>

record mux_identity =
  mi_provider :: string
  mi_server_instance :: string
  mi_server :: string
  mi_session_id :: string
  mi_window_id :: string
  mi_pane_id :: string
  mi_tty :: string
  mi_process :: process_identity

record mux_capture =
  cap_text :: string
  cap_bytes :: nat
  cap_truncated :: bool
  cap_elapsed :: duration

datatype symbolic_key = Enter | Escape | Up | Down | Left | Right | Tab | Backspace

fun tmux_name :: "symbolic_key \<Rightarrow> string" where
  "tmux_name Enter = ''Enter''"
| "tmux_name Escape = ''Escape''"
| "tmux_name Up = ''Up''"
| "tmux_name Down = ''Down''"
| "tmux_name Left = ''Left''"
| "tmux_name Right = ''Right''"
| "tmux_name Tab = ''Tab''"
| "tmux_name Backspace = ''BSpace''"

datatype mux_error =
    InvalidSelector string | Timeout | Command string | Malformed string | IdentityChanged string
  | InvalidUtf8 | Protocol string | IncompatibleProtocol string | UnsafeSocket string
  | CommandOutcomeUnknown string

fun mux_error_display :: "mux_error \<Rightarrow> string" where
  "mux_error_display (InvalidSelector e) = ''invalid tmux selector: '' @ e"
| "mux_error_display Timeout = ''tmux command timed out''"
| "mux_error_display (Command e) = ''tmux command failed: '' @ e"
| "mux_error_display (Malformed e) = ''malformed tmux metadata: '' @ e"
| "mux_error_display (IdentityChanged e) = ''target identity changed: '' @ e"
| "mux_error_display InvalidUtf8 = ''captured output is not valid UTF-8''"
| "mux_error_display (Protocol e) = ''Herdr protocol error: '' @ e"
| "mux_error_display (IncompatibleProtocol e) = ''incompatible Herdr protocol: '' @ e"
| "mux_error_display (UnsafeSocket e) = ''unsafe Herdr socket: '' @ e"
| "mux_error_display (CommandOutcomeUnknown e) = ''multiplexer command outcome is unknown: '' @ e"

text \<open>The operations the actuator calls; the composer check is the multiplexer's own argument.\<close>

record 'w multiplexer =
  mux_validate_identity :: "mux_identity \<Rightarrow> 'w \<Rightarrow> (mux_error, unit) result \<times> 'w"
  mux_capture_tail :: "mux_identity \<Rightarrow> nat \<Rightarrow> nat \<Rightarrow> 'w \<Rightarrow> (mux_error, mux_capture) result \<times> 'w"
  mux_send_literal :: "mux_identity \<Rightarrow> string \<Rightarrow> 'w \<Rightarrow> (mux_error, unit) result \<times> 'w"
  mux_submit_literal :: "mux_identity \<Rightarrow> string \<Rightarrow> 'w \<Rightarrow> (mux_error, unit) result \<times> 'w"
  mux_send_key :: "mux_identity \<Rightarrow> symbolic_key \<Rightarrow> 'w \<Rightarrow> (mux_error, unit) result \<times> 'w"

text \<open>The trait's own \<open>submit_literal\<close>, for a multiplexer that does not override it.\<close>

definition submit_literal_default ::
  "mux_identity \<Rightarrow> string \<Rightarrow> 'w \<Rightarrow> (mux_error, unit) result \<times> 'w" where
  "submit_literal_default i text w = (Inl (Command ''atomic text submission is unsupported''), w)"

section \<open>Validation\<close>

definition MAX_CAPTURE_LINES :: u16 where
  "MAX_CAPTURE_LINES = 300"

definition MAX_CAPTURE_BYTES :: nat where
  "MAX_CAPTURE_BYTES = 64 * 1024"

definition forbidden_literal_character :: "nat \<Rightarrow> bool" where
  "forbidden_literal_character c = (c \<le> 0x1f \<or> (0x7f \<le> c \<and> c \<le> 0x9f))"

definition symbolic_key_of :: "string \<Rightarrow> symbolic_key option" where
  "symbolic_key_of k =
     (if k = ''ENTER'' then Some Enter else if k = ''ESCAPE'' then Some Escape
      else if k = ''UP'' then Some Up else if k = ''DOWN'' then Some Down
      else if k = ''LEFT'' then Some Left else if k = ''RIGHT'' then Some Right
      else if k = ''TAB'' then Some Tab else None)"

fun kind_executable :: "action_kind \<Rightarrow> (execution_error, unit) result" where
  "kind_executable (SendText text) =
     (if list_ex forbidden_literal_character (str_chars text)
      then Inl (Unsafe ''literal text contains C0/C1 control'') else Inr ())"
| "kind_executable (SubmitText text) =
     (if list_ex forbidden_literal_character (str_chars text)
      then Inl (Unsafe ''literal text contains C0/C1 control'') else Inr ())"
| "kind_executable (SendKeys keys) =
     (if \<not> list_all (\<lambda>k. symbolic_key_of k \<noteq> None) keys
      then Inl (Unsafe ''symbolic key is not allowlisted'') else Inr ())"
| "kind_executable (Capture _ n) =
     (if MAX_CAPTURE_LINES < n then Inl (Unsafe ''capture exceeds bound'') else Inr ())"
| "kind_executable _ = Inr ()"

definition validate_action :: "rfc3339 \<Rightarrow> action \<Rightarrow> (execution_error, unit) result" where
  "validate_action parse a =
     rbind (map_err Unsafe (action_validate parse a)) (\<lambda>_. kind_executable (act_kind a))"

section \<open>The runtime actuator\<close>

record 'w runtime_services =
  rs_schedule :: "string \<Rightarrow> 'w \<Rightarrow> (string, unit) result \<times> 'w"
  rs_capture :: "string \<Rightarrow> u16 \<Rightarrow> 'w \<Rightarrow> (string, string) result \<times> 'w"
  rs_check :: "string \<Rightarrow> string option \<Rightarrow> 'w \<Rightarrow> (string, bool) result \<times> 'w"
  rs_notify :: "string \<Rightarrow> string \<Rightarrow> 'w \<Rightarrow> (string, unit) result \<times> 'w"
  rs_escalate :: "string \<Rightarrow> 'w \<Rightarrow> (string, unit) result \<times> 'w"
  rs_stop_watching :: "'w \<Rightarrow> (string, unit) result \<times> 'w"

text \<open>\<open>runtime(result)\<close> followed by the output: an error of a service is an integration error.\<close>

definition runtime :: "(string, 'a) result \<times> 'w \<Rightarrow> ('a \<Rightarrow> execution_output)
     \<Rightarrow> (execution_error, execution_output) result \<times> 'w" where
  "runtime call out = (case call of (Inl e, w) \<Rightarrow> (Inl (Integration e), w) | (Inr x, w) \<Rightarrow> (Inr (out x), w))"

definition runtime_execute ::
  "rfc3339 \<Rightarrow> 'w runtime_services \<Rightarrow> action \<Rightarrow> 'w \<Rightarrow> (execution_error, execution_output) result \<times> 'w" where
  "runtime_execute parse sv a w =
     (case validate_action parse a of Inl e \<Rightarrow> (Inl e, w) | Inr _ \<Rightarrow>
      case act_kind a of
        WaitUntil t \<Rightarrow> runtime (rs_schedule sv t w) (\<lambda>_. Scheduled 0)
      | WaitDuration d \<Rightarrow>
          runtime (rs_schedule sv (''monotonic+'' @ decimal (unat d) @ ''s'') w)
            (\<lambda>_. Scheduled (dur_from_secs d))
      | Capture src n \<Rightarrow> runtime (rs_capture sv src n w) Captured
      | CheckStatus c \<Rightarrow>
          runtime (rs_check sv (check_kind c) (check_value c) w)
            (\<lambda>matches. Status (JObject [(''kind'', JString (check_kind c)), (''matches'', JBool matches)]))
      | Notify sev msg \<Rightarrow> runtime (rs_notify sv sev msg w) (\<lambda>_. Notified)
      | Escalate level \<Rightarrow> runtime (rs_escalate sv level w) (\<lambda>_. Escalated)
      | StopWatching \<Rightarrow> runtime (rs_stop_watching sv w) (\<lambda>_. Committed)
      | Noop \<Rightarrow> (Inr Committed, w)
      | SendText _ \<Rightarrow> (Inl (Unsafe ''input action requires multiplexer actuator''), w)
      | SubmitText _ \<Rightarrow> (Inl (Unsafe ''input action requires multiplexer actuator''), w)
      | SendKeys _ \<Rightarrow> (Inl (Unsafe ''input action requires multiplexer actuator''), w))"

section \<open>The multiplexer actuator\<close>

type_synonym mux_result = "(execution_error or_panic, execution_output) result"

definition integration :: "mux_error \<Rightarrow> execution_error or_panic" where
  "integration e = Raised (Integration (mux_error_display e))"

definition possible_side_effect :: "mux_error \<Rightarrow> execution_error or_panic" where
  "possible_side_effect e = Raised (PossibleSideEffect (mux_error_display e))"

definition mux_capture_source_matches :: "string \<Rightarrow> event_source \<Rightarrow> bool" where
  "mux_capture_source_matches requested src =
     ((requested = ''screen_detection'' \<or> requested = ''screen_recent'')
      \<and> src_kind src = ScreenDetection \<and> source_id src = ''tmux'')"

fun send_keys_loop :: "'w multiplexer \<Rightarrow> mux_identity \<Rightarrow> string list \<Rightarrow> 'w \<Rightarrow> mux_result \<times> 'w" where
  "send_keys_loop mux i [] w = (Inr Committed, w)"
| "send_keys_loop mux i (k # ks) w =
     (case symbolic_key_of k of
        None \<Rightarrow> (Inl (Panicked ''validated''), w)
      | Some key \<Rightarrow>
          (case mux_send_key mux i key w of
             (Inl e, w1) \<Rightarrow> (Inl (possible_side_effect e), w1)
           | (Inr _, w1) \<Rightarrow> send_keys_loop mux i ks w1))"

fun mux_kind_execute ::
  "'w multiplexer \<Rightarrow> mux_identity \<Rightarrow> event_source \<Rightarrow> action_kind \<Rightarrow> 'w \<Rightarrow> mux_result \<times> 'w" where
  "mux_kind_execute mux i src (SendText text) w =
     (case mux_send_literal mux i text w of
        (Inl e, w1) \<Rightarrow> (Inl (possible_side_effect e), w1) | (Inr _, w1) \<Rightarrow> (Inr Committed, w1))"
| "mux_kind_execute mux i src (SubmitText text) w =
     (case mux_submit_literal mux i text w of
        (Inl e, w1) \<Rightarrow> (Inl (possible_side_effect e), w1) | (Inr _, w1) \<Rightarrow> (Inr Committed, w1))"
| "mux_kind_execute mux i src (SendKeys keys) w = send_keys_loop mux i keys w"
| "mux_kind_execute mux i src (Capture requested n) w =
     (if \<not> mux_capture_source_matches requested src
      then (Inl (Raised (Unsafe ''capture source is not the bound mux screen observation'')), w)
      else (case mux_capture_tail mux i (unat n) MAX_CAPTURE_BYTES w of
              (Inl e, w1) \<Rightarrow> (Inl (integration e), w1)
            | (Inr c, w1) \<Rightarrow> (Inr (Captured (cap_text c)), w1)))"
| "mux_kind_execute mux i src (WaitDuration d) w = (Inr (Scheduled (dur_from_secs d)), w)"
| "mux_kind_execute mux i src (WaitUntil _) w = (Inr (Scheduled 0), w)"
| "mux_kind_execute mux i src (CheckStatus c) w =
     (Inr (Status (JObject [(''kind'', JString (check_kind c)),
        (''value'', case check_value c of None \<Rightarrow> JNull | Some v \<Rightarrow> JString v)])), w)"
| "mux_kind_execute mux i src (Notify _ _) w = (Inr Notified, w)"
| "mux_kind_execute mux i src (Escalate _) w = (Inr Escalated, w)"
| "mux_kind_execute mux i src StopWatching w = (Inr Committed, w)"
| "mux_kind_execute mux i src Noop w = (Inr Committed, w)"

definition mux_execute ::
  "rfc3339 \<Rightarrow> 'w multiplexer \<Rightarrow> mux_identity \<Rightarrow> event_source \<Rightarrow> action \<Rightarrow> 'w \<Rightarrow> mux_result \<times> 'w" where
  "mux_execute parse mux i src a w =
     (case validate_action parse a of Inl e \<Rightarrow> (Inl (Raised e), w) | Inr _ \<Rightarrow>
      case mux_validate_identity mux i w of
        (Inl e, w1) \<Rightarrow> (Inl (integration e), w1)
      | (Inr _, w1) \<Rightarrow> mux_kind_execute mux i src (act_kind a) w1)"

section \<open>Properties\<close>

lemma forbidden_is_control: "forbidden_literal_character c = is_control c"
  by (auto simp: forbidden_literal_character_def is_control_def)

lemma validate_action_keys:
  "validate_action parse a = Inr u \<Longrightarrow> act_kind a = SendKeys keys \<Longrightarrow>
     list_all (\<lambda>k. symbolic_key_of k \<noteq> None) keys"
  by (auto simp: validate_action_def result_simps split: if_splits)

lemma send_keys_loop_no_panic:
  "list_all (\<lambda>k. symbolic_key_of k \<noteq> None) keys \<Longrightarrow> fst (send_keys_loop mux i keys w) \<noteq> Inl (Panicked p)"
  by (induction keys arbitrary: w)
    (auto simp: possible_side_effect_def split: option.split prod.split sum.split)

lemma send_keys_loop_err:
  "send_keys_loop mux i keys w = (Inl (Raised e), w') \<Longrightarrow> \<exists>msg. e = PossibleSideEffect msg"
  by (induction keys arbitrary: w)
    (auto simp: possible_side_effect_def split: option.splits prod.splits sum.splits)

lemma mux_kind_execute_err:
  assumes "mux_kind_execute mux i src k w = (Inl (Raised e), w')" "is_input k"
  shows "\<exists>msg. e = PossibleSideEffect msg"
  using assms
  by (cases k) (auto simp: possible_side_effect_def dest: send_keys_loop_err
      split: prod.splits sum.splits)

lemma mux_kind_execute_no_panic:
  assumes "validate_action parse a = Inr u" "is_input (act_kind a)"
  shows "fst (mux_kind_execute mux i src (act_kind a) w) \<noteq> Inl (Panicked p)"
proof (cases "act_kind a")
  case (SendKeys keys)
  with send_keys_loop_no_panic [OF validate_action_keys [OF assms(1) SendKeys]] show ?thesis by simp
qed (use assms(2) in \<open>auto simp: possible_side_effect_def split: prod.split sum.split\<close>)

text \<open>C32: The multiplexer actuator reports what it did honestly: if an input action ends in any error
  other than \<open>PossibleSideEffect\<close>, nothing was sent; the world is untouched or is the one the identity
  check left behind. And the \<open>expect\<close> in the key loop never fires.\<close>

theorem mux_execute_error_honest:
  assumes "is_input (act_kind a)" and "mux_execute parse mux i src a w = (Inl err, w')"
  shows "(\<exists>msg. err = Raised (PossibleSideEffect msg)) \<or>
    (\<exists>e. err = Raised (Unsafe e) \<and> w' = w) \<or>
    (\<exists>e. err = Raised (Integration e) \<and> w' = snd (mux_validate_identity mux i w))"
proof (cases "validate_action parse a")
  case (Inl e)
  then obtain e' where "e = Unsafe e'"
    by (cases "act_kind a") (auto simp: validate_action_def result_simps split: if_splits)
  with assms(2) Inl show ?thesis by (auto simp: mux_execute_def)
next
  case (Inr u)
  obtain r w1 where v: "mux_validate_identity mux i w = (r, w1)" by fastforce
  show ?thesis
  proof (cases r)
    case (Inl e)
    with assms(2) Inr v show ?thesis by (auto simp: mux_execute_def integration_def)
  next
    case inr: (Inr x)
    then have k: "mux_kind_execute mux i src (act_kind a) w1 = (Inl err, w')"
      using assms(2) Inr v by (simp add: mux_execute_def)
    have "err \<noteq> Panicked p" for p
      using mux_kind_execute_no_panic [OF Inr assms(1), of mux i src w1 p] k by simp
    then obtain e where "err = Raised e" by (cases err) auto
    with k assms(1) show ?thesis by (auto dest: mux_kind_execute_err)
  qed
qed

definition example_mux :: "string list multiplexer" where
  "example_mux = \<lparr>mux_validate_identity = \<lambda>i w. (Inr (), w),
     mux_capture_tail = \<lambda>i n b w. (Inl Timeout, w),
     mux_send_literal = \<lambda>i t w. (Inr (), w @ [t]),
     mux_submit_literal = submit_literal_default,
     mux_send_key = \<lambda>i k w. if w = [] then (Inr (), w @ [tmux_name k]) else (Inl Timeout, w)\<rparr>"

definition example_mux_identity :: mux_identity where
  "example_mux_identity = \<lparr>mi_provider = ''tmux'', mi_server_instance = ''1'', mi_server = ''/tmp/s'',
     mi_session_id = ''$0'', mi_window_id = ''@0'', mi_pane_id = ''%0'', mi_tty = ''/dev/pts/1'',
     mi_process = process_identity_new 7 9\<rparr>"

definition example_keys_action :: action where
  "example_keys_action = action_new ''k'' (SendKeys [''DOWN'', ''ENTER'']) ''why'' ''fedcba9876543210'' 30"

lemma example_keys_run:
  "mux_execute (\<lambda>_. None) example_mux example_mux_identity
     (event_source_new ScreenDetection ''tmux'' ''menu'') example_keys_action [] =
   (Inl (Raised (PossibleSideEffect ''tmux command timed out'')), [''Down''])"
  by (simp add: mux_execute_def validate_action_def action_validate_def well_formed_id_def
      is_ascii_alphanumeric_def is_ascii_digit_def is_ascii_upper_def is_ascii_lower_def
      example_keys_action_def action_new_def valid_precondition_def valid_outcome_def
      scalar_value_def PRECONDITION_KINDS_def OUTCOME_KINDS_def valid_key_def VALID_KEYS_def
      symbolic_key_of_def example_mux_def possible_side_effect_def)

theorem mux_execute_error_honest_witness:
  "is_input (act_kind example_keys_action) \<and>
   (\<exists>err. fst (mux_execute (\<lambda>_. None) example_mux example_mux_identity
       (event_source_new ScreenDetection ''tmux'' ''menu'') example_keys_action []) = Inl err \<and>
     ((\<exists>msg. err = Raised (PossibleSideEffect msg)) \<or> (\<exists>e. err = Raised (Unsafe e)) \<or>
      (\<exists>e. err = Raised (Integration e))))"
proof -
  have inp: "is_input (act_kind example_keys_action)"
    by (simp add: example_keys_action_def)
  show ?thesis
    using inp example_keys_run mux_execute_error_honest [OF inp example_keys_run] by simp
qed

text \<open>The runtime actuator never types: an input action is refused before any service is called, and
  no error of a service is reported as a possible side effect.\<close>

theorem runtime_execute_never_types:
  "(is_input (act_kind a) \<longrightarrow> (\<exists>e. runtime_execute parse sv a w = (Inl (Unsafe e), w))) \<and>
   fst (runtime_execute parse sv a w) \<noteq> Inl (PossibleSideEffect msg)"
proof (cases "validate_action parse a")
  case (Inl e)
  then obtain e' where "e = Unsafe e'"
    by (cases "act_kind a") (auto simp: validate_action_def result_simps split: if_splits)
  with Inl show ?thesis by (simp add: runtime_execute_def)
next
  case (Inr u)
  then show ?thesis
    by (cases "act_kind a") (auto simp: runtime_execute_def runtime_def split: prod.split sum.split)
qed

definition example_services :: "nat runtime_services" where
  "example_services =
     \<lparr>rs_schedule = \<lambda>s w. (Inr (), w), rs_capture = \<lambda>s n w. (Inr [], w), rs_check = \<lambda>k v w. (Inr True, w),
      rs_notify = \<lambda>s m w. (Inr (), w), rs_escalate = \<lambda>l w. (Inr (), w),
      rs_stop_watching = \<lambda>w. (Inr (), w)\<rparr>"

theorem runtime_execute_never_types_witness:
  "\<exists>e. runtime_execute (\<lambda>_. None) example_services example_keys_action 0 = (Inl (Unsafe e), 0)"
proof -
  have "is_input (act_kind example_keys_action)"
    by (simp add: example_keys_action_def)
  then show ?thesis
    by (rule runtime_execute_never_types [THEN conjunct1, THEN mp])
qed

end
