(* ===== verification/Durable_Store.thy ===== *)
theory Durable_Store
  imports Prelude
begin

text \<open>
  The durable JSON file behind the registry and the action ledger (\<open>src/src/store.rs\<close>), as its callers
  see it: a write either replaces the file or fails at one of its steps, and a load finds nothing, a
  value, or content it quarantines. Which step of a write fails is the file system's choice, so a
  store carries the outcomes of its coming writes. Only a failure of the last step, the directory
  sync after the rename, leaves the new content in place although the write reports an error.
\<close>

datatype write_step =
    Serialize | SizeLimit | OpenParent | RefuseSymlink | CreateTemporary | WriteTemporary
  | SyncTemporary | RenameTemporary | SyncDirectory

datatype 'a file_content = Absent | Holds 'a | Garbage string

record 'a json_store =
  js_file :: "'a file_content"
  js_faults :: "(write_step \<times> string) option list"

datatype 'a load_outcome = Missing | Present 'a | Corrupt string

text \<open>The outcome of the coming write; a store with no outcome left succeeds.\<close>

fun next_fault :: "(write_step \<times> string) option list \<Rightarrow> (write_step \<times> string) option" where
  "next_fault [] = None"
| "next_fault (f # fs) = f"

definition js_write :: "'a \<Rightarrow> 'a json_store \<Rightarrow> (string, unit) result \<times> 'a json_store" where
  "js_write v s =
     (let s' = s\<lparr>js_faults := tl (js_faults s)\<rparr> in
      case next_fault (js_faults s) of
        None \<Rightarrow> (Inr (), s'\<lparr>js_file := Holds v\<rparr>)
      | Some (step, e) \<Rightarrow>
          (Inl e, if step = SyncDirectory then s'\<lparr>js_file := Holds v\<rparr> else s'))"

fun js_load :: "'a json_store \<Rightarrow> 'a load_outcome \<times> 'a json_store" where
  "js_load s =
     (case js_file s of
        Absent \<Rightarrow> (Missing, s)
      | Holds v \<Rightarrow> (Present v, s)
      | Garbage quarantine \<Rightarrow> (Corrupt quarantine, s))"

text \<open>A store whose coming writes all succeed.\<close>

definition js_healthy :: "'a json_store \<Rightarrow> bool" where
  "js_healthy s \<longleftrightarrow> (\<forall>f \<in> set (js_faults s). f = None)"

text \<open>Failures that leave the old content, which is every failure before the directory sync.\<close>

definition js_atomic :: "'a json_store \<Rightarrow> bool" where
  "js_atomic s \<longleftrightarrow> (\<forall>e. Some (SyncDirectory, e) \<notin> set (js_faults s))"

lemma js_write_ok: "js_write v s = (Inr u, s') \<Longrightarrow> js_file s' = Holds v"
  by (auto simp: js_write_def Let_def split: option.splits)

lemma js_write_healthy:
  assumes "js_healthy s"
  shows "\<exists>s'. js_write v s = (Inr (), s') \<and> js_healthy s' \<and> js_file s' = Holds v"
proof (cases "js_faults s")
  case Nil
  then show ?thesis by (simp add: js_write_def js_healthy_def)
next
  case (Cons f fs)
  with assms have "f = None" "\<forall>g \<in> set fs. g = None" by (auto simp: js_healthy_def)
  with Cons show ?thesis by (simp add: js_write_def js_healthy_def)
qed

lemma js_write_atomic:
  assumes "js_atomic s" "js_write v s = (Inl e, s')"
  shows "js_file s' = js_file s \<and> js_atomic s'"
proof (cases "js_faults s")
  case Nil
  with assms(2) show ?thesis by (simp add: js_write_def)
next
  case (Cons f fs)
  with assms show ?thesis
    by (cases f) (auto simp: js_write_def js_atomic_def Let_def split: if_splits)
qed

lemma js_write_atomic_ok:
  "js_atomic s \<Longrightarrow> js_write v s = (Inr u, s') \<Longrightarrow> js_atomic s'"
  by (cases "js_faults s") (auto simp: js_write_def js_atomic_def Let_def split: option.splits)

end
