(* ===== verification/Action_Store.thy ===== *)
theory Action_Store
  imports Durable_Store
begin

text \<open>
  The durable action ledger (\<open>src/src/recovery/action_store.rs\<close>) and the records it keeps
  (\<open>src/src/recovery/transaction.rs\<close>). The trait \<open>ActionStore\<close> is the locale \<open>action_store\<close>: what its
  users may rely on, whatever implements it. \<open>JsonActionStore\<close> is the implementation, and the
  interpretation proves that it keeps the contract.
\<close>

section \<open>Records\<close>

record owner_identity =
  owner_pid :: u32
  owner_start_time :: u64
  owner_nonce :: string

datatype action_phase =
    Prepared | Begun | Sent | Verifying | Succeeded | Failed | Uncertain | HumanRequired

fun is_terminal :: "action_phase \<Rightarrow> bool" where
  "is_terminal Succeeded = True"
| "is_terminal Failed = True"
| "is_terminal HumanRequired = True"
| "is_terminal _ = False"

record action_record =
  ar_action_id :: string
  idempotency_key :: string
  ar_target :: string
  ar_identity :: string
  ar_fingerprint :: string
  ar_owner :: owner_identity
  prepared_at_ms :: u64
  lease_deadline_ms :: u64
  ar_phase :: action_phase
  ar_reason :: string
  ar_snapshot :: string
  ar_output :: "string option"

definition record_prepared ::
  "string \<Rightarrow> string \<Rightarrow> string \<Rightarrow> owner_identity \<Rightarrow> u64 \<Rightarrow> u64 \<Rightarrow> string \<Rightarrow> string \<Rightarrow> string
     \<Rightarrow> action_record" where
  "record_prepared aid key target owner now lease identity fp snapshot =
     \<lparr>ar_action_id = aid, idempotency_key = key, ar_target = target, ar_identity = identity,
      ar_fingerprint = fp, ar_owner = owner, prepared_at_ms = now, lease_deadline_ms = lease,
      ar_phase = Prepared, ar_reason = ''policy, evidence, identity and preconditions confirmed'',
      ar_snapshot = snapshot, ar_output = None\<rparr>"

definition record_next :: "action_phase \<Rightarrow> string \<Rightarrow> action_record \<Rightarrow> action_record" where
  "record_next phase reason r = r\<lparr>ar_phase := phase, ar_reason := reason\<rparr>"

lemma record_next_fields [simp]:
  "ar_phase (record_next p s r) = p"
  "ar_reason (record_next p s r) = s"
  "idempotency_key (record_next p s r) = idempotency_key r"
  "ar_action_id (record_next p s r) = ar_action_id r"
  "ar_target (record_next p s r) = ar_target r"
  "ar_fingerprint (record_next p s r) = ar_fingerprint r"
  "ar_identity (record_next p s r) = ar_identity r"
  "ar_output (record_next p s r) = ar_output r"
  "lease_deadline_ms (record_next p s r) = lease_deadline_ms r"
  by (simp_all add: record_next_def)

lemma record_prepared_fields [simp]:
  "ar_phase (record_prepared aid key target owner now lease identity fp snapshot) = Prepared"
  "idempotency_key (record_prepared aid key target owner now lease identity fp snapshot) = key"
  "ar_action_id (record_prepared aid key target owner now lease identity fp snapshot) = aid"
  "ar_target (record_prepared aid key target owner now lease identity fp snapshot) = target"
  "ar_fingerprint (record_prepared aid key target owner now lease identity fp snapshot) = fp"
  by (simp_all add: record_prepared_def)

text \<open>The two records of an escalation: the uncertainty and the hand-off to a human.\<close>

definition uncertain_pair :: "action_record \<Rightarrow> string \<Rightarrow> action_record \<times> action_record" where
  "uncertain_pair r reason =
     (let u = record_next Uncertain reason r
      in (u, record_next HumanRequired (''possible side effect requires human review: '' @ reason) u))"

section \<open>The contract of an action store\<close>

text \<open>
  The state is observed through the active record and the audit list of each target and the
  keys that were ever claimed. A successful operation has exactly its stated effect; an operation
  that returns an error or a refusal changes nothing that can be observed.
\<close>

locale action_store =
  fixes claim :: "string \<Rightarrow> action_record \<Rightarrow> 's \<Rightarrow> (string, bool) result \<times> 's"
    and app :: "string \<Rightarrow> action_record \<Rightarrow> 's \<Rightarrow> (string, unit) result \<times> 's"
    and escalate :: "string \<Rightarrow> action_record \<Rightarrow> string \<Rightarrow> 's \<Rightarrow> (string, action_record) result \<times> 's"
    and active_of :: "'s \<Rightarrow> string \<Rightarrow> action_record option"
    and audit_of :: "'s \<Rightarrow> string \<Rightarrow> action_record list"
    and keys_of :: "'s \<Rightarrow> string set"
  assumes claim_ok:
      "claim t r s = (Inr True, s') \<Longrightarrow>
         active_of s t = None \<and> idempotency_key r \<notin> keys_of s \<and>
         active_of s' = (active_of s)(t \<mapsto> r) \<and> audit_of s' = (audit_of s)(t := audit_of s t @ [r]) \<and>
         keys_of s' = insert (idempotency_key r) (keys_of s)"
    and claim_refused:
      "claim t r s = (res, s') \<Longrightarrow> res \<noteq> Inr True \<Longrightarrow>
         active_of s' = active_of s \<and> audit_of s' = audit_of s \<and> keys_of s' = keys_of s"
    and claim_taken:
      "active_of s t \<noteq> None \<or> idempotency_key r \<in> keys_of s \<Longrightarrow> fst (claim t r s) \<noteq> Inr True"
    and app_ok:
      "app t r s = (Inr u, s') \<Longrightarrow>
         (\<exists>cur. active_of s t = Some cur \<and> idempotency_key cur = idempotency_key r \<and>
                ar_action_id cur = ar_action_id r) \<and>
         active_of s' = (active_of s)(t := if is_terminal (ar_phase r) then None else Some r) \<and>
         audit_of s' = (audit_of s)(t := audit_of s t @ [r]) \<and> keys_of s' = keys_of s"
    and app_err:
      "app t r s = (Inl e, s') \<Longrightarrow>
         active_of s' = active_of s \<and> audit_of s' = audit_of s \<and> keys_of s' = keys_of s"
    and escalate_ok:
      "escalate t r reason s = (Inr h, s') \<Longrightarrow>
         h = snd (uncertain_pair r reason) \<and>
         (\<exists>cur. active_of s t = Some cur \<and> idempotency_key cur = idempotency_key r \<and>
                ar_action_id cur = ar_action_id r) \<and>
         active_of s' = (active_of s)(t := None) \<and>
         audit_of s' = (audit_of s)(t := audit_of s t @ [fst (uncertain_pair r reason), h]) \<and>
         keys_of s' = keys_of s"
    and escalate_err:
      "escalate t r reason s = (Inl e, s') \<Longrightarrow>
         active_of s' = active_of s \<and> audit_of s' = audit_of s \<and> keys_of s' = keys_of s"
begin

text \<open>One operation of the store, as a relation, and what holds of every sequence of operations.\<close>

inductive store_step :: "'s \<Rightarrow> 's \<Rightarrow> bool" where
  step_claim: "claim t r s = (res, s') \<Longrightarrow> \<not> is_terminal (ar_phase r) \<Longrightarrow> store_step s s'"
| step_app: "app t r s = (res', s') \<Longrightarrow> store_step s s'"
| step_escalate: "escalate t r reason s = (res'', s') \<Longrightarrow> store_step s s'"

definition store_inv :: "'s \<Rightarrow> bool" where
  "store_inv s \<longleftrightarrow>
     (\<forall>t r. active_of s t = Some r \<longrightarrow>
        \<not> is_terminal (ar_phase r) \<and> idempotency_key r \<in> keys_of s \<and>
        audit_of s t \<noteq> [] \<and> last (audit_of s t) = r) \<and>
     (\<forall>t. \<forall>r \<in> set (audit_of s t). idempotency_key r \<in> keys_of s)"

lemma uncertain_pair_fields:
  "idempotency_key (fst (uncertain_pair r reason)) = idempotency_key r"
  "idempotency_key (snd (uncertain_pair r reason)) = idempotency_key r"
  "ar_phase (fst (uncertain_pair r reason)) = Uncertain"
  "ar_phase (snd (uncertain_pair r reason)) = HumanRequired"
  by (simp_all add: uncertain_pair_def Let_def)

lemma store_inv_claim:
  assumes "store_inv s" "claim t r s = (res, s')" "\<not> is_terminal (ar_phase r)"
  shows "store_inv s'"
proof (cases "res = Inr True")
  case True
  with assms(2) have "claim t r s = (Inr True, s')" by simp
  from claim_ok [OF this] assms(1,3) show ?thesis
    by (auto simp: store_inv_def split: if_splits)
next
  case False
  from claim_refused [OF assms(2) False] assms(1) show ?thesis by (simp add: store_inv_def)
qed

lemma store_inv_app:
  assumes "store_inv s" "app t r s = (res, s')"
  shows "store_inv s'"
proof (cases res)
  case (Inl e)
  with assms(2) have "app t r s = (Inl e, s')" by simp
  from app_err [OF this] assms(1) show ?thesis by (simp add: store_inv_def)
next
  case (Inr u)
  with assms(2) have ok: "app t r s = (Inr u, s')" by simp
  obtain cur where "active_of s t = Some cur" "idempotency_key cur = idempotency_key r"
    using app_ok [OF ok] by blast
  then have "idempotency_key r \<in> keys_of s"
    using assms(1) unfolding store_inv_def by metis
  with app_ok [OF ok] assms(1) show ?thesis
    by (auto simp: store_inv_def split: if_splits)
qed

lemma store_inv_escalate:
  assumes "store_inv s" "escalate t r reason s = (res, s')"
  shows "store_inv s'"
proof (cases res)
  case (Inl e)
  with assms(2) have "escalate t r reason s = (Inl e, s')" by simp
  from escalate_err [OF this] assms(1) show ?thesis by (simp add: store_inv_def)
next
  case (Inr h)
  with assms(2) have ok: "escalate t r reason s = (Inr h, s')" by simp
  obtain cur where "active_of s t = Some cur" "idempotency_key cur = idempotency_key r"
    using escalate_ok [OF ok] by blast
  then have "idempotency_key r \<in> keys_of s"
    using assms(1) unfolding store_inv_def by metis
  with escalate_ok [OF ok] assms(1) show ?thesis
    by (auto simp: store_inv_def uncertain_pair_fields split: if_splits)
qed

lemma store_step_inv: "store_step s s' \<Longrightarrow> store_inv s \<Longrightarrow> store_inv s'"
  by (induction rule: store_step.induct)
    (blast intro: store_inv_claim store_inv_app store_inv_escalate)+

lemma store_steps_inv: "store_step\<^sup>*\<^sup>* s s' \<Longrightarrow> store_inv s \<Longrightarrow> store_inv s'"
  by (induction rule: rtranclp_induct) (auto intro: store_step_inv)

text \<open>Nothing that was recorded is ever lost, and a claimed key stays claimed.\<close>

lemma store_step_grows:
  assumes "store_step s s'"
  shows "keys_of s \<subseteq> keys_of s' \<and> (\<forall>t. \<exists>new. audit_of s' t = audit_of s t @ new)"
  using assms
proof cases
  case (step_claim t r res)
  show ?thesis
  proof (cases "res = Inr True")
    case True
    with step_claim have "claim t r s = (Inr True, s')" by simp
    from claim_ok [OF this] show ?thesis by auto
  next
    case False
    from claim_refused [OF step_claim(1) False] show ?thesis by auto
  qed
next
  case (step_app t r res)
  then show ?thesis
    by (cases res) (auto dest: app_ok app_err)
next
  case (step_escalate t r reason res)
  then show ?thesis
    by (cases res) (auto dest: escalate_ok escalate_err)
qed

lemma store_steps_grow:
  "store_step\<^sup>*\<^sup>* s s' \<Longrightarrow>
     keys_of s \<subseteq> keys_of s' \<and> (\<forall>t. \<exists>new. audit_of s' t = audit_of s t @ new)"
proof (induction rule: rtranclp_induct)
  case (step y z)
  have "\<exists>new. audit_of z t = audit_of s t @ new" for t
    using step.IH store_step_grows [OF step.hyps(2)] by (metis append_assoc)
  with step.IH store_step_grows [OF step.hyps(2)] show ?case by blast
qed simp

text \<open>A key is claimed at most once over any sequence of operations.\<close>

lemma claim_once:
  assumes "claim t r s = (Inr True, s1)" "store_step\<^sup>*\<^sup>* s1 s2"
    and "idempotency_key r' = idempotency_key r"
  shows "fst (claim t' r' s2) \<noteq> Inr True"
proof -
  have "idempotency_key r \<in> keys_of s2"
    using claim_ok [OF assms(1)] store_steps_grow [OF assms(2)] by blast
  then show ?thesis using claim_taken assms(3) by auto
qed

end

section \<open>The JSON ledger\<close>

record ledger =
  lg_version :: u16
  lg_audit :: "action_record list btree"
  lg_active :: "action_record btree"
  lg_idempotency :: "string set"

definition ledger_default :: ledger where
  "ledger_default = \<lparr>lg_version = 0, lg_audit = [], lg_active = [], lg_idempotency = {}\<rparr>"

text \<open>The mutex is held for the whole of each operation; a panic elsewhere may have poisoned it.\<close>

record json_action_store =
  jas_poisoned :: bool
  jas_store :: "ledger json_store"
  jas_state :: ledger

definition jas_load :: "ledger json_store \<Rightarrow> (string, json_action_store) result" where
  "jas_load store =
     (case js_load store of
        (Missing, st) \<Rightarrow>
          Inr \<lparr>jas_poisoned = False, jas_store = st, jas_state = ledger_default\<lparr>lg_version := 1\<rparr>\<rparr>
      | (Present state, st) \<Rightarrow>
          (if lg_version state = 1
           then Inr \<lparr>jas_poisoned = False, jas_store = st, jas_state = state\<rparr>
           else Inl ''unsupported action ledger version'')
      | (Corrupt quarantine, st) \<Rightarrow> Inl (''corrupt action ledger quarantined at '' @ quarantine))"

definition active_records :: "json_action_store \<Rightarrow> (string, action_record list) result" where
  "active_records s =
     (if jas_poisoned s then Inl ''action ledger lock poisoned''
      else Inr (bt_values (lg_active (jas_state s))))"

text \<open>\<open>audit.entry(target).or_default()\<close> extended by records.\<close>

definition audit_extend :: "string \<Rightarrow> action_record list \<Rightarrow> ledger \<Rightarrow> ledger" where
  "audit_extend t rs l =
     l\<lparr>lg_audit := bt_insert t ((case bt_get (lg_audit l) t of None \<Rightarrow> [] | Some old \<Rightarrow> old) @ rs)
        (lg_audit l)\<rparr>"

text \<open>\<open>ledger.store.write(&next)?; ledger.state = next\<close>\<close>

definition jas_commit ::
  "ledger \<Rightarrow> 'a \<Rightarrow> json_action_store \<Rightarrow> (string, 'a) result \<times> json_action_store" where
  "jas_commit l x s =
     (case js_write l (jas_store s) of
        (Inl e, st) \<Rightarrow> (Inl e, s\<lparr>jas_store := st\<rparr>)
      | (Inr _, st) \<Rightarrow> (Inr x, s\<lparr>jas_store := st, jas_state := l\<rparr>))"

definition claim_prepared ::
  "string \<Rightarrow> action_record \<Rightarrow> json_action_store \<Rightarrow> (string, bool) result \<times> json_action_store" where
  "claim_prepared t r s =
     (if jas_poisoned s then (Inl ''action ledger lock poisoned'', s)
      else let l = jas_state s in
        if bt_contains (lg_active l) t \<or> idempotency_key r \<in> lg_idempotency l then (Inr False, s)
        else let l1 = l\<lparr>lg_idempotency := insert (idempotency_key r) (lg_idempotency l)\<rparr>;
                 l2 = l1\<lparr>lg_active := bt_insert t r (lg_active l1)\<rparr>
             in jas_commit (audit_extend t [r] l2) True s)"

definition jas_append ::
  "string \<Rightarrow> action_record \<Rightarrow> json_action_store \<Rightarrow> (string, unit) result \<times> json_action_store" where
  "jas_append t r s =
     (if jas_poisoned s then (Inl ''action ledger lock poisoned'', s)
      else case bt_get (lg_active (jas_state s)) t of
        None \<Rightarrow> (Inl ''target has no active transaction'', s)
      | Some current \<Rightarrow>
          if idempotency_key current \<noteq> idempotency_key r \<or> ar_action_id current \<noteq> ar_action_id r
          then (Inl ''action transaction CAS mismatch'', s)
          else let l1 = audit_extend t [r] (jas_state s);
                   l2 = (if is_terminal (ar_phase r)
                         then l1\<lparr>lg_active := bt_remove t (lg_active l1)\<rparr>
                         else l1\<lparr>lg_active := bt_insert t r (lg_active l1)\<rparr>)
               in jas_commit l2 () s)"

definition escalate_uncertain ::
  "string \<Rightarrow> action_record \<Rightarrow> string \<Rightarrow> json_action_store
     \<Rightarrow> (string, action_record) result \<times> json_action_store" where
  "escalate_uncertain t r reason s =
     (if jas_poisoned s then (Inl ''action ledger lock poisoned'', s)
      else case bt_get (lg_active (jas_state s)) t of
        None \<Rightarrow> (Inl ''target has no active transaction'', s)
      | Some current \<Rightarrow>
          if idempotency_key current \<noteq> idempotency_key r \<or> ar_action_id current \<noteq> ar_action_id r
          then (Inl ''action transaction CAS mismatch'', s)
          else let (u, h) = uncertain_pair r reason;
                   l1 = audit_extend t [u, h] (jas_state s);
                   l2 = l1\<lparr>lg_active := bt_remove t (lg_active l1)\<rparr>
               in jas_commit l2 h s)"

definition jas_active :: "string \<Rightarrow> json_action_store \<Rightarrow> (string, action_record option) result" where
  "jas_active t s =
     (if jas_poisoned s then Inl ''action ledger lock poisoned''
      else Inr (bt_get (lg_active (jas_state s)) t))"

definition jas_audit :: "string \<Rightarrow> json_action_store \<Rightarrow> (string, action_record list) result" where
  "jas_audit t s =
     (if jas_poisoned s then Inl ''action ledger lock poisoned''
      else Inr (case bt_get (lg_audit (jas_state s)) t of None \<Rightarrow> [] | Some old \<Rightarrow> old))"

section \<open>The ledger keeps the contract\<close>

definition ledger_active :: "json_action_store \<Rightarrow> string \<Rightarrow> action_record option" where
  "ledger_active s = bt_get (lg_active (jas_state s))"

definition ledger_audit :: "json_action_store \<Rightarrow> string \<Rightarrow> action_record list" where
  "ledger_audit s t = (case bt_get (lg_audit (jas_state s)) t of None \<Rightarrow> [] | Some old \<Rightarrow> old)"

definition ledger_keys :: "json_action_store \<Rightarrow> string set" where
  "ledger_keys s = lg_idempotency (jas_state s)"

lemmas ledger_views = ledger_active_def ledger_audit_def ledger_keys_def

lemma jas_commit_ok:
  "jas_commit l x s = (Inr y, s') \<Longrightarrow> y = x \<and> jas_state s' = l \<and> js_file (jas_store s') = Holds l"
  by (auto simp: jas_commit_def js_write_ok split: prod.splits sum.splits)

lemma jas_commit_err: "jas_commit l x s = (Inl e, s') \<Longrightarrow> jas_state s' = jas_state s"
  by (auto simp: jas_commit_def split: prod.splits sum.splits)

lemma audit_extend_fields [simp]:
  "lg_active (audit_extend t rs l) = lg_active l"
  "lg_idempotency (audit_extend t rs l) = lg_idempotency l"
  "lg_version (audit_extend t rs l) = lg_version l"
  by (simp_all add: audit_extend_def)

lemma audit_extend_get:
  "bt_get (lg_audit (audit_extend t rs l)) x =
     (if x = t then Some ((case bt_get (lg_audit l) t of None \<Rightarrow> [] | Some old \<Rightarrow> old) @ rs)
      else bt_get (lg_audit l) x)"
  by (simp add: audit_extend_def bt.get_put)

interpretation jas: action_store claim_prepared jas_append escalate_uncertain ledger_active
  ledger_audit ledger_keys
proof (unfold_locales, goal_cases)
  case (1 t r s s')
  then show ?case
    by (auto simp: claim_prepared_def ledger_views bt_contains_def Let_def fun_eq_iff bt.get_put
        audit_extend_get dest!: jas_commit_ok split: if_splits)
next
  case (2 t r s res s')
  then show ?case
    by (cases res) (auto simp: claim_prepared_def ledger_views Let_def fun_eq_iff
        dest!: jas_commit_err jas_commit_ok split: if_splits)
next
  case (3 s t r)
  then show ?case
    by (auto simp: claim_prepared_def ledger_views bt_contains_def Let_def)
next
  case (4 t r s u s')
  then show ?case
    by (auto simp: jas_append_def ledger_views Let_def fun_eq_iff bt.get_put bt.get_del
        audit_extend_get dest!: jas_commit_ok split: if_splits option.splits)
next
  case (5 t r s e s')
  then show ?case
    by (auto simp: jas_append_def ledger_views Let_def dest!: jas_commit_err
        split: if_splits option.splits)
next
  case (6 t r reason s h s')
  then show ?case
    by (auto simp: escalate_uncertain_def ledger_views Let_def fun_eq_iff bt.get_del
        audit_extend_get dest!: jas_commit_ok split: if_splits option.splits prod.splits)
next
  case (7 t r reason s e s')
  then show ?case
    by (auto simp: escalate_uncertain_def ledger_views Let_def dest!: jas_commit_err
        split: if_splits option.splits prod.splits)
qed

section \<open>Sequences of ledger operations\<close>

datatype ledger_op =
    Claim string action_record
  | Append string action_record
  | EscalateUncertain string action_record string

fun ledger_apply :: "ledger_op \<Rightarrow> json_action_store \<Rightarrow> json_action_store" where
  "ledger_apply (Claim t r) s = snd (claim_prepared t r s)"
| "ledger_apply (Append t r) s = snd (jas_append t r s)"
| "ledger_apply (EscalateUncertain t r reason) s = snd (escalate_uncertain t r reason s)"

fun ledger_run :: "ledger_op list \<Rightarrow> json_action_store \<Rightarrow> json_action_store" where
  "ledger_run [] s = s"
| "ledger_run (x # xs) s = ledger_run xs (ledger_apply x s)"

text \<open>A transaction is claimed with the record that \<open>ActionRecord::prepared\<close> builds.\<close>

fun op_claims_prepared :: "ledger_op \<Rightarrow> bool" where
  "op_claims_prepared (Claim t r) = (ar_phase r = Prepared)"
| "op_claims_prepared _ = True"

text \<open>Successful claims of one key in a run.\<close>

fun claims_of_key :: "string \<Rightarrow> ledger_op list \<Rightarrow> json_action_store \<Rightarrow> nat" where
  "claims_of_key k [] s = 0"
| "claims_of_key k (x # xs) s =
     (case x of Claim t r \<Rightarrow>
        if idempotency_key r = k \<and> fst (claim_prepared t r s) = Inr True then 1 else 0
      | _ \<Rightarrow> 0) + claims_of_key k xs (ledger_apply x s)"

lemma ledger_apply_step:
  assumes "op_claims_prepared x"
  shows "jas.store_step s (ledger_apply x s)"
proof (cases x)
  case (Claim t r)
  with assms have "\<not> is_terminal (ar_phase r)" by simp
  with Claim show ?thesis
    using jas.step_claim [OF prod.collapse [symmetric, of "claim_prepared t r s"]] by simp
next
  case (Append t r)
  then show ?thesis
    using jas.step_app [OF prod.collapse [symmetric, of "jas_append t r s"]] by simp
next
  case (EscalateUncertain t r reason)
  then show ?thesis
    using jas.step_escalate [OF prod.collapse [symmetric, of "escalate_uncertain t r reason s"]] by simp
qed

lemma ledger_run_steps:
  "\<forall>x \<in> set xs. op_claims_prepared x \<Longrightarrow> jas.store_step\<^sup>*\<^sup>* s (ledger_run xs s)"
proof (induction xs arbitrary: s)
  case (Cons x xs)
  then have "jas.store_step s (ledger_apply x s)" by (simp add: ledger_apply_step)
  moreover have "jas.store_step\<^sup>*\<^sup>* (ledger_apply x s) (ledger_run xs (ledger_apply x s))"
    using Cons by simp
  ultimately show ?case by simp
qed simp

lemma claims_of_taken_key:
  assumes "k \<in> ledger_keys s" "\<forall>x \<in> set xs. op_claims_prepared x"
  shows "claims_of_key k xs s = 0"
  using assms
proof (induction xs arbitrary: s)
  case (Cons x xs)
  have step: "jas.store_step s (ledger_apply x s)"
    using Cons.prems by (simp add: ledger_apply_step)
  have "claims_of_key k xs (ledger_apply x s) = 0"
    using Cons.IH Cons.prems jas.store_step_grows [OF step] by auto
  moreover have "fst (claim_prepared t r s) \<noteq> Inr True" if "idempotency_key r = k" for t r
    using jas.claim_taken [of s t r] Cons.prems(1) that by simp
  ultimately show ?case by (cases x) auto
qed simp

section \<open>Properties\<close>

definition fresh_ledger :: "(write_step \<times> string) option list \<Rightarrow> json_action_store" where
  "fresh_ledger faults =
     \<lparr>jas_poisoned = False, jas_store = \<lparr>js_file = Absent, js_faults = faults\<rparr>,
      jas_state = ledger_default\<lparr>lg_version := 1\<rparr>\<rparr>"

lemma fresh_ledger_inv: "jas.store_inv (fresh_ledger faults)"
  by (simp add: jas.store_inv_def fresh_ledger_def ledger_views ledger_default_def)

text \<open>Whatever operations reach the ledger in whatever order, and whichever of its writes fail, an
  active transaction is never in a terminal phase, is the last entry of its target's audit list, and
  has its idempotency key recorded, as has every audited record.\<close>

theorem ledger_invariant:
  assumes "\<forall>x \<in> set xs. op_claims_prepared x"
  shows "let s = ledger_run xs (fresh_ledger faults) in
    (\<forall>t r. ledger_active s t = Some r \<longrightarrow>
       \<not> is_terminal (ar_phase r) \<and> ledger_audit s t \<noteq> [] \<and> last (ledger_audit s t) = r \<and>
       idempotency_key r \<in> ledger_keys s) \<and>
    (\<forall>t. \<forall>r \<in> set (ledger_audit s t). idempotency_key r \<in> ledger_keys s)"
  using jas.store_steps_inv [OF ledger_run_steps [OF assms] fresh_ledger_inv]
  by (simp add: jas.store_inv_def Let_def)

definition example_owner :: owner_identity where
  "example_owner = \<lparr>owner_pid = 7, owner_start_time = 9, owner_nonce = ''n''\<rparr>"

definition example_record :: action_record where
  "example_record = record_prepared ''a'' ''w:a:fp'' ''w'' example_owner 0 30000 ''id'' ''fp'' ''{}''"

definition example_ops :: "ledger_op list" where
  "example_ops = [Claim ''w'' example_record, Claim ''w'' example_record,
     Append ''w'' (record_next Begun ''commit boundary entered'' example_record)]"

theorem ledger_invariant_witness:
  "ledger_active (ledger_run example_ops (fresh_ledger [])) ''w'' =
     Some (last (ledger_audit (ledger_run example_ops (fresh_ledger [])) ''w''))"
proof -
  let ?s = "ledger_run example_ops (fresh_ledger [])"
  have claims: "\<forall>x \<in> set example_ops. op_claims_prepared x"
    by (simp add: example_ops_def example_record_def)
  have act: "ledger_active ?s ''w'' = Some (record_next Begun ''commit boundary entered'' example_record)"
    by (simp add: example_ops_def fresh_ledger_def ledger_default_def claim_prepared_def jas_append_def
        Let_def bt_contains_def jas_commit_def js_write_def audit_extend_def ledger_views
        example_record_def)
  show ?thesis
    using ledger_invariant [OF claims, of "[]"] act by (auto simp: Let_def)
qed

text \<open>An idempotency key is claimed at most once in the life of a ledger: over any sequence of
  operations, from any state, at most one claim of the key succeeds.\<close>

theorem key_claimed_at_most_once:
  assumes "\<forall>x \<in> set xs. op_claims_prepared x"
  shows "claims_of_key k xs s \<le> 1"
  using assms
proof (induction xs arbitrary: s)
  case (Cons x xs)
  show ?case
  proof (cases "\<exists>t r. x = Claim t r \<and> idempotency_key r = k \<and> fst (claim_prepared t r s) = Inr True")
    case True
    then obtain t r where x: "x = Claim t r" "idempotency_key r = k"
        "claim_prepared t r s = (Inr True, ledger_apply x s)"
      by (auto simp: prod_eq_iff)
    then have "k \<in> ledger_keys (ledger_apply x s)"
      using jas.claim_ok [OF x(3)] by simp
    then have "claims_of_key k xs (ledger_apply x s) = 0"
      using Cons.prems by (simp add: claims_of_taken_key)
    with x show ?thesis by simp
  next
    case False
    then have "claims_of_key k (x # xs) s = claims_of_key k xs (ledger_apply x s)"
      by (cases x) auto
    with Cons show ?thesis by simp
  qed
qed simp

theorem key_claimed_at_most_once_witness:
  "claims_of_key ''w:a:fp'' example_ops (fresh_ledger []) \<le> 1"
  by (rule key_claimed_at_most_once) (simp add: example_ops_def example_record_def)

text \<open>The audit list of a target only grows: no operation, failed or not, drops, reorders or rewrites
  what was recorded.\<close>

theorem audit_append_only:
  assumes "\<forall>x \<in> set xs. op_claims_prepared x"
  shows "\<exists>new. ledger_audit (ledger_run xs s) t = ledger_audit s t @ new"
  using jas.store_steps_grow [OF ledger_run_steps [OF assms]] by blast

theorem audit_append_only_witness:
  "\<exists>new. ledger_audit (ledger_run example_ops (fresh_ledger [])) ''w'' =
     ledger_audit (fresh_ledger []) ''w'' @ new"
  by (rule audit_append_only) (simp add: example_ops_def example_record_def)

text \<open>What a restart would load: the state in memory, when no write failed after its rename.\<close>

definition ledger_synced :: "json_action_store \<Rightarrow> bool" where
  "ledger_synced s \<longleftrightarrow> lg_version (jas_state s) = 1 \<and> js_atomic (jas_store s) \<and>
     (js_file (jas_store s) = Holds (jas_state s) \<or>
      js_file (jas_store s) = Absent \<and> jas_state s = ledger_default\<lparr>lg_version := 1\<rparr>)"

lemma jas_commit_synced:
  assumes "ledger_synced s" "lg_version l = 1"
  shows "ledger_synced (snd (jas_commit l x s))"
proof (cases "js_write l (jas_store s)")
  case (Pair res st)
  show ?thesis
  proof (cases res)
    case (Inl e)
    with Pair assms show ?thesis
      using js_write_atomic [of "jas_store s" l e st] by (auto simp: jas_commit_def ledger_synced_def)
  next
    case (Inr u)
    with Pair assms show ?thesis
      using js_write_atomic_ok [of "jas_store s" l u st] js_write_ok [of l "jas_store s" u st]
      by (auto simp: jas_commit_def ledger_synced_def)
  qed
qed

lemma ledger_apply_synced: "ledger_synced s \<Longrightarrow> ledger_synced (ledger_apply x s)"
proof (cases x)
  case (Claim t r)
  assume "ledger_synced s"
  moreover from this have "lg_version (jas_state s) = 1" by (simp add: ledger_synced_def)
  ultimately show ?thesis
    using Claim by (simp add: claim_prepared_def Let_def jas_commit_synced)
next
  case (Append t r)
  assume "ledger_synced s"
  moreover from this have "lg_version (jas_state s) = 1" by (simp add: ledger_synced_def)
  ultimately show ?thesis
    using Append by (simp add: jas_append_def Let_def jas_commit_synced split: option.split)
next
  case (EscalateUncertain t r reason)
  assume "ledger_synced s"
  moreover from this have "lg_version (jas_state s) = 1" by (simp add: ledger_synced_def)
  ultimately show ?thesis
    using EscalateUncertain
    by (simp add: escalate_uncertain_def Let_def jas_commit_synced split: option.split prod.split)
qed

text \<open>C31: A crash loses nothing that was acknowledged: as long as no write fails between its rename and
  the directory sync, reloading the file after any sequence of operations (with any other write
  failures) yields exactly the ledger the daemon had in memory.\<close>

theorem ledger_survives_restart:
  assumes "\<forall>e. Some (SyncDirectory, e) \<notin> set faults"
  shows "map_option jas_state
      (case jas_load (jas_store (ledger_run xs (fresh_ledger faults))) of Inl _ \<Rightarrow> None | Inr s \<Rightarrow> Some s) =
    Some (jas_state (ledger_run xs (fresh_ledger faults)))"
proof -
  have "ledger_synced s \<Longrightarrow> ledger_synced (ledger_run xs s)" for s
    by (induction xs arbitrary: s) (simp_all add: ledger_apply_synced)
  moreover have "ledger_synced (fresh_ledger faults)"
    using assms by (simp add: ledger_synced_def fresh_ledger_def js_atomic_def ledger_default_def)
  ultimately have "ledger_synced (ledger_run xs (fresh_ledger faults))" .
  then show ?thesis by (auto simp: ledger_synced_def jas_load_def)
qed

theorem ledger_survives_restart_witness:
  "map_option jas_state
      (case jas_load (jas_store (ledger_run example_ops (fresh_ledger [None, Some (SyncTemporary, ''io'')])))
         of Inl _ \<Rightarrow> None | Inr s \<Rightarrow> Some s) =
    Some (jas_state (ledger_run example_ops (fresh_ledger [None, Some (SyncTemporary, ''io'')])))"
  by (rule ledger_survives_restart) simp

text \<open>Why the directory sync is excluded above: when it fails, the store reports an error although the
  new content is in place. There is a run in which escalating an uncertain outcome fails, the memory
  keeps the active record, and a restart still finds the hand-off on disk and nothing active.\<close>

theorem failed_escalation_may_reach_disk:
  "\<exists>s s1 s2. s = ledger_run example_ops (fresh_ledger [None, None, Some (SyncDirectory, ''io'')]) \<and>
     escalate_uncertain ''w'' (record_next Begun ''commit boundary entered'' example_record) ''lost'' s =
       (Inl ''io'', s1) \<and>
     ledger_active s1 ''w'' \<noteq> None \<and> jas_load (jas_store s1) = Inr s2 \<and> ledger_active s2 ''w'' = None"
  by (simp add: example_ops_def fresh_ledger_def ledger_default_def claim_prepared_def jas_append_def
      Let_def bt_contains_def jas_commit_def js_write_def audit_extend_def ledger_views
      example_record_def escalate_uncertain_def uncertain_pair_def jas_load_def bt_remove.simps)

end
