(* ===== verification/Transaction.thy ===== *)
theory Transaction
  imports Watcher_State Actuator Action_Store
begin

text \<open>
  One recovery transaction (\<open>src/src/recovery/transaction.rs\<close>): revalidate, authorise, claim, cross the
  commit boundary, execute, and verify, with every failure written to the ledger before it is
  reported. The traits the transaction is generic in (store, evidence reader, executor, clock) are the
  fields of \<open>txn_env\<close>, functions on a world; \<open>serde_json\<close> and the derived \<open>Debug\<close> enter as the
  functions that render a snapshot and an output.
\<close>

section \<open>Evidence and context\<close>

record live_evidence =
  le_identity :: string
  le_target_revalidated :: bool
  le_process_alive :: bool
  le_pane_matches :: bool
  le_evidence_current :: bool
  le_composer_safe :: bool
  le_human_intervened :: bool
  le_event :: event

text \<open>
  \<open>PersistedEvidenceReader\<close>: the first read is the durable baseline, every later one is live. The flag
  is the reader's atomic boolean.
\<close>

definition persisted_read ::
  "live_evidence \<Rightarrow> ('w \<Rightarrow> (string, live_evidence) result \<times> 'w)
     \<Rightarrow> bool \<times> 'w \<Rightarrow> (string, live_evidence) result \<times> (bool \<times> 'w)" where
  "persisted_read persisted live st =
     (case st of (seeded, w) \<Rightarrow>
        if \<not> seeded then (Inr persisted, (True, w))
        else (case live w of (r, w') \<Rightarrow> (r, (True, w'))))"

record recovery_context =
  rc_attempts_remaining :: u32
  rc_cumulative_wait_remaining_seconds :: u64
  rc_planner_calls_remaining :: u32
  rc_planner_concurrency_available :: bool
  rc_cooldown_ready :: bool
  rc_session_id :: "string option"
  rc_failed_provider_family :: "string option"
  rc_planner_provider_family :: "string option"

definition recovery_context_from_watcher ::
  "watcher_state \<Rightarrow> u64 \<Rightarrow> (string, recovery_context) result" where
  "recovery_context_from_watcher watcher now =
     rbind (ok_or ''missing recovery machine'' (ws_recovery watcher)) (\<lambda>machine.
     rbind (ok_or ''missing current evidence'' (ws_last_observation watcher)) (\<lambda>event.
     if \<not> (rm_state machine = recovery_state.Confirmed \<or> rm_state machine = recovery_state.Acting)
        \<or> \<not> is_actionable (ev_category event)
     then Inl ''recovery is not confirmed''
     else let b = rm_budget machine in
       Inr \<lparr>rc_attempts_remaining = sat_sub (max_attempts b) (rm_attempts machine),
            rc_cumulative_wait_remaining_seconds =
              dur_as_secs (dur_sat_sub (max_cumulative_wait b) (rm_cumulative_wait machine)),
            rc_planner_calls_remaining = sat_sub (budget_planner_calls b) (rm_planner_calls machine),
            rc_planner_concurrency_available = False,
            rc_cooldown_ready =
              (rm_state machine = recovery_state.Acting \<or>
               (case rm_last_attempt_mono machine of None \<Rightarrow> True
                | Some prev \<Rightarrow> dur_as_secs (cooldown b) \<le> sat_sub now prev)),
            rc_session_id = ev_session_id event,
            rc_failed_provider_family = ev_provider_family event,
            rc_planner_provider_family = None\<rparr>))"

section \<open>Errors\<close>

datatype txn_error =
    Duplicate | ActiveOwner | Revalidation string | PolicyDenied string | Execution string
  | VerificationFailed | UncertainOutcome string | Store string

fun txn_error_display :: "txn_error \<Rightarrow> string" where
  "txn_error_display Duplicate = ''duplicate or in-flight action''"
| "txn_error_display ActiveOwner = ''active transaction owner is still alive''"
| "txn_error_display (Revalidation e) = ''live state changed: '' @ e"
| "txn_error_display (PolicyDenied e) = ''policy denied action: '' @ e"
| "txn_error_display (Execution e) = ''action execution failed: '' @ e"
| "txn_error_display VerificationFailed = ''postcondition verification failed''"
| "txn_error_display (UncertainOutcome e) = ''action outcome is uncertain: '' @ e"
| "txn_error_display (Store e) = ''durable store failed: '' @ e"

section \<open>Conditions\<close>

fun requires_composer :: "action_kind \<Rightarrow> bool" where
  "requires_composer (SendText _) = True"
| "requires_composer (SubmitText _) = True"
| "requires_composer (SendKeys _) = True"
| "requires_composer _ = False"

definition PROGRESS_OUTCOMES :: "string list" where
  "PROGRESS_OUTCOMES =
     [''AGENT_WORKING'', ''AGENT_IDLE'', ''BLOCK_CLEARED'', ''GOAL_ACTIVE_OR_PURSUING'',
      ''AGENT_STATE_IS'', ''MENU_DISMISSED'', ''PROCESS_TERMINATED'']"

definition needs_progress_verification :: "action_kind \<Rightarrow> condition list \<Rightarrow> bool" where
  "needs_progress_verification k outcomes =
     (requires_composer k \<or> list_ex (\<lambda>c. cond_kind c \<in> set PROGRESS_OUTCOMES) outcomes)"

definition action_fingerprint :: "action \<Rightarrow> string" where
  "action_fingerprint a =
     (case find (\<lambda>c. cond_kind c = ''EVIDENCE_FINGERPRINT_MATCHES'') (preconditions a) of
        None \<Rightarrow> [] | Some c \<Rightarrow> (case cond_text c of None \<Rightarrow> [] | Some fp \<Rightarrow> fp))"

text \<open>\<open>metadata.get(key).and_then(Value::as_str)\<close>\<close>

definition meta_text :: "event \<Rightarrow> string \<Rightarrow> string option" where
  "meta_text e key = Option.bind (bt_get (ev_metadata e) key) json_as_str"

definition policy_context_of :: "live_evidence \<Rightarrow> recovery_context \<Rightarrow> string \<Rightarrow> policy_context" where
  "policy_context_of live recovery wall =
     policy_context_safe
       \<lparr>target_revalidated := le_target_revalidated live, process_alive := le_process_alive live,
        pane_matches := le_pane_matches live, evidence_current := le_evidence_current live,
        composer_empty := le_composer_safe live, human_intervened := le_human_intervened live,
        pc_source_rank := source_rank (src_kind (ev_source (le_event live))),
        attempts_remaining := rc_attempts_remaining recovery,
        cumulative_wait_remaining_seconds := rc_cumulative_wait_remaining_seconds recovery,
        planner_calls_remaining := rc_planner_calls_remaining recovery,
        planner_concurrency_available := rc_planner_concurrency_available recovery,
        cooldown_ready := rc_cooldown_ready recovery, pc_session_id := rc_session_id recovery,
        failed_provider_family := rc_failed_provider_family recovery,
        planner_provider_family := rc_planner_provider_family recovery,
        pc_evidence_fingerprint := Some (evidence_fingerprint (le_event live)),
        event_category := Some (to_ascii_uppercase (category_debug (ev_category (le_event live)))),
        agent_state := meta_text (le_event live) ''agent_state'',
        goal_state := meta_text (le_event live) ''goal_state'',
        wall_time_rfc3339 := Some wall,
        claude_resume_session := meta_text (le_event live) ''claude_resume_session''\<rparr>"

definition output_summary :: "(execution_output \<Rightarrow> string) \<Rightarrow> execution_output \<Rightarrow> string" where
  "output_summary debug out =
     (case out of Captured text \<Rightarrow> ''captured '' @ decimal (length text) @ '' bytes'' | other \<Rightarrow> debug other)"

fun no_state_change_output :: "execution_output \<Rightarrow> bool" where
  "no_state_change_output Committed = True"
| "no_state_change_output (Scheduled _) = True"
| "no_state_change_output (Captured _) = True"
| "no_state_change_output (Status _) = True"
| "no_state_change_output Notified = True"
| "no_state_change_output Escalated = True"

definition receipt_outcomes_hold :: "execution_output \<Rightarrow> condition list \<Rightarrow> bool" where
  "receipt_outcomes_hold out outcomes =
     list_all (\<lambda>c.
       if cond_kind c = ''WAIT_STATE_RECORDED'' then (case out of Scheduled _ \<Rightarrow> True | _ \<Rightarrow> False)
       else if cond_kind c = ''HUMAN_NOTIFIED'' then out = Notified
       else if cond_kind c = ''NO_STATE_CHANGE_EXPECTED'' then no_state_change_output out
       else True) outcomes"

definition claude_menu_became_structured_wait :: "live_evidence \<Rightarrow> live_evidence \<Rightarrow> bool" where
  "claude_menu_became_structured_wait prior after =
     (let b = le_event prior; a = le_event after in
      src_kind (ev_source b) = ScreenDetection \<and> source_id (ev_source b) = ''claude''
      \<and> rule_or_field (ev_source b) = ''labelled_wait_menu''
      \<and> src_kind (ev_source a) = Hook \<and> source_id (ev_source a) = ''claude_stop_failure''
      \<and> ev_category a \<in> {UsageLimit, SessionLimit, WeeklyLimit}
      \<and> ev_policy_hint a = WaitAllowed
      \<and> bt_contains (ev_metadata a) ''claude_reset_at'')"

definition verified_claude_progress :: "live_evidence \<Rightarrow> live_evidence \<Rightarrow> condition \<Rightarrow> bool" where
  "verified_claude_progress prior after outcome =
     (case cond_text outcome of
        None \<Rightarrow> False
      | Some session \<Rightarrow>
          source_id (ev_source (le_event after)) = ''claude''
          \<and> ev_category (le_event after) = Working
          \<and> bt_get (ev_metadata (le_event after)) ''claude_post_resume_progress'' = Some (JBool True)
          \<and> meta_text (le_event prior) ''claude_resume_session'' = Some session
          \<and> meta_text (le_event after) ''claude_resume_session'' = Some session
          \<and> observed_at (le_event prior) < observed_at (le_event after))"

definition outcome_holds :: "live_evidence \<Rightarrow> live_evidence \<Rightarrow> condition \<Rightarrow> bool" where
  "outcome_holds prior after outcome =
     (let k = cond_kind outcome; e = le_event after in
      if k = ''AGENT_WORKING'' then ev_category e = Working
      else if k = ''GOAL_ACTIVE_OR_PURSUING'' then
        ev_category e = Working
        \<or> (case meta_text e ''goal_state'' of None \<Rightarrow> False
           | Some state \<Rightarrow> to_ascii_lowercase state = ''active'' \<or> to_ascii_lowercase state = ''pursuing'')
        \<or> bt_get (ev_metadata e) ''codex_post_resume_progress'' = Some (JBool True)
      else if k = ''AGENT_STATE_IS'' then
        (case cond_text outcome of None \<Rightarrow> False
         | Some state \<Rightarrow> state = ''WORKING'' \<and> ev_category e = Working)
      else if k = ''AGENT_IDLE'' then ev_category e = Idle
      else if k = ''BLOCK_CLEARED'' then \<not> is_actionable (ev_category e)
      else if k = ''MENU_DISMISSED'' then
        \<not> is_actionable (ev_category e) \<or> claude_menu_became_structured_wait prior after
      else if k = ''PROCESS_TERMINATED'' then ev_category e = Terminated
      else False)"

definition verified :: "live_evidence \<Rightarrow> live_evidence \<Rightarrow> condition list \<Rightarrow> bool" where
  "verified prior after outcomes =
     (if evidence_fingerprint (le_event after) = evidence_fingerprint (le_event prior) then False
      else if list_ex (\<lambda>c. cond_kind c = ''CLAUDE_PROGRESS'') outcomes then
        list_ex (\<lambda>c. cond_kind c = ''CLAUDE_PROGRESS'' \<and> verified_claude_progress prior after c) outcomes
      else if source_rank (src_kind (ev_source (le_event after)))
                < source_rank (src_kind (ev_source (le_event prior)))
              \<or> f64_lt (ev_confidence (le_event after)) (ev_confidence (le_event prior))
      then False
      else list_ex (outcome_holds prior after) outcomes)"

section \<open>The environment\<close>

record 'w txn_env =
  te_parse :: rfc3339
  te_snapshot :: "live_evidence \<Rightarrow> action \<Rightarrow> (string, string) result"
  te_debug :: "execution_output \<Rightarrow> string"
  te_read :: "'w \<Rightarrow> (string, live_evidence) result \<times> 'w"
  te_read_verification :: "live_evidence \<Rightarrow> 'w \<Rightarrow> (string, live_evidence) result \<times> 'w"
  te_execute :: "action \<Rightarrow> 'w \<Rightarrow> (execution_error, execution_output) result \<times> 'w"
  te_monotonic_ms :: "'w \<Rightarrow> u64 \<times> 'w"
  te_wall :: "'w \<Rightarrow> string \<times> 'w"
  te_sleep :: "u64 \<Rightarrow> 'w \<Rightarrow> 'w"
  te_claim :: "string \<Rightarrow> action_record \<Rightarrow> 'w \<Rightarrow> (string, bool) result \<times> 'w"
  te_append :: "string \<Rightarrow> action_record \<Rightarrow> 'w \<Rightarrow> (string, unit) result \<times> 'w"
  te_escalate :: "string \<Rightarrow> action_record \<Rightarrow> string \<Rightarrow> 'w \<Rightarrow> (string, action_record) result \<times> 'w"
  te_active :: "string \<Rightarrow> 'w \<Rightarrow> (string, action_record option) result \<times> 'w"

type_synonym 'w txn_result = "(txn_error, action_record) result \<times> 'w"

definition LEASE_MS :: u64 where
  "LEASE_MS = 30000"

definition POLL_MS :: u64 where
  "POLL_MS = 100"

section \<open>The steps of a transaction\<close>

definition txn_persist ::
  "'w txn_env \<Rightarrow> string \<Rightarrow> action_record \<Rightarrow> action_phase \<Rightarrow> string \<Rightarrow> 'w \<Rightarrow> 'w txn_result" where
  "txn_persist env t r phase reason w =
     (let nxt = record_next phase reason r in
      case te_append env t nxt w of
        (Inl e, w1) \<Rightarrow> (Inl (Store e), w1)
      | (Inr _, w1) \<Rightarrow> (Inr nxt, w1))"

definition txn_terminate ::
  "'w txn_env \<Rightarrow> string \<Rightarrow> action_record \<Rightarrow> action_phase \<Rightarrow> txn_error \<Rightarrow> 'w \<Rightarrow> 'w txn_result" where
  "txn_terminate env t r phase err w =
     (case te_append env t (record_next phase (txn_error_display err) r) w of
        (Inl e, w1) \<Rightarrow> (Inl (Store e), w1)
      | (Inr _, w1) \<Rightarrow> (Inl err, w1))"

definition txn_uncertain ::
  "'w txn_env \<Rightarrow> string \<Rightarrow> action_record \<Rightarrow> string \<Rightarrow> 'w \<Rightarrow> 'w txn_result" where
  "txn_uncertain env t r reason w =
     (case te_escalate env t r reason w of
        (Inl e, w1) \<Rightarrow> (Inl (Store e), w1)
      | (Inr _, w1) \<Rightarrow> (Inl (UncertainOutcome reason), w1))"

definition evidence_acceptable ::
  "action \<Rightarrow> live_evidence option \<Rightarrow> live_evidence \<Rightarrow> (txn_error, live_evidence) result" where
  "evidence_acceptable a baseline live =
     (if \<not> le_target_revalidated live then Inl (Revalidation ''target was not revalidated'')
      else if \<not> le_process_alive live then Inl (Revalidation ''target process is not alive'')
      else if \<not> le_pane_matches live then Inl (Revalidation ''target pane does not match'')
      else if \<not> le_evidence_current live then Inl (Revalidation ''live evidence is not current'')
      else if le_human_intervened live then Inl (Revalidation ''human intervention'')
      else if requires_composer (act_kind a) \<and> \<not> le_composer_safe live
        then Inl (Revalidation ''composer unsafe'')
      else if evidence_fingerprint (le_event live) \<noteq> action_fingerprint a
        then Inl (Revalidation ''evidence fingerprint changed'')
      else if list_ex (\<lambda>c. cond_kind c = ''CLAUDE_RESUME_SESSION''
                \<and> cond_text c \<noteq> meta_text (le_event live) ''claude_resume_session'') (preconditions a)
        then Inl (Revalidation ''Claude resume session changed'')
      else if (case baseline of None \<Rightarrow> False | Some old \<Rightarrow>
                 le_identity old \<noteq> le_identity live
                 \<or> ev_source (le_event old) \<noteq> ev_source (le_event live)
                 \<or> \<not> f64_eq (ev_confidence (le_event old)) (ev_confidence (le_event live)))
        then Inl (Revalidation ''identity or evidence source changed'')
      else Inr live)"

definition txn_revalidate ::
  "'w txn_env \<Rightarrow> action \<Rightarrow> live_evidence option \<Rightarrow> 'w \<Rightarrow> (txn_error, live_evidence) result \<times> 'w" where
  "txn_revalidate env a baseline w =
     (case te_read env w of
        (Inl e, w1) \<Rightarrow> (Inl (Store e), w1)
      | (Inr live, w1) \<Rightarrow> (evidence_acceptable a baseline live, w1))"

text \<open>The verification loop polls until it decides; it need not end if the clock stands still.\<close>

partial_function (option) verify_loop ::
  "'w txn_env \<Rightarrow> string \<Rightarrow> action \<Rightarrow> live_evidence \<Rightarrow> action_record \<Rightarrow> u64 \<Rightarrow> 'w \<Rightarrow> 'w txn_result option"
  where
  "verify_loop env t a baseline r deadline w =
     (case te_read_verification env baseline w of
        (Inl e, w1) \<Rightarrow>
          Some (txn_uncertain env t r (''verification evidence unavailable: '' @ e) w1)
      | (Inr after, w1) \<Rightarrow>
          if le_human_intervened after \<or> le_identity after \<noteq> le_identity baseline
          then Some (txn_uncertain env t r
            ''human intervention or identity contradiction during verification'' w1)
          else if verified baseline after (expected_outcomes a)
          then Some (txn_persist env t r Succeeded ''canonical expected outcome verified'' w1)
          else (case te_monotonic_ms env w1 of (now, w2) \<Rightarrow>
            if deadline \<le> now
            then Some (txn_uncertain env t r ''verification timed out after possible side effect'' w2)
            else verify_loop env t a baseline r deadline (te_sleep env POLL_MS w2)))"

declare verify_loop.simps [code]

text \<open>From the executor's output to the end of the transaction.\<close>

definition txn_after_execute ::
  "'w txn_env \<Rightarrow> string \<Rightarrow> action \<Rightarrow> live_evidence \<Rightarrow> action_record \<Rightarrow> execution_output \<Rightarrow> 'w
     \<Rightarrow> 'w txn_result option" where
  "txn_after_execute env t a baseline r out w =
     (let r1 = r\<lparr>ar_output := Some (output_summary (te_debug env) out)\<rparr> in
      case txn_persist env t r1 Sent ''executor completed action unit'' w of
        (Inl err, w1) \<Rightarrow>
          Some (txn_uncertain env t r1
            (''could not durably record a possible side effect: '' @ txn_error_display err) w1)
      | (Inr r2, w1) \<Rightarrow>
          if \<not> receipt_outcomes_hold out (expected_outcomes a)
          then Some (txn_uncertain env t r2 ''executor did not return the canonical outcome receipt'' w1)
          else if \<not> needs_progress_verification (act_kind a) (expected_outcomes a)
          then Some (txn_persist env t r2 Succeeded ''non-input action completed durably'' w1)
          else (case txn_persist env t r2 Verifying ''polling canonical expected outcomes'' w1 of
              (Inl err, w2) \<Rightarrow>
                Some (txn_uncertain env t r2
                  (''could not durably begin verification after possible side effect: ''
                     @ txn_error_display err) w2)
            | (Inr r3, w2) \<Rightarrow>
                (case te_monotonic_ms env w2 of (now, w3) \<Rightarrow>
                   verify_loop env t a baseline r3
                     (sat_add now (sat_mul (timeout_seconds a) 1000)) w3)))"

text \<open>From the claim to the end of the transaction.\<close>

definition txn_commit ::
  "'w txn_env \<Rightarrow> string \<Rightarrow> action \<Rightarrow> live_evidence \<Rightarrow> live_evidence \<Rightarrow> action_record \<Rightarrow> 'w
     \<Rightarrow> 'w txn_result option" where
  "txn_commit env t a baseline confirmed r w =
     (case te_claim env t r w of
        (Inl e, w1) \<Rightarrow> Some (Inl (Store e), w1)
      | (Inr False, w1) \<Rightarrow> Some (Inl Duplicate, w1)
      | (Inr True, w1) \<Rightarrow>
          (case txn_revalidate env a (Some confirmed) w1 of
             (Inl err, w2) \<Rightarrow> Some (txn_terminate env t r Failed err w2)
           | (Inr _, w2) \<Rightarrow>
               (case txn_persist env t r Begun ''commit boundary entered'' w2 of
                  (Inl err, w3) \<Rightarrow> Some (Inl err, w3)
                | (Inr r1, w3) \<Rightarrow>
                    (case te_execute env a w3 of
                       (Inl (PossibleSideEffect reason), w4) \<Rightarrow> Some (txn_uncertain env t r1 reason w4)
                     | (Inl err, w4) \<Rightarrow>
                         Some (txn_terminate env t r1 Failed (Execution (execution_error_display err)) w4)
                     | (Inr out, w4) \<Rightarrow> txn_after_execute env t a baseline r1 out w4))))"

definition txn_key :: "string \<Rightarrow> action \<Rightarrow> live_evidence \<Rightarrow> string" where
  "txn_key t a baseline =
     t @ '':'' @ action_id a @ '':'' @ evidence_fingerprint (le_event baseline)"

definition txn_run ::
  "'w txn_env \<Rightarrow> string \<Rightarrow> owner_identity \<Rightarrow> action \<Rightarrow> recovery_context \<Rightarrow> 'w \<Rightarrow> 'w txn_result option" where
  "txn_run env t owner a recovery w =
     (case validate_action (te_parse env) a of
        Inl e \<Rightarrow> Some (Inl (Execution (execution_error_display e)), w)
      | Inr _ \<Rightarrow>
     (case txn_revalidate env a None w of
        (Inl err, w1) \<Rightarrow> Some (Inl err, w1)
      | (Inr baseline, w1) \<Rightarrow>
     (case te_wall env w1 of (wall, w2) \<Rightarrow>
     (case authorize (te_parse env) a (policy_context_of baseline recovery wall) of
        Inl e \<Rightarrow> Some (Inl (PolicyDenied e), w2)
      | Inr _ \<Rightarrow>
     (case txn_revalidate env a (Some baseline) w2 of
        (Inl err, w3) \<Rightarrow> Some (Inl err, w3)
      | (Inr confirmed, w3) \<Rightarrow>
     (case te_monotonic_ms env w3 of (now, w4) \<Rightarrow>
     (case te_snapshot env baseline a of
        Inl e \<Rightarrow> Some (Inl (Store e), w4)
      | Inr snapshot \<Rightarrow>
          txn_commit env t a baseline confirmed
            (record_prepared (action_id a) (txn_key t a baseline) t owner now
               (sat_add now LEASE_MS) (le_identity baseline)
               (evidence_fingerprint (le_event baseline)) snapshot) w4)))))))"

section \<open>Recovery of interrupted transactions\<close>

definition recovery_record :: "string \<Rightarrow> string \<Rightarrow> action_record \<Rightarrow> action_record" where
  "recovery_record prepared_reason other_reason r =
     (if ar_phase r = Prepared then record_next Failed prepared_reason r
      else record_next HumanRequired other_reason r)"

definition recover_after_restart ::
  "'w txn_env \<Rightarrow> string \<Rightarrow> 'w \<Rightarrow> (txn_error, action_record option) result \<times> 'w" where
  "recover_after_restart env t w =
     (case te_active env t w of
        (Inl e, w1) \<Rightarrow> (Inl (Store e), w1)
      | (Inr None, w1) \<Rightarrow> (Inr None, w1)
      | (Inr (Some r), w1) \<Rightarrow>
          (let fin = recovery_record ''restart cancelled prepared action before side effect''
                 ''restart found action after commit boundary; blind retry forbidden'' r in
           case te_append env t fin w1 of
             (Inl e, w2) \<Rightarrow> (Inl (Store e), w2)
           | (Inr _, w2) \<Rightarrow> (Inr (Some fin), w2)))"

definition recover_stale ::
  "'w txn_env \<Rightarrow> (owner_identity \<Rightarrow> bool) \<Rightarrow> string \<Rightarrow> 'w
     \<Rightarrow> (txn_error, action_record option) result \<times> 'w" where
  "recover_stale env probe t w =
     (case te_active env t w of
        (Inl e, w1) \<Rightarrow> (Inl (Store e), w1)
      | (Inr None, w1) \<Rightarrow> (Inr None, w1)
      | (Inr (Some r), w1) \<Rightarrow>
          (case te_monotonic_ms env w1 of (now, w2) \<Rightarrow>
             if now \<le> lease_deadline_ms r \<or> probe (ar_owner r) then (Inl ActiveOwner, w2)
             else
               (let why = ''expired lease owned by a different pid/start identity'';
                    fin = recovery_record why why r in
                case te_append env t fin w2 of
                  (Inl e, w3) \<Rightarrow> (Inl (Store e), w3)
                | (Inr _, w3) \<Rightarrow> (Inr (Some fin), w3))))"

end
