(* ===== verification/Transaction_Safety.thy ===== *)
theory Transaction_Safety
  imports Transaction
begin

text \<open>
  What a transaction guarantees over any environment that keeps its contract: the store is an action
  store, reads and clocks do not touch it, and the only thing that acts on the target is the executor.
  The contract is the locale \<open>transaction_env\<close>, an extension of \<open>action_store\<close>. The world of
  this theory's second half runs the transaction on the JSON ledger with scripted evidence, executor
  and clock, and interprets the locale; the properties are about that world, for every script.
\<close>

section \<open>The contract\<close>

text \<open>
  \<open>sent_of\<close> is the history of executions: each with the active records at the moment it happened
  and with what the executor answered.
\<close>

type_synonym execution =
  "action \<times> (string \<Rightarrow> action_record option) \<times> (execution_error, execution_output) result"

locale transaction_env =
  action_store "te_claim env" "te_append env" "te_escalate env" active_of audit_of keys_of
  for env :: "'w txn_env"
    and active_of :: "'w \<Rightarrow> string \<Rightarrow> action_record option"
    and audit_of :: "'w \<Rightarrow> string \<Rightarrow> action_record list"
    and keys_of :: "'w \<Rightarrow> string set" +
  fixes sent_of :: "'w \<Rightarrow> execution list"
  assumes read_frame:
      "te_read env w = (res, w') \<Longrightarrow>
         active_of w' = active_of w \<and> audit_of w' = audit_of w \<and> keys_of w' = keys_of w \<and>
         sent_of w' = sent_of w"
    and read_verification_frame:
      "te_read_verification env b w = (res, w') \<Longrightarrow>
         active_of w' = active_of w \<and> audit_of w' = audit_of w \<and> keys_of w' = keys_of w \<and>
         sent_of w' = sent_of w"
    and monotonic_frame:
      "te_monotonic_ms env w = (now, w') \<Longrightarrow>
         active_of w' = active_of w \<and> audit_of w' = audit_of w \<and> keys_of w' = keys_of w \<and>
         sent_of w' = sent_of w"
    and wall_frame:
      "te_wall env w = (wall, w') \<Longrightarrow>
         active_of w' = active_of w \<and> audit_of w' = audit_of w \<and> keys_of w' = keys_of w \<and>
         sent_of w' = sent_of w"
    and sleep_frame:
      "active_of (te_sleep env d w) = active_of w" "audit_of (te_sleep env d w) = audit_of w"
      "keys_of (te_sleep env d w) = keys_of w" "sent_of (te_sleep env d w) = sent_of w"
    and execute_frame:
      "te_execute env a w = (out, w') \<Longrightarrow>
         active_of w' = active_of w \<and> audit_of w' = audit_of w \<and> keys_of w' = keys_of w \<and>
         sent_of w' = sent_of w @ [(a, active_of w, out)]"
    and active_read:
      "te_active env t w = (Inr act, w') \<Longrightarrow> act = active_of w t"
    and active_frame:
      "te_active env t w = (ares, w') \<Longrightarrow>
         active_of w' = active_of w \<and> audit_of w' = audit_of w \<and> keys_of w' = keys_of w \<and>
         sent_of w' = sent_of w"
    and claim_sent: "te_claim env t r w = (cres, w') \<Longrightarrow> sent_of w' = sent_of w"
    and app_sent: "te_append env t r w = (pres, w') \<Longrightarrow> sent_of w' = sent_of w"
    and escalate_sent: "te_escalate env t r reason w = (eres, w') \<Longrightarrow> sent_of w' = sent_of w"
begin

text \<open>How a transaction can leave its target, once its record \<open>r\<close> was claimed.\<close>

definition settled :: "string \<Rightarrow> 'w \<Rightarrow> bool" where
  "settled t w \<longleftrightarrow> active_of w t = None \<and> audit_of w t \<noteq> [] \<and> is_terminal (ar_phase (last (audit_of w t)))"

definition pending :: "string \<Rightarrow> string \<Rightarrow> 'w \<Rightarrow> bool" where
  "pending t key w \<longleftrightarrow> (\<exists>r. active_of w t = Some r \<and> idempotency_key r = key)"

text \<open>The result and the ledger agree.\<close>

definition agrees :: "string \<Rightarrow> string \<Rightarrow> (txn_error, action_record) result \<Rightarrow> 'w \<Rightarrow> bool" where
  "agrees t key res w \<longleftrightarrow>
     (case res of
        Inr r \<Rightarrow> settled t w \<and> ar_phase r = Succeeded \<and> last (audit_of w t) = r
      | Inl (Store e) \<Rightarrow>
          settled t w \<and> ar_phase (last (audit_of w t)) = Failed \<or> pending t key w
      | Inl (UncertainOutcome e) \<Rightarrow> settled t w \<and> ar_phase (last (audit_of w t)) = HumanRequired
      | Inl e \<Rightarrow> settled t w \<and> ar_phase (last (audit_of w t)) = Failed)"

text \<open>Neither the result nor the ledger claims that nothing happened.\<close>

definition undenied :: "string \<Rightarrow> (txn_error, action_record) result \<Rightarrow> 'w \<Rightarrow> bool" where
  "undenied t res w \<longleftrightarrow>
     ((\<exists>r. res = Inr r) \<or> (\<exists>e. res = Inl (UncertainOutcome e)) \<or> (\<exists>e. res = Inl (Store e))) \<and>
     (settled t w \<longrightarrow> ar_phase (last (audit_of w t)) \<noteq> Failed)"

lemma persist_cases:
  assumes "txn_persist env t r phase reason w = (res, w')"
  obtains (stored) "res = Inr (record_next phase reason r)" "sent_of w' = sent_of w" "keys_of w' = keys_of w"
      "active_of w' = (active_of w)(t := if is_terminal phase then None else Some (record_next phase reason r))"
      "audit_of w' = (audit_of w)(t := audit_of w t @ [record_next phase reason r])"
  | (failed) e where "res = Inl (Store e)" "sent_of w' = sent_of w" "keys_of w' = keys_of w" "active_of w' = active_of w"
      "audit_of w' = audit_of w"
proof (cases "te_append env t (record_next phase reason r) w")
  case (Pair pres w1)
  have sent: "sent_of w1 = sent_of w" by (rule app_sent [OF Pair])
  show ?thesis
  proof (cases pres)
    case (Inl e)
    with Pair assms sent app_err [of t "record_next phase reason r" w e w1] show ?thesis
      by (auto simp: txn_persist_def intro: failed)
  next
    case (Inr u)
    with Pair assms sent app_ok [of t "record_next phase reason r" w u w1] show ?thesis
      by (auto simp: txn_persist_def intro: stored)
  qed
qed

lemma uncertain_agrees:
  assumes "txn_uncertain env t r reason w = (res, w')" "pending t (idempotency_key r) w"
  shows "agrees t (idempotency_key r) res w' \<and> undenied t res w' \<and>
     sent_of w' = sent_of w \<and> keys_of w' = keys_of w"
proof (cases "te_escalate env t r reason w")
  case (Pair eres w1)
  have sent: "sent_of w1 = sent_of w" by (rule escalate_sent [OF Pair])
  show ?thesis
  proof (cases eres)
    case (Inl e)
    with Pair assms sent escalate_err [of t r reason w e w1] show ?thesis
      by (auto simp: txn_uncertain_def agrees_def pending_def undenied_def settled_def)
  next
    case (Inr h)
    with Pair assms sent escalate_ok [of t r reason w h w1] show ?thesis
      by (auto simp: txn_uncertain_def agrees_def settled_def uncertain_pair_fields undenied_def)
  qed
qed

lemma terminate_agrees:
  assumes "txn_terminate env t r Failed err w = (res, w')" "pending t (idempotency_key r) w"
    and "\<forall>e. err \<noteq> UncertainOutcome e"
  shows "agrees t (idempotency_key r) res w' \<and> sent_of w' = sent_of w \<and> keys_of w' = keys_of w"
proof (cases "te_append env t (record_next Failed (txn_error_display err) r) w")
  case (Pair pres w1)
  have sent: "sent_of w1 = sent_of w" by (rule app_sent [OF Pair])
  show ?thesis
  proof (cases pres)
    case (Inl e)
    with Pair assms sent app_err [of t "record_next Failed (txn_error_display err) r" w e w1]
    show ?thesis by (auto simp: txn_terminate_def agrees_def pending_def)
  next
    case (Inr u)
    with Pair assms sent app_ok [of t "record_next Failed (txn_error_display err) r" w u w1]
    show ?thesis
      by (cases err) (auto simp: txn_terminate_def agrees_def settled_def)
  qed
qed

lemma persist_succeeded_agrees:
  assumes "txn_persist env t r Succeeded reason w = (res, w')" "pending t (idempotency_key r) w"
  shows "agrees t (idempotency_key r) res w' \<and> undenied t res w' \<and>
     sent_of w' = sent_of w \<and> keys_of w' = keys_of w"
  using assms(1)
proof (cases rule: persist_cases)
  case stored
  then show ?thesis by (simp add: agrees_def settled_def undenied_def)
next
  case (failed e)
  with assms(2) show ?thesis by (auto simp: agrees_def pending_def undenied_def settled_def)
qed

lemma pending_frame:
  "active_of w' = active_of w \<Longrightarrow> pending t key w' = pending t key w"
  by (simp add: pending_def)

text \<open>The loop, by fixpoint induction: if it ends, the result and the ledger agree.\<close>

lemma verify_loop_agrees:
  assumes "verify_loop env t a baseline r deadline w = Some (res, w')"
    and "pending t (idempotency_key r) w"
  shows "agrees t (idempotency_key r) res w' \<and> undenied t res w' \<and>
     sent_of w' = sent_of w \<and> keys_of w' = keys_of w"
proof -
  have "pending t (idempotency_key r) w \<longrightarrow>
      agrees t (idempotency_key r) (fst out) (snd out) \<and> undenied t (fst out) (snd out) \<and>
        sent_of (snd out) = sent_of w \<and>
        keys_of (snd out) = keys_of w"
    if "verify_loop env t a baseline r deadline w = Some out" for out
  proof (rule verify_loop.raw_induct [OF _ that, where P = "\<lambda>env' t' a' b' r' d' w out.
        env' = env \<longrightarrow> pending t' (idempotency_key r') w \<longrightarrow>
        agrees t' (idempotency_key r') (fst out) (snd out) \<and> undenied t' (fst out) (snd out) \<and>
        sent_of (snd out) = sent_of w \<and>
        keys_of (snd out) = keys_of w",
        THEN mp, OF _ refl], intro impI, hypsubst)
    fix f t a baseline r deadline w out
    assume IH: "\<And>env' t' a' b' r' d' w out. f env' t' a' b' r' d' w = Some out \<Longrightarrow>
        env' = env \<longrightarrow> pending t' (idempotency_key r') w \<longrightarrow>
        agrees t' (idempotency_key r') (fst out) (snd out) \<and> undenied t' (fst out) (snd out) \<and>
        sent_of (snd out) = sent_of w \<and>
        keys_of (snd out) = keys_of w"
      and eq: "(case te_read_verification env baseline w of
          (Inl e, w1) \<Rightarrow> Some (txn_uncertain env t r (''verification evidence unavailable: '' @ e) w1)
        | (Inr after, w1) \<Rightarrow>
            if le_human_intervened after \<or> le_identity after \<noteq> le_identity baseline
            then Some (txn_uncertain env t r
              ''human intervention or identity contradiction during verification'' w1)
            else if verified baseline after (expected_outcomes a)
            then Some (txn_persist env t r Succeeded ''canonical expected outcome verified'' w1)
            else (case te_monotonic_ms env w1 of (now, w2) \<Rightarrow>
              if deadline \<le> now
              then Some (txn_uncertain env t r ''verification timed out after possible side effect'' w2)
              else f env t a baseline r deadline (te_sleep env POLL_MS w2))) = Some out"
      and pend: "pending t (idempotency_key r) w"
    obtain rr w1 where rd: "te_read_verification env baseline w = (rr, w1)" by fastforce
    obtain now w2 where mono: "te_monotonic_ms env w1 = (now, w2)" by fastforce
    note fr = read_verification_frame [OF rd] monotonic_frame [OF mono]
    have p1: "pending t (idempotency_key r) w1" and p2: "pending t (idempotency_key r) w2"
      using fr pend by (simp_all add: pending_def)
    have p3: "pending t (idempotency_key r) (te_sleep env POLL_MS w2)"
      using p2 by (simp add: pending_def sleep_frame)
    show "agrees t (idempotency_key r) (fst out) (snd out) \<and> undenied t (fst out) (snd out) \<and>
        sent_of (snd out) = sent_of w \<and>
        keys_of (snd out) = keys_of w"
      using eq rd mono fr IH [of env t a baseline r deadline "te_sleep env POLL_MS w2" out] p3
        uncertain_agrees [OF prod.collapse [symmetric] p1]
        uncertain_agrees [OF prod.collapse [symmetric] p2]
        persist_succeeded_agrees [OF prod.collapse [symmetric] p1]
      by (auto simp: sleep_frame split: sum.splits if_splits)
  qed
  from this [OF assms(1)] assms(2) show ?thesis by simp
qed

lemma persist_pending:
  assumes "txn_persist env t r phase reason w = (Inr r', w')" "\<not> is_terminal phase"
  shows "pending t (idempotency_key r) w'" "r' = record_next phase reason r"
    "sent_of w' = sent_of w" "keys_of w' = keys_of w" "active_of w' t = Some r'" "idempotency_key r' = idempotency_key r"
  using assms(1) by (cases rule: persist_cases; use assms(2) in \<open>auto simp: pending_def\<close>)+

lemma persist_error:
  assumes "txn_persist env t r phase reason w = (Inl err, w')"
  shows "(\<exists>e. err = Store e) \<and> sent_of w' = sent_of w \<and> keys_of w' = keys_of w \<and> active_of w' = active_of w \<and>
    audit_of w' = audit_of w"
  using assms by (cases rule: persist_cases) auto

lemma after_execute_agrees:
  assumes run: "txn_after_execute env t a baseline r out w = Some (res, w')"
    and pend: "pending t (idempotency_key r) w"
  shows "agrees t (idempotency_key r) res w' \<and> undenied t res w' \<and>
     sent_of w' = sent_of w \<and> keys_of w' = keys_of w"
proof -
  define r1 where "r1 = r\<lparr>ar_output := Some (output_summary (te_debug env) out)\<rparr>"
  have key: "idempotency_key r1 = idempotency_key r" by (simp add: r1_def)
  obtain s1 w1 where p1: "txn_persist env t r1 Sent ''executor completed action unit'' w = (s1, w1)"
    by fastforce
  note run1 = run [unfolded txn_after_execute_def Let_def, folded r1_def, unfolded p1]
  show ?thesis
  proof (cases s1)
    case (Inl err)
    have f: "sent_of w1 = sent_of w" "keys_of w1 = keys_of w" "pending t (idempotency_key r1) w1"
      using persist_error [OF p1 [unfolded Inl]] pend key by (auto simp: pending_def)
    from run1 Inl uncertain_agrees [OF _ f(3)] f(1,2) key show ?thesis by simp
  next
    case (Inr r2)
    have r2: "pending t (idempotency_key r2) w1" "sent_of w1 = sent_of w" "keys_of w1 = keys_of w"
        "idempotency_key r2 = idempotency_key r"
      using persist_pending [OF p1 [unfolded Inr]] key by auto
    obtain s2 w2 where p2: "txn_persist env t r2 Verifying ''polling canonical expected outcomes'' w1 = (s2, w2)"
      by fastforce
    obtain now w3 where mono: "te_monotonic_ms env w2 = (now, w3)" by fastforce
    consider (receipt) "\<not> receipt_outcomes_hold out (expected_outcomes a)"
      | (plain) "receipt_outcomes_hold out (expected_outcomes a)"
          "\<not> needs_progress_verification (act_kind a) (expected_outcomes a)"
      | (verify) "receipt_outcomes_hold out (expected_outcomes a)"
          "needs_progress_verification (act_kind a) (expected_outcomes a)" by blast
    then show ?thesis
    proof cases
      case receipt
      with run1 Inr uncertain_agrees [OF _ r2(1)] r2 show ?thesis by simp
    next
      case plain
      with run1 Inr persist_succeeded_agrees [OF _ r2(1)] r2 show ?thesis by simp
    next
      case verify
      show ?thesis
      proof (cases s2)
        case (Inl err)
        have f: "pending t (idempotency_key r2) w2" "sent_of w2 = sent_of w" "keys_of w2 = keys_of w"
          using persist_error [OF p2 [unfolded Inl]] r2 by (auto simp: pending_def)
        from run1 Inr verify p2 Inl uncertain_agrees [OF _ f(1)] f(2,3) r2(4) show ?thesis by simp
      next
        case r3: (Inr r3)
        have "pending t (idempotency_key r3) w2" "sent_of w2 = sent_of w" "keys_of w2 = keys_of w"
          and k3: "idempotency_key r3 = idempotency_key r"
          using persist_pending [OF p2 [unfolded r3]] r2 by auto
        with monotonic_frame [OF mono] have f: "pending t (idempotency_key r3) w3"
            "sent_of w3 = sent_of w" "keys_of w3 = keys_of w"
          by (auto simp: pending_def)
        from run1 Inr verify p2 r3 mono verify_loop_agrees [OF _ f(1)] f(2,3) k3
        show ?thesis by simp
      qed
    qed
  qed
qed

text \<open>From the claim on: either nothing was claimed and the ledger is as it was, or it agrees.\<close>

lemma commit_outcome:
  assumes "txn_commit env t a baseline confirmed r w = Some (res, w')" "ar_phase r = Prepared"
  shows "(sent_of w' = sent_of w \<and> active_of w' = active_of w \<and> audit_of w' = audit_of w \<and> keys_of w' = keys_of w \<and>
        (res = Inl Duplicate \<or> (\<exists>e. res = Inl (Store e)))) \<or>
      (active_of w t = None \<and> idempotency_key r \<notin> keys_of w \<and>
       agrees t (idempotency_key r) res w' \<and>
       keys_of w' = insert (idempotency_key r) (keys_of w) \<and>
       (sent_of w' = sent_of w \<and> (\<forall>x. res \<noteq> Inr x) \<or>
        (\<exists>m b x. sent_of w' = sent_of w @ [(a, m, x)] \<and> m t = Some b \<and> ar_phase b = Begun \<and>
               idempotency_key b = idempotency_key r \<and>
               (undenied t res w' \<or> (\<exists>e. x = Inl (Unsafe e)) \<or> (\<exists>e. x = Inl (Integration e))))))"
proof -
  obtain c w1 where cl: "te_claim env t r w = (c, w1)" by fastforce
  show ?thesis
  proof (cases "c = Inr True")
    case False
    from claim_refused [OF cl False] claim_sent [OF cl] assms(1) cl False show ?thesis
      by (cases c) (auto simp: txn_commit_def split: bool.splits)
  next
    case True
    with cl have ok: "te_claim env t r w = (Inr True, w1)" by simp
    note c = claim_ok [OF ok] claim_sent [OF cl]
    have pend1: "pending t (idempotency_key r) w1" using c by (auto simp: pending_def)
    obtain v w2 where rv: "txn_revalidate env a (Some confirmed) w1 = (v, w2)" by fastforce
    have f2: "active_of w2 = active_of w1" "audit_of w2 = audit_of w1" "sent_of w2 = sent_of w1"
        "keys_of w2 = keys_of w1"
      using rv read_frame [of w1] by (auto simp: txn_revalidate_def split: prod.splits sum.splits)
    have pend2: "pending t (idempotency_key r) w2" using pend1 f2 by (simp add: pending_def)
    show ?thesis
    proof (cases v)
      case (Inl err)
      have "\<forall>e. err \<noteq> UncertainOutcome e"
        using rv Inl by (auto simp: txn_revalidate_def evidence_acceptable_def
            split: prod.splits sum.splits if_splits)
      moreover have "txn_terminate env t r Failed err w2 = (res, w')"
        using assms(1) ok rv Inl by (simp add: txn_commit_def)
      ultimately have "agrees t (idempotency_key r) res w' \<and> sent_of w' = sent_of w \<and>
          keys_of w' = keys_of w1"
        using terminate_agrees [OF _ pend2] f2 c by auto
      moreover have "\<forall>x. res \<noteq> Inr x"
        using \<open>txn_terminate env t r Failed err w2 = (res, w')\<close>
        by (auto simp: txn_terminate_def split: prod.splits sum.splits)
      ultimately show ?thesis using c by auto
    next
      case (Inr live)
      obtain b w3 where pb: "txn_persist env t r Begun ''commit boundary entered'' w2 = (b, w3)"
        by fastforce
      show ?thesis
      proof (cases b)
        case bl: (Inl err)
        have f3: "active_of w3 = active_of w2" "sent_of w3 = sent_of w2" "keys_of w3 = keys_of w2"
            "\<exists>e. err = Store e"
          using persist_error [OF pb [unfolded bl]] by auto
        have "res = Inl err" "w' = w3"
          using assms(1) ok rv Inr pb bl by (simp_all add: txn_commit_def)
        with f3 f2 c pend2 show ?thesis by (auto simp: agrees_def pending_def)
      next
        case br: (Inr r1)
        have p3: "pending t (idempotency_key r) w3" "r1 = record_next Begun ''commit boundary entered'' r"
            "sent_of w3 = sent_of w2" "keys_of w3 = keys_of w2" "active_of w3 t = Some r1"
          using persist_pending [OF pb [unfolded br]] by auto
        obtain x w4 where ex: "te_execute env a w3 = (x, w4)" by fastforce
        note e = execute_frame [OF ex]
        have p4: "pending t (idempotency_key r1) w4" using p3 e by (auto simp: pending_def)
        have sent: "sent_of w4 = sent_of w @ [(a, active_of w3, x)]" using e p3 f2 c by simp
        have rest: "(case x of Inl (PossibleSideEffect reason) \<Rightarrow> Some (txn_uncertain env t r1 reason w4)
            | Inl err \<Rightarrow> Some (txn_terminate env t r1 Failed (Execution (execution_error_display err)) w4)
            | Inr out \<Rightarrow> txn_after_execute env t a baseline r1 out w4) = Some (res, w')"
          using assms(1) ok rv Inr pb br ex by (simp add: txn_commit_def split: sum.splits execution_error.splits)
        have "agrees t (idempotency_key r1) res w' \<and> sent_of w' = sent_of w4 \<and> keys_of w' = keys_of w4 \<and>
            (undenied t res w' \<or> (\<exists>e. x = Inl (Unsafe e)) \<or> (\<exists>e. x = Inl (Integration e)))"
          using rest uncertain_agrees [OF _ p4] terminate_agrees [OF _ p4] after_execute_agrees [OF _ p4]
          by (auto split: sum.splits execution_error.splits)
        then show ?thesis using p3 sent c e f2 by auto
      qed
    qed
  qed
qed

text \<open>The whole transaction.\<close>

lemma revalidate_frame:
  assumes "txn_revalidate env a b w = (v, w')"
  shows "active_of w' = active_of w \<and> audit_of w' = audit_of w \<and> keys_of w' = keys_of w \<and>
    sent_of w' = sent_of w"
  using assms read_frame [of w] by (auto simp: txn_revalidate_def split: prod.splits sum.splits)

lemma revalidate_not_uncertain: "txn_revalidate env a b w \<noteq> (Inl (UncertainOutcome e), w')"
  by (auto simp: txn_revalidate_def evidence_acceptable_def split: prod.splits sum.splits if_splits)

definition untouched :: "'w \<Rightarrow> 'w \<Rightarrow> bool" where
  "untouched w w' \<longleftrightarrow> sent_of w' = sent_of w \<and> active_of w' = active_of w \<and>
     audit_of w' = audit_of w \<and> keys_of w' = keys_of w"

lemma run_outcome:
  assumes "txn_run env t owner a recovery w = Some (res, w')"
  shows "(untouched w w' \<and> (\<forall>x. res \<noteq> Inr x) \<and> (\<forall>e. res \<noteq> Inl (UncertainOutcome e))) \<or>
    (\<exists>baseline wall.
       authorize (te_parse env) a (policy_context_of baseline recovery wall) = Inr () \<and>
       evidence_acceptable a None baseline = Inr baseline \<and>
       active_of w t = None \<and> txn_key t a baseline \<notin> keys_of w \<and>
       agrees t (txn_key t a baseline) res w' \<and>
       keys_of w' = insert (txn_key t a baseline) (keys_of w) \<and>
       (sent_of w' = sent_of w \<and> (\<forall>x. res \<noteq> Inr x) \<or>
        (\<exists>m b x. sent_of w' = sent_of w @ [(a, m, x)] \<and> m t = Some b \<and> ar_phase b = Begun \<and>
               idempotency_key b = txn_key t a baseline \<and>
               (undenied t res w' \<or> (\<exists>e. x = Inl (Unsafe e)) \<or> (\<exists>e. x = Inl (Integration e))))))"
proof (cases "validate_action (te_parse env) a")
  case (Inl e)
  with assms show ?thesis by (auto simp: txn_run_def untouched_def)
next
  case (Inr u)
  obtain v1 w1 where r1: "txn_revalidate env a None w = (v1, w1)" by fastforce
  note f1 = revalidate_frame [OF r1]
  show ?thesis
  proof (cases v1)
    case (Inl err)
    with assms Inr r1 f1 revalidate_not_uncertain [of a None w] show ?thesis
      by (auto simp: txn_run_def untouched_def)
  next
    case b: (Inr baseline)
    have acc: "evidence_acceptable a None baseline = Inr baseline"
      using r1 b by (auto simp: txn_revalidate_def evidence_acceptable_def
          split: prod.splits sum.splits if_splits)
    obtain wall w2 where wl: "te_wall env w1 = (wall, w2)" by fastforce
    note f2 = wall_frame [OF wl]
    obtain v2 w3 where r2: "txn_revalidate env a (Some baseline) w2 = (v2, w3)" by fastforce
    note f3 = revalidate_frame [OF r2]
    obtain now w4 where mn: "te_monotonic_ms env w3 = (now, w4)" by fastforce
    note f4 = monotonic_frame [OF mn]
    show ?thesis
    proof (cases "authorize (te_parse env) a (policy_context_of baseline recovery wall)")
      case (Inl e)
      with assms Inr r1 b wl f1 f2 show ?thesis by (auto simp: txn_run_def untouched_def)
    next
      case au: (Inr u')
      show ?thesis
      proof (cases v2)
        case (Inl err)
        with assms Inr r1 b wl au r2 f1 f2 f3 revalidate_not_uncertain [of a "Some baseline" w2]
        show ?thesis by (auto simp: txn_run_def untouched_def)
      next
        case cf: (Inr confirmed)
        show ?thesis
        proof (cases "te_snapshot env baseline a")
          case (Inl e)
          with assms Inr r1 b wl au r2 cf mn f1 f2 f3 f4 show ?thesis
            by (auto simp: txn_run_def untouched_def)
        next
          case sn: (Inr snapshot)
          let ?r = "record_prepared (action_id a) (txn_key t a baseline) t owner now
             (sat_add now LEASE_MS) (le_identity baseline)
             (evidence_fingerprint (le_event baseline)) snapshot"
          have "txn_commit env t a baseline confirmed ?r w4 = Some (res, w')"
            using assms Inr r1 b wl au r2 cf mn sn by (simp add: txn_run_def)
          from commit_outcome [OF this] f1 f2 f3 f4 acc au show ?thesis
            by (auto simp: untouched_def)
        qed
      qed
    qed
  qed
qed

text \<open>What both recoveries do with the record they settle.\<close>

definition recovered :: "string \<Rightarrow> 'w \<Rightarrow> (txn_error, action_record option) result \<Rightarrow> 'w \<Rightarrow> bool" where
  "recovered t w res w' \<longleftrightarrow> sent_of w' = sent_of w \<and> keys_of w' = keys_of w \<and>
    (case res of
       Inl _ \<Rightarrow> active_of w' = active_of w \<and> audit_of w' = audit_of w
     | Inr None \<Rightarrow> active_of w t = None \<and> active_of w' = active_of w \<and> audit_of w' = audit_of w
     | Inr (Some fin) \<Rightarrow> (\<exists>r. active_of w t = Some r \<and>
         ar_phase fin = (if ar_phase r = Prepared then Failed else HumanRequired) \<and>
         idempotency_key fin = idempotency_key r \<and>
         active_of w' = (active_of w)(t := None) \<and> audit_of w' = (audit_of w)(t := audit_of w t @ [fin])))"

lemma append_recovered:
  assumes "te_append env t (recovery_record p q r) w1 = (pr, w2)" "active_of w t = Some r"
    and "active_of w1 = active_of w" "audit_of w1 = audit_of w" "keys_of w1 = keys_of w" "sent_of w1 = sent_of w"
  shows "recovered t w (case pr of Inl e \<Rightarrow> Inl (Store e) | Inr _ \<Rightarrow> Inr (Some (recovery_record p q r))) w2"
proof -
  have fin: "ar_phase (recovery_record p q r) = (if ar_phase r = Prepared then Failed else HumanRequired)"
    "idempotency_key (recovery_record p q r) = idempotency_key r"
    by (simp_all add: recovery_record_def)
  show ?thesis
  proof (cases pr)
    case (Inl e)
    with assms app_err [of t _ w1 e w2] app_sent [OF assms(1)] show ?thesis by (simp add: recovered_def)
  next
    case (Inr u)
    with assms fin app_ok [of t _ w1 u w2] app_sent [OF assms(1)] show ?thesis by (simp add: recovered_def)
  qed
qed

lemma recover_after_restart_cases:
  assumes "recover_after_restart env t w = (res, w')"
  shows "recovered t w res w'"
proof -
  obtain ar w1 where ac: "te_active env t w = (ar, w1)" by fastforce
  note f = active_frame [OF ac]
  show ?thesis
  proof (cases "\<exists>r. ar = Inr (Some r)")
    case False
    with assms ac f active_read [of t w None w1] show ?thesis
      by (auto simp: recover_after_restart_def recovered_def split: sum.splits option.splits)
  next
    case True
    then obtain r where r: "ar = Inr (Some r)" by blast
    let ?fin = "recovery_record ''restart cancelled prepared action before side effect''
           ''restart found action after commit boundary; blind retry forbidden'' r"
    obtain p w2 where pp: "te_append env t ?fin w1 = (p, w2)" by fastforce
    from ac r have act: "active_of w t = Some r" using active_read by fastforce
    have "res = (case p of Inl e \<Rightarrow> Inl (Store e) | Inr _ \<Rightarrow> Inr (Some ?fin))" "w' = w2"
      using assms ac r pp by (simp_all add: recover_after_restart_def Let_def split: sum.splits)
    with append_recovered [OF pp act] f show ?thesis by simp
  qed
qed

lemma recover_stale_cases:
  assumes "recover_stale env probe t w = (res, w')"
  shows "recovered t w res w' \<and>
    (\<forall>r. active_of w t = Some r \<and> probe (ar_owner r) \<longrightarrow> (\<exists>err. res = Inl err))"
proof -
  obtain ar w1 where ac: "te_active env t w = (ar, w1)" by fastforce
  note f = active_frame [OF ac]
  show ?thesis
  proof (cases "\<exists>r. ar = Inr (Some r)")
    case False
    with assms ac f active_read [of t w None w1] show ?thesis
      by (auto simp: recover_stale_def recovered_def split: sum.splits option.splits)
  next
    case True
    then obtain r where r: "ar = Inr (Some r)" by blast
    from ac r have act: "active_of w t = Some r" using active_read by fastforce
    obtain now w2 where mn: "te_monotonic_ms env w1 = (now, w2)" by fastforce
    note g = monotonic_frame [OF mn]
    show ?thesis
    proof (cases "now \<le> lease_deadline_ms r \<or> probe (ar_owner r)")
      case True
      with assms ac r mn f g show ?thesis
        by (auto simp: recover_stale_def recovered_def)
    next
      case False
      let ?why = "''expired lease owned by a different pid/start identity''"
      obtain p w3 where pp: "te_append env t (recovery_record ?why ?why r) w2 = (p, w3)" by fastforce
      have "res = (case p of Inl e \<Rightarrow> Inl (Store e) | Inr _ \<Rightarrow> Inr (Some (recovery_record ?why ?why r)))"
          "w' = w3"
        using assms ac r mn pp False by (simp_all add: recover_stale_def Let_def split: sum.splits)
      with append_recovered [OF pp act] f g act False show ?thesis by simp
    qed
  qed
qed

end

section \<open>A world over the JSON ledger\<close>

text \<open>
  The daemon's ledger together with an environment that may answer anything: the n-th read, the n-th
  verification read, the n-th clock reading and the n-th answer of the executor are arbitrary functions
  of n. \<open>wd_sent\<close> records each execution with the active records at that moment.
\<close>

record world =
  wd_store :: json_action_store
  wd_reads :: "nat \<Rightarrow> (string, live_evidence) result"
  wd_read_no :: nat
  wd_verifications :: "nat \<Rightarrow> (string, live_evidence) result"
  wd_verification_no :: nat
  wd_clock :: "nat \<Rightarrow> u64"
  wd_clock_no :: nat
  wd_executor :: "nat \<Rightarrow> action \<Rightarrow> (execution_error, execution_output) result"
  wd_sent :: "execution list"

definition on_store :: "(json_action_store \<Rightarrow> 'a \<times> json_action_store) \<Rightarrow> world \<Rightarrow> 'a \<times> world" where
  "on_store f w = (case f (wd_store w) of (x, s) \<Rightarrow> (x, w\<lparr>wd_store := s\<rparr>))"

definition world_env ::
  "rfc3339 \<Rightarrow> (live_evidence \<Rightarrow> action \<Rightarrow> (string, string) result) \<Rightarrow> (execution_output \<Rightarrow> string)
     \<Rightarrow> (nat \<Rightarrow> string) \<Rightarrow> world txn_env" where
  "world_env parse snapshot debug wall =
     \<lparr>te_parse = parse, te_snapshot = snapshot, te_debug = debug,
      te_read = (\<lambda>w. (wd_reads w (wd_read_no w), w\<lparr>wd_read_no := Suc (wd_read_no w)\<rparr>)),
      te_read_verification = (\<lambda>_ w. (wd_verifications w (wd_verification_no w),
         w\<lparr>wd_verification_no := Suc (wd_verification_no w)\<rparr>)),
      te_execute = (\<lambda>a w. let answer = wd_executor w (length (wd_sent w)) a in
         (answer, w\<lparr>wd_sent := wd_sent w @ [(a, ledger_active (wd_store w), answer)]\<rparr>)),
      te_monotonic_ms = (\<lambda>w. (wd_clock w (wd_clock_no w), w\<lparr>wd_clock_no := Suc (wd_clock_no w)\<rparr>)),
      te_wall = (\<lambda>w. (wall (wd_clock_no w), w)),
      te_sleep = (\<lambda>_ w. w),
      te_claim = (\<lambda>t r. on_store (claim_prepared t r)),
      te_append = (\<lambda>t r. on_store (jas_append t r)),
      te_escalate = (\<lambda>t r reason. on_store (escalate_uncertain t r reason)),
      te_active = (\<lambda>t w. (jas_active t (wd_store w), w))\<rparr>"

definition world_active :: "world \<Rightarrow> string \<Rightarrow> action_record option" where
  "world_active w = ledger_active (wd_store w)"

definition world_audit :: "world \<Rightarrow> string \<Rightarrow> action_record list" where
  "world_audit w = ledger_audit (wd_store w)"

definition world_keys :: "world \<Rightarrow> string set" where
  "world_keys w = ledger_keys (wd_store w)"

lemmas world_views = world_active_def world_audit_def world_keys_def

lemma on_store_eq:
  "on_store f w = (x, w') \<longleftrightarrow> (\<exists>s. f (wd_store w) = (x, s) \<and> w' = w\<lparr>wd_store := s\<rparr>)"
  by (auto simp: on_store_def split: prod.splits)

interpretation wd: transaction_env "world_env parse snapshot debug wall" world_active world_audit
  world_keys wd_sent for parse snapshot debug wall
proof (unfold_locales, goal_cases)
  case (1 t r s s')
  then obtain s1 where s1: "claim_prepared t r (wd_store s) = (Inr True, s1)" "s' = s\<lparr>wd_store := s1\<rparr>"
    by (auto simp: world_env_def on_store_eq)
  from jas.claim_ok [OF s1(1)] s1(2) show ?case
    by (simp add: world_views)
next
  case (2 t r s res s')
  then obtain s1 where s1: "claim_prepared t r (wd_store s) = (res, s1)" "s' = s\<lparr>wd_store := s1\<rparr>"
    by (auto simp: world_env_def on_store_eq)
  from jas.claim_refused [OF s1(1) 2(2)] s1(2) show ?case
    by (simp add: world_views)
next
  case (3 s t r)
  then show ?case
    using jas.claim_taken [of "wd_store s" t r]
    by (auto simp: world_env_def on_store_def world_views split: prod.splits)
next
  case (4 t r s u s')
  then obtain s1 where s1: "jas_append t r (wd_store s) = (Inr u, s1)" "s' = s\<lparr>wd_store := s1\<rparr>"
    by (auto simp: world_env_def on_store_eq)
  from jas.app_ok [OF s1(1)] s1(2) show ?case
    by (simp add: world_views)
next
  case (5 t r s e s')
  then obtain s1 where s1: "jas_append t r (wd_store s) = (Inl e, s1)" "s' = s\<lparr>wd_store := s1\<rparr>"
    by (auto simp: world_env_def on_store_eq)
  from jas.app_err [OF s1(1)] s1(2) show ?case
    by (simp add: world_views)
next
  case (6 t r reason s h s')
  then obtain s1 where s1: "escalate_uncertain t r reason (wd_store s) = (Inr h, s1)" "s' = s\<lparr>wd_store := s1\<rparr>"
    by (auto simp: world_env_def on_store_eq)
  from jas.escalate_ok [OF s1(1)] s1(2) show ?case
    by (simp add: world_views)
next
  case (7 t r reason s e s')
  then obtain s1 where s1: "escalate_uncertain t r reason (wd_store s) = (Inl e, s1)" "s' = s\<lparr>wd_store := s1\<rparr>"
    by (auto simp: world_env_def on_store_eq)
  from jas.escalate_err [OF s1(1)] s1(2) show ?case
    by (simp add: world_views)
qed (auto simp: world_env_def Let_def on_store_eq world_views jas_active_def ledger_active_def split: if_splits)

end
