(* ===== verification/Transaction_Properties.thy ===== *)
theory Transaction_Properties
  imports Transaction_Safety
begin

text \<open>
  The guarantees of a transaction on the JSON ledger, for every behaviour of the evidence reader, the
  executor and the clock, and for every pattern of failing writes.
\<close>

section \<open>Termination\<close>

text \<open>The monotonic clock passes every deadline, sooner or later.\<close>

definition clock_advances :: "world \<Rightarrow> bool" where
  "clock_advances w \<longleftrightarrow> (\<forall>d m. \<exists>n \<ge> m. d \<le> wd_clock w n)"

lemma verify_loop_returns:
  assumes "deadline \<le> wd_clock w n" "wd_clock_no w \<le> n"
  shows "\<exists>out. verify_loop (world_env parse snapshot debug wall) t a b r deadline w = Some out"
  using assms
proof (induction "n - wd_clock_no w" arbitrary: w rule: less_induct)
  case less
  let ?w1 = "w\<lparr>wd_verification_no := Suc (wd_verification_no w), wd_clock_no := Suc (wd_clock_no w)\<rparr>"
  have next_loop: "\<exists>out. verify_loop (world_env parse snapshot debug wall) t a b r deadline ?w1 = Some out"
    if "\<not> deadline \<le> wd_clock w (wd_clock_no w)"
  proof -
    have "wd_clock_no w \<noteq> n" using that less.prems by auto
    then have "wd_clock_no w < n" using less.prems by simp
    then show ?thesis using less.hyps [of ?w1] less.prems by simp
  qed
  show ?case
    using next_loop by (subst verify_loop.simps) (auto simp: world_env_def split: sum.split)
qed

lemma on_store_clock: "on_store f w = (x, w') \<Longrightarrow> wd_clock w' = wd_clock w"
  by (auto simp: on_store_eq)

lemma persist_clock:
  "txn_persist (world_env parse snapshot debug wall) t r phase reason w = (res, w') \<Longrightarrow>
     wd_clock w' = wd_clock w"
  by (auto simp: txn_persist_def world_env_def Let_def dest: on_store_clock split: prod.splits sum.splits)

lemma after_execute_returns:
  assumes "clock_advances w"
  shows "\<exists>out. txn_after_execute (world_env parse snapshot debug wall) t a b r res w = Some out"
proof -
  let ?env = "world_env parse snapshot debug wall"
  have loop: "\<exists>out. verify_loop ?env t a b r' d w' = Some out" if "wd_clock w' = wd_clock w" for r' d w'
  proof -
    obtain n where "wd_clock_no w' \<le> n" "d \<le> wd_clock w n"
      using assms by (auto simp: clock_advances_def)
    then show ?thesis using verify_loop_returns that by metis
  qed
  define r1 where "r1 = r\<lparr>ar_output := Some (output_summary (te_debug ?env) res)\<rparr>"
  obtain s1 w1 where p1: "txn_persist ?env t r1 Sent ''executor completed action unit'' w = (s1, w1)"
    by fastforce
  show ?thesis
  proof (cases s1)
    case (Inl err)
    then show ?thesis by (simp add: txn_after_execute_def Let_def r1_def [symmetric] p1)
  next
    case (Inr r2)
    obtain s2 w2 where p2: "txn_persist ?env t r2 Verifying ''polling canonical expected outcomes'' w1 = (s2, w2)"
      by fastforce
    have clk: "wd_clock w2 = wd_clock w"
      using persist_clock [OF p1] persist_clock [OF p2] by simp
    obtain now w3 where mono: "te_monotonic_ms ?env w2 = (now, w3)" by fastforce
    then have "wd_clock w3 = wd_clock w" using clk by (auto simp: world_env_def)
    from loop [OF this] Inr p2 mono show ?thesis
      by (cases s2) (simp_all add: txn_after_execute_def Let_def r1_def [symmetric] p1)
  qed
qed

lemma commit_returns:
  assumes "clock_advances w"
  shows "\<exists>out. txn_commit (world_env parse snapshot debug wall) t a b c r w = Some out"
proof -
  let ?env = "world_env parse snapshot debug wall"
  obtain cr w1 where cl: "te_claim ?env t r w = (cr, w1)" by fastforce
  obtain v w2 where rv: "txn_revalidate ?env a (Some c) w1 = (v, w2)" by fastforce
  obtain p w3 where pb: "txn_persist ?env t r Begun ''commit boundary entered'' w2 = (p, w3)" by fastforce
  obtain x w4 where ex: "te_execute ?env a w3 = (x, w4)" by fastforce
  have "wd_clock w1 = wd_clock w"
    using cl on_store_clock by (auto simp: world_env_def)
  moreover have "wd_clock w2 = wd_clock w1"
    using rv by (auto simp: txn_revalidate_def world_env_def split: sum.splits)
  moreover have "wd_clock w4 = wd_clock w3"
    using ex by (auto simp: world_env_def Let_def)
  ultimately have "clock_advances w4"
    using assms persist_clock [OF pb] by (simp add: clock_advances_def)
  then show ?thesis
    using after_execute_returns
    by (auto simp: txn_commit_def cl rv pb ex split: sum.split bool.split execution_error.split)
qed

section \<open>A concrete run\<close>

text \<open>A submission that is confirmed by the second verification read; it satisfies the hypotheses of the
  properties below.\<close>

definition example_live :: live_evidence where
  "example_live = \<lparr>le_identity = ''id'', le_target_revalidated = True, le_process_alive = True,
     le_pane_matches = True, le_evidence_current = True, le_composer_safe = True,
     le_human_intervened = False, le_event = example_event\<rparr>"

definition example_after :: live_evidence where
  "example_after = example_live\<lparr>le_event :=
     example_event\<lparr>ev_category := Working, evidence_fingerprint := ''00000000ffffffff''\<rparr>\<rparr>"

definition example_submit :: action where
  "example_submit = action_submit_text ''a'' ''continue'' ''why'' ''fedcba9876543210''
     \<lparr>expected_outcomes := [\<lparr>cond_kind = ''AGENT_WORKING'', cond_value = None\<rparr>]\<rparr>"

definition example_recovery :: recovery_context where
  "example_recovery = \<lparr>rc_attempts_remaining = 1, rc_cumulative_wait_remaining_seconds = 60,
     rc_planner_calls_remaining = 0, rc_planner_concurrency_available = False, rc_cooldown_ready = True,
     rc_session_id = None, rc_failed_provider_family = None, rc_planner_provider_family = None\<rparr>"

definition example_world :: world where
  "example_world = \<lparr>wd_store = fresh_ledger [], wd_reads = (\<lambda>_. Inr example_live), wd_read_no = 0,
     wd_verifications = (\<lambda>n. if n = 0 then Inr example_live else Inr example_after), wd_verification_no = 0,
     wd_clock = (\<lambda>n. if n < 5 then 0 else - 1), wd_clock_no = 0,
     wd_executor = (\<lambda>_ _. Inr Committed), wd_sent = []\<rparr>"

definition example_env :: "world txn_env" where
  "example_env = world_env (\<lambda>_. Some 0) (\<lambda>_ _. Inr ''{}'') (\<lambda>_. ''Committed'') (\<lambda>_. ''now'')"

lemma example_submit_action: "act_kind example_submit = SubmitText ''continue''" "action_id example_submit = ''a''"
  "expected_outcomes example_submit = [\<lparr>cond_kind = ''AGENT_WORKING'', cond_value = None\<rparr>]"
  "timeout_seconds example_submit = 30"
  "action_fingerprint example_submit = ''fedcba9876543210''"
  by (simp_all add: example_submit_def action_submit_text_def Let_def action_new_def action_fingerprint_def cond_text_def)

lemma example_submit_validate: "validate_action (\<lambda>_. Some 0) example_submit = Inr ()"
  by code_simp

lemma example_submit_auth:
  "authorize (\<lambda>_. Some 0) example_submit (policy_context_of example_live example_recovery ''now'') =
     Inr ()"
  by code_simp

lemma example_submit_acc:
  "evidence_acceptable example_submit None example_live = Inr example_live"
  "evidence_acceptable example_submit (Some example_live) example_live = Inr example_live"
  by code_simp+

lemma example_submit_ver:
  "verified example_live example_live (expected_outcomes example_submit) = False"
  "verified example_live example_after (expected_outcomes example_submit) = True"
  by code_simp+

lemma example_submit_out: "receipt_outcomes_hold Committed (expected_outcomes example_submit)"
  "needs_progress_verification (act_kind example_submit) (expected_outcomes example_submit)"
  by (simp_all add: example_submit_action receipt_outcomes_hold_def needs_progress_verification_def)

lemma example_submit_live: "le_human_intervened example_live = False" "le_human_intervened example_after = False"
  "le_identity example_live = ''id''" "le_identity example_after = ''id''"
  by (simp_all add: example_live_def example_after_def)

lemma example_submit_deadline: "sat_add (0::u64) (sat_mul (timeout_seconds example_submit) 1000) = 30000"
  by (simp add: example_submit_action sat_add_def sat_mul_def)

lemmas example_run_simps = example_submit_deadline example_env_def example_world_def world_env_def txn_run_def txn_revalidate_def
  example_submit_validate example_submit_auth example_submit_acc txn_commit_def on_store_def claim_prepared_def fresh_ledger_def ledger_default_def
  jas_append_def Let_def bt_contains_def jas_commit_def js_write_def audit_extend_def txn_persist_def
  record_prepared_def record_next_def txn_after_execute_def example_submit_out example_submit_ver example_submit_live verify_loop.simps


lemma example_run:
  "\<exists>r m w'. txn_run example_env ''w'' example_owner example_submit example_recovery example_world =
       Some (Inr r, w') \<and>
     wd_sent w' = wd_sent example_world @ [(example_submit, m, Inr Committed)]"
  by (simp add: example_run_simps)

lemma example_clock_advances: "clock_advances example_world"
  unfolding clock_advances_def
proof (intro allI)
  fix d :: u64 and m :: nat
  show "\<exists>n\<ge>m. d \<le> wd_clock example_world n"
    by (rule exI [of _ "max m 5"]) (simp add: example_world_def)
qed

text \<open>The same world after a crash in the middle of a transaction.\<close>

definition interrupted_world :: world where
  "interrupted_world = example_world\<lparr>wd_store := ledger_run example_ops (fresh_ledger [])\<rparr>"

lemma interrupted_active:
  "world_active interrupted_world ''w'' =
     Some (record_next Begun ''commit boundary entered'' example_record)"
  by (simp add: interrupted_world_def example_ops_def fresh_ledger_def ledger_default_def claim_prepared_def
      jas_append_def Let_def bt_contains_def jas_commit_def js_write_def audit_extend_def ledger_views
      world_views example_record_def)

text \<open>C9: A transaction always returns, on any evidence, executor and write behaviour, provided only that
  the monotonic clock eventually passes every deadline: the verification loop cannot poll forever.\<close>

theorem txn_run_returns:
  assumes "clock_advances w"
  shows "\<exists>res w'. txn_run (world_env parse snapshot debug wall) t owner a recovery w = Some (res, w')"
proof -
  let ?env = "world_env parse snapshot debug wall"
  obtain v1 w1 where r1: "txn_revalidate ?env a None w = (v1, w1)" by fastforce
  have c1: "wd_clock w1 = wd_clock w"
    using r1 by (auto simp: txn_revalidate_def world_env_def split: sum.splits)
  have c4: "clock_advances w4" if "txn_revalidate ?env a bl w1 = (v2, w3)" "te_monotonic_ms ?env w3 = (now, w4)"
    for bl v2 w3 now w4
    using assms that c1
    by (auto simp: clock_advances_def txn_revalidate_def world_env_def split: sum.splits)
  have wl: "te_wall ?env w1 = (wall (wd_clock_no w1), w1)" by (simp add: world_env_def)
  show ?thesis
    using c4 commit_returns
    by (fastforce simp: txn_run_def r1 wl split: sum.split prod.split)
qed

theorem txn_run_returns_witness:
  "\<exists>res w'. txn_run example_env ''w'' example_owner example_submit example_recovery example_world =
     Some (res, w')"
  unfolding example_env_def by (rule txn_run_returns [OF example_clock_advances])

section \<open>Safety\<close>

text \<open>The key of a transaction, from its request alone: the baseline carries the action's fingerprint.\<close>

definition request_key :: "string \<Rightarrow> action \<Rightarrow> string" where
  "request_key t a = t @ '':'' @ action_id a @ '':'' @ action_fingerprint a"

lemma acceptable_fingerprint:
  "evidence_acceptable a b live = Inr live' \<Longrightarrow> evidence_fingerprint (le_event live) = action_fingerprint a"
  by (auto simp: evidence_acceptable_def split: if_splits)

lemma acceptable_key:
  "evidence_acceptable a b live = Inr live' \<Longrightarrow> txn_key t a live = request_key t a"
  by (simp add: txn_key_def request_key_def acceptable_fingerprint)

text \<open>What one run leaves behind, over the world's own views.\<close>

lemma world_run_cases:
  assumes "txn_run (world_env parse snapshot debug wall) t owner a recovery w = Some (res, w')"
  obtains (untouched) "wd_sent w' = wd_sent w" "world_active w' = world_active w"
      "world_audit w' = world_audit w" "world_keys w' = world_keys w" "\<forall>x. res \<noteq> Inr x"
      "\<forall>e. res \<noteq> Inl (UncertainOutcome e)"
  | (claimed) baseline wall' where
      "authorize parse a (policy_context_of baseline recovery wall') = Inr ()"
      "evidence_acceptable a None baseline = Inr baseline"
      "world_active w t = None" "request_key t a \<notin> world_keys w"
      "wd.agrees t (request_key t a) res w'"
      "world_keys w' = insert (request_key t a) (world_keys w)"
      "wd_sent w' = wd_sent w \<and> (\<forall>x. res \<noteq> Inr x) \<or>
       (\<exists>m b x. wd_sent w' = wd_sent w @ [(a, m, x)] \<and> m t = Some b \<and> ar_phase b = Begun \<and>
          idempotency_key b = request_key t a \<and>
          (wd.undenied t res w' \<or> (\<exists>e. x = Inl (Unsafe e)) \<or> (\<exists>e. x = Inl (Integration e))))"
proof -
  have p: "te_parse (world_env parse snapshot debug wall) = parse" by (simp add: world_env_def)
  consider "wd.untouched w w' \<and> (\<forall>x. res \<noteq> Inr x) \<and> (\<forall>e. res \<noteq> Inl (UncertainOutcome e))"
    | baseline wall' where
       "authorize parse a (policy_context_of baseline recovery wall') = Inr ()"
       "evidence_acceptable a None baseline = Inr baseline"
       "world_active w t = None" "txn_key t a baseline \<notin> world_keys w"
       "wd.agrees t (txn_key t a baseline) res w'"
       "world_keys w' = insert (txn_key t a baseline) (world_keys w)"
       "wd_sent w' = wd_sent w \<and> (\<forall>x. res \<noteq> Inr x) \<or>
        (\<exists>m b x. wd_sent w' = wd_sent w @ [(a, m, x)] \<and> m t = Some b \<and> ar_phase b = Begun \<and>
               idempotency_key b = txn_key t a baseline \<and>
               (wd.undenied t res w' \<or> (\<exists>e. x = Inl (Unsafe e)) \<or> (\<exists>e. x = Inl (Integration e))))"
    using wd.run_outcome [OF assms] unfolding p by blast
  then show thesis
  proof cases
    case 1
    then show thesis by (auto simp: wd.untouched_def intro: untouched)
  next
    case (2 baseline wall')
    note k = acceptable_key [OF 2(2), of t]
    show thesis by (rule claimed [OF 2(1-3) 2(4-7) [unfolded k]])
  qed
qed

text \<open>The reads behind a call of the executor: the guards of a transaction see the next three readings of the
  evidence, in this order, each compared with the one before it.\<close>

lemma acceptable_returns: "evidence_acceptable a b live = Inr live' \<Longrightarrow> live' = live"
  by (auto simp: evidence_acceptable_def split: if_splits)

lemma world_revalidate:
  "txn_revalidate (world_env parse snapshot debug wall) a b w = (Inr live, w') \<longleftrightarrow>
     w' = w\<lparr>wd_read_no := Suc (wd_read_no w)\<rparr> \<and> wd_reads w (wd_read_no w) = Inr live \<and>
     evidence_acceptable a b live = Inr live"
  by (auto simp: txn_revalidate_def world_env_def dest: acceptable_returns split: sum.splits)

lemma world_terminate_sent:
  "txn_terminate (world_env parse snapshot debug wall) t r phase err w = (res, w') \<Longrightarrow> wd_sent w' = wd_sent w"
  by (auto simp: txn_terminate_def world_env_def on_store_eq Let_def split: prod.splits sum.splits)

lemma world_commit_reads:
  assumes "txn_commit (world_env parse snapshot debug wall) t a b confirmed r w = Some (res, w')"
    and "wd_sent w' \<noteq> wd_sent w"
  shows "\<exists>final. wd_reads w (wd_read_no w) = Inr final \<and> evidence_acceptable a (Some confirmed) final = Inr final"
proof -
  let ?env = "world_env parse snapshot debug wall"
  obtain cl w1 where cl: "te_claim ?env t r w = (cl, w1)" by fastforce
  then have w1: "wd_sent w1 = wd_sent w" "wd_reads w1 = wd_reads w" "wd_read_no w1 = wd_read_no w"
    by (auto simp: world_env_def on_store_eq)
  obtain v w2 where rv: "txn_revalidate ?env a (Some confirmed) w1 = (v, w2)" by fastforce
  then have w2: "wd_sent w2 = wd_sent w1" by (auto simp: txn_revalidate_def world_env_def split: sum.splits)
  show ?thesis
  proof (cases v)
    case (Inl err)
    with assms cl w1 w2 rv show ?thesis
      by (auto simp: txn_commit_def dest: world_terminate_sent split: sum.splits bool.splits)
  next
    case (Inr final)
    with rv w1 show ?thesis by (auto simp: world_revalidate)
  qed
qed

lemma world_run_reads:
  assumes "txn_run (world_env parse snapshot debug wall) t owner a recovery w = Some (res, w')"
    and "wd_sent w' \<noteq> wd_sent w"
  shows "\<exists>baseline confirmed final. validate_action parse a = Inr () \<and>
    wd_reads w (wd_read_no w) = Inr baseline \<and> evidence_acceptable a None baseline = Inr baseline \<and>
    authorize parse a (policy_context_of baseline recovery (wall (wd_clock_no w))) = Inr () \<and>
    wd_reads w (wd_read_no w + 1) = Inr confirmed \<and>
    evidence_acceptable a (Some baseline) confirmed = Inr confirmed \<and>
    wd_reads w (wd_read_no w + 2) = Inr final \<and> evidence_acceptable a (Some confirmed) final = Inr final"
proof -
  let ?env = "world_env parse snapshot debug wall"
  have env: "te_parse ?env = parse" "\<And>u. te_wall ?env u = (wall (wd_clock_no u), u)"
    "\<And>u. te_monotonic_ms ?env u = (wd_clock u (wd_clock_no u), u\<lparr>wd_clock_no := Suc (wd_clock_no u)\<rparr>)"
    by (simp_all add: world_env_def)
  obtain v1 w1 where r1: "txn_revalidate ?env a None w = (v1, w1)" by fastforce
  then have w1: "w1 = w\<lparr>wd_read_no := Suc (wd_read_no w)\<rparr>"
    by (auto simp: txn_revalidate_def world_env_def split: sum.splits)
  have "is_ok v1" "is_ok (validate_action parse a)"
    using assms r1 w1 by (auto simp: txn_run_def env split: sum.splits)
  then obtain baseline where b: "v1 = Inr baseline" "validate_action parse a = Inr ()"
    by (cases v1; cases "validate_action parse a") auto
  obtain v2 w2 where r2: "txn_revalidate ?env a (Some baseline) w1 = (v2, w2)" by fastforce
  then have w2: "w2 = w1\<lparr>wd_read_no := Suc (wd_read_no w1)\<rparr>"
    by (auto simp: txn_revalidate_def world_env_def split: sum.splits)
  have au: "authorize parse a (policy_context_of baseline recovery (wall (wd_clock_no w))) = Inr ()"
    using assms r1 b w1
    by (cases "authorize parse a (policy_context_of baseline recovery (wall (wd_clock_no w)))")
      (auto simp: txn_run_def env)
  have "is_ok v2" using assms r1 b au r2 w1 w2 by (cases v2) (auto simp: txn_run_def env)
  then obtain confirmed where c: "v2 = Inr confirmed" by (cases v2) auto
  have "\<exists>snap q. txn_commit ?env t a baseline confirmed q (w2\<lparr>wd_clock_no := Suc (wd_clock_no w2)\<rparr>) = Some (res, w')"
    using assms r1 b au r2 c w1 w2
    by (cases "te_snapshot ?env baseline a") (auto simp: txn_run_def env)
  then obtain final where "wd_reads w2 (wd_read_no w2) = Inr final"
      "evidence_acceptable a (Some confirmed) final = Inr final"
    using world_commit_reads assms(2) w1 w2 by fastforce
  with b au r1 r2 c w1 w2 show ?thesis by (auto simp: world_revalidate)
qed

text \<open>C5: Whatever the environment does, one run reaches the executor at most once, with exactly the
  requested action, and only after every guard passed: the action validates; the first reading of the
  evidence is acceptable and the policy authorises the action on that reading at that time; the second
  reading is acceptable as a continuation of the first, and the third, taken after the claim, as a
  continuation of the second. The target had no transaction in progress, the key was never used, and at
  the moment of the call the ledger durably held this transaction's record in phase Begun.\<close>

theorem txn_execution_gated:
  assumes "txn_run (world_env parse snapshot debug wall) t owner a recovery w = Some (res, w')"
    and "wd_sent w' \<noteq> wd_sent w"
  shows "\<exists>m r answer baseline confirmed final.
    wd_sent w' = wd_sent w @ [(a, m, answer)] \<and>
    m t = Some r \<and> ar_phase r = Begun \<and> idempotency_key r = request_key t a \<and>
    world_active w t = None \<and> request_key t a \<notin> world_keys w \<and>
    validate_action parse a = Inr () \<and>
    wd_reads w (wd_read_no w) = Inr baseline \<and> evidence_acceptable a None baseline = Inr baseline \<and>
    authorize parse a (policy_context_of baseline recovery (wall (wd_clock_no w))) = Inr () \<and>
    wd_reads w (wd_read_no w + 1) = Inr confirmed \<and>
    evidence_acceptable a (Some baseline) confirmed = Inr confirmed \<and>
    wd_reads w (wd_read_no w + 2) = Inr final \<and> evidence_acceptable a (Some confirmed) final = Inr final"
  using assms(1)
proof (cases rule: world_run_cases)
  case untouched
  with assms(2) show ?thesis by simp
next
  case (claimed baseline wall')
  with assms(2) world_run_reads [OF assms] show ?thesis by blast
qed

theorem txn_execution_gated_witness:
  "\<exists>res w' m r. txn_run example_env ''w'' example_owner example_submit example_recovery example_world =
       Some (res, w') \<and> wd_sent w' = wd_sent example_world @ [(example_submit, m, Inr Committed)] \<and>
     m ''w'' = Some r \<and> ar_phase r = Begun \<and>
     evidence_acceptable example_submit (Some example_live) example_live = Inr example_live"
proof -
  obtain r m w' where run:
      "txn_run example_env ''w'' example_owner example_submit example_recovery example_world = Some (Inr r, w')"
      "wd_sent w' = wd_sent example_world @ [(example_submit, m, Inr Committed)]"
    using example_run by blast
  then have "wd_sent w' \<noteq> wd_sent example_world" by simp
  from txn_execution_gated [OF run(1) [unfolded example_env_def] this] run show ?thesis
    by (auto simp: example_world_def)
qed

text \<open>C7: The result of a run and the ledger agree. Success means the target's transaction is closed and
  its last audit record is the returned one, in phase Succeeded. An uncertain outcome means it is
  closed as HumanRequired. Any other refusal leaves ledger and target as they were, or closes the
  transaction as Failed, or (only when the store itself failed) leaves this transaction's record
  active, so that nothing else can start on the target.\<close>

theorem txn_result_matches_ledger:
  assumes "txn_run (world_env parse snapshot debug wall) t owner a recovery w = Some (res, w')"
  shows "case res of
      Inr r \<Rightarrow> ar_phase r = Succeeded \<and> world_active w' t = None \<and> world_audit w' t \<noteq> [] \<and>
        last (world_audit w' t) = r
    | Inl (UncertainOutcome e) \<Rightarrow> world_active w' t = None \<and> world_audit w' t \<noteq> [] \<and>
        ar_phase (last (world_audit w' t)) = HumanRequired
    | Inl err \<Rightarrow>
        (wd_sent w' = wd_sent w \<and> world_active w' = world_active w \<and> world_audit w' = world_audit w) \<or>
        (world_active w' t = None \<and> world_audit w' t \<noteq> [] \<and> ar_phase (last (world_audit w' t)) = Failed) \<or>
        ((\<exists>e. err = Store e) \<and>
         (\<exists>r. world_active w' t = Some r \<and> idempotency_key r = request_key t a))"
  using assms
proof (cases rule: world_run_cases)
  case untouched
  then show ?thesis by (auto split: sum.split txn_error.split)
next
  case (claimed baseline wall')
  from claimed(5) show ?thesis
    by (auto simp: wd.agrees_def wd.settled_def wd.pending_def split: sum.splits txn_error.splits)
qed

theorem txn_result_matches_ledger_witness:
  "\<exists>r w'. txn_run example_env ''w'' example_owner example_submit example_recovery example_world =
       Some (Inr r, w') \<and>
     ar_phase r = Succeeded \<and> world_active w' ''w'' = None \<and> last (world_audit w' ''w'') = r"
proof -
  obtain r m w' where run:
      "txn_run example_env ''w'' example_owner example_submit example_recovery example_world = Some (Inr r, w')"
      "wd_sent w' = wd_sent example_world @ [(example_submit, m, Inr Committed)]"
    using example_run by blast
  from txn_result_matches_ledger [OF run(1) [unfolded example_env_def]] run show ?thesis by auto
qed

text \<open>C6: A possible side effect is never denied. Once the executor was called and did not refuse before
  acting (it answered with an output, or reported a possible side effect), the run reports success, an
  uncertain outcome or a store failure, and the ledger does not close the transaction as Failed.\<close>

theorem possible_side_effect_never_denied:
  assumes "txn_run (world_env parse snapshot debug wall) t owner a recovery w = Some (res, w')"
    and "wd_sent w' = wd_sent w @ [(a, m, answer)]"
    and "(\<exists>out. answer = Inr out) \<or> (\<exists>reason. answer = Inl (PossibleSideEffect reason))"
  shows "((\<exists>r. res = Inr r) \<or> (\<exists>e. res = Inl (UncertainOutcome e)) \<or> (\<exists>e. res = Inl (Store e))) \<and>
    (world_active w' t = None \<longrightarrow> world_audit w' t \<noteq> [] \<and> ar_phase (last (world_audit w' t)) \<noteq> Failed)"
  using assms(1)
proof (cases rule: world_run_cases)
  case untouched
  with assms(2) show ?thesis by simp
next
  case (claimed baseline wall')
  from claimed(7) assms(2,3) have u: "wd.undenied t res w'" by auto
  with claimed(5) show ?thesis
    by (auto simp: wd.agrees_def wd.undenied_def wd.settled_def wd.pending_def
        split: sum.splits txn_error.splits)
qed

theorem possible_side_effect_never_denied_witness:
  "\<exists>r m w'. txn_run example_env ''w'' example_owner example_submit example_recovery example_world =
       Some (Inr r, w') \<and> wd_sent w' = wd_sent example_world @ [(example_submit, m, Inr Committed)] \<and>
     (world_active w' ''w'' = None \<longrightarrow> ar_phase (last (world_audit w' ''w'')) \<noteq> Failed)"
proof -
  obtain r m w' where run:
      "txn_run example_env ''w'' example_owner example_submit example_recovery example_world = Some (Inr r, w')"
      "wd_sent w' = wd_sent example_world @ [(example_submit, m, Inr Committed)]"
    using example_run by blast
  from possible_side_effect_never_denied [OF run(1) [unfolded example_env_def] run(2)] run show ?thesis
    by auto
qed

section \<open>At most once\<close>

text \<open>What the daemon does with the ledger over its lifetime, restarts included.\<close>

datatype ledger_event =
    RunTransaction string owner_identity action recovery_context
  | RestartRecovery string
  | StaleRecovery string "owner_identity list"

fun daemon_step :: "world txn_env \<Rightarrow> ledger_event \<Rightarrow> world \<Rightarrow> world option" where
  "daemon_step env (RunTransaction t owner a recovery) w = map_option snd (txn_run env t owner a recovery w)"
| "daemon_step env (RestartRecovery t) w = Some (snd (recover_after_restart env t w))"
| "daemon_step env (StaleRecovery t alive) w = Some (snd (recover_stale env (\<lambda>ow. ow \<in> set alive) t w))"

text \<open>How often a sequence of steps executes an action under a key.\<close>

fun step_executes :: "string \<Rightarrow> ledger_event \<Rightarrow> world \<Rightarrow> world \<Rightarrow> nat" where
  "step_executes key (RunTransaction t owner a recovery) w w' =
     (if request_key t a = key then length (wd_sent w') - length (wd_sent w) else 0)"
| "step_executes key _ w w' = 0"

fun executions_of :: "world txn_env \<Rightarrow> string \<Rightarrow> ledger_event list \<Rightarrow> world \<Rightarrow> nat" where
  "executions_of env key [] w = 0"
| "executions_of env key (x # xs) w =
     (case daemon_step env x w of None \<Rightarrow> 0
      | Some w' \<Rightarrow> step_executes key x w w' + executions_of env key xs w')"

lemma daemon_step_keys:
  assumes "daemon_step (world_env parse snapshot debug wall) x w = Some w'"
  shows "world_keys w \<subseteq> world_keys w'"
proof (cases x)
  case (RunTransaction t owner a recovery)
  with assms obtain res where
    "txn_run (world_env parse snapshot debug wall) t owner a recovery w = Some (res, w')" by auto
  then show ?thesis by (cases rule: world_run_cases) auto
next
  case (RestartRecovery t)
  with assms wd.recover_after_restart_cases [of parse snapshot debug wall t w] show ?thesis
    by (cases "recover_after_restart (world_env parse snapshot debug wall) t w")
      (auto simp: wd.recovered_def)
next
  case (StaleRecovery t alive)
  with assms wd.recover_stale_cases [of parse snapshot debug wall "\<lambda>ow. ow \<in> set alive" t w] show ?thesis
    by (cases "recover_stale (world_env parse snapshot debug wall) (\<lambda>ow. ow \<in> set alive) t w")
      (auto simp: wd.recovered_def)
qed

lemma daemon_step_executes:
  assumes "daemon_step (world_env parse snapshot debug wall) x w = Some w'"
  shows "step_executes key x w w' \<le> 1 \<and>
    (step_executes key x w w' = 1 \<longrightarrow> key \<notin> world_keys w \<and> key \<in> world_keys w')"
proof (cases x)
  case (RunTransaction t owner a recovery)
  with assms obtain res where
    "txn_run (world_env parse snapshot debug wall) t owner a recovery w = Some (res, w')" by auto
  then show ?thesis
    by (cases rule: world_run_cases) (use RunTransaction in auto)
qed auto

lemma executions_of_used_key:
  "key \<in> world_keys w \<Longrightarrow> executions_of (world_env parse snapshot debug wall) key xs w = 0"
proof (induction xs arbitrary: w)
  case (Cons x xs)
  show ?case
  proof (cases "daemon_step (world_env parse snapshot debug wall) x w")
    case (Some w')
    note e = daemon_step_executes [OF Some, of key]
    have "step_executes key x w w' = 0" using e Cons.prems by linarith
    moreover have "key \<in> world_keys w'" using daemon_step_keys [OF Some] Cons.prems by blast
    ultimately show ?thesis using Some Cons.IH by simp
  qed simp
qed simp

text \<open>C1: Over any sequence of transactions, restart recoveries and stale-lease recoveries, an action is
  executed at most once per target, action id and evidence fingerprint, however the environment, the
  executor and the disk behave: no retry repeats a side effect.\<close>

theorem executed_at_most_once:
  "executions_of (world_env parse snapshot debug wall) key xs w \<le> 1"
proof (induction xs arbitrary: w)
  case (Cons x xs)
  show ?case
  proof (cases "daemon_step (world_env parse snapshot debug wall) x w")
    case (Some w')
    note e = daemon_step_executes [OF Some, of key]
    show ?thesis
    proof (cases "step_executes key x w w' = 1")
      case True
      then show ?thesis using e Some executions_of_used_key by simp
    next
      case False
      then have "step_executes key x w w' = 0" using e by linarith
      then show ?thesis using Some Cons.IH by simp
    qed
  qed simp
qed simp

text \<open>Recovery after a restart executes nothing, and it settles whatever transaction it finds: one still
  in phase Prepared (before its commit boundary) is closed as Failed, any later one as HumanRequired;
  if the ledger cannot be written, the record stays active.\<close>

theorem restart_never_retries:
  assumes "recover_after_restart (world_env parse snapshot debug wall) t w = (res, w')"
    and "world_active w t = Some r"
  shows "wd_sent w' = wd_sent w \<and>
    (case res of
       Inl err \<Rightarrow> world_active w' = world_active w
     | Inr None \<Rightarrow> False
     | Inr (Some fin) \<Rightarrow>
         ar_phase fin = (if ar_phase r = Prepared then Failed else HumanRequired) \<and>
         idempotency_key fin = idempotency_key r \<and>
         world_active w' t = None \<and> world_audit w' t = world_audit w t @ [fin])"
  using wd.recover_after_restart_cases [OF assms(1)] assms(2)
  by (auto simp: wd.recovered_def split: sum.splits option.splits)

theorem restart_never_retries_witness:
  "case recover_after_restart example_env ''w'' interrupted_world of
     (Inr (Some fin), w') \<Rightarrow> ar_phase fin = HumanRequired \<and> wd_sent w' = wd_sent interrupted_world
   | (_, w') \<Rightarrow> wd_sent w' = wd_sent interrupted_world"
proof (cases "recover_after_restart example_env ''w'' interrupted_world")
  case (Pair res w')
  from restart_never_retries [OF Pair [unfolded example_env_def] interrupted_active] Pair show ?thesis
    by (auto split: sum.splits option.splits)
qed

text \<open>A live owner keeps its transaction: recovery of stale transactions changes nothing while the
  recorded owner is alive, and it never executes an action.\<close>

theorem stale_recovery_respects_owner:
  assumes "recover_stale (world_env parse snapshot debug wall) probe t w = (res, w')"
    and "world_active w t = Some r" and "probe (ar_owner r)"
  shows "(\<exists>err. res = Inl err) \<and> wd_sent w' = wd_sent w \<and> world_active w' = world_active w \<and>
    world_audit w' = world_audit w"
  using wd.recover_stale_cases [OF assms(1)] assms(2,3)
  by (auto simp: wd.recovered_def)

theorem stale_recovery_respects_owner_witness:
  "\<exists>err. fst (recover_stale example_env (\<lambda>_. True) ''w'' interrupted_world) = Inl err"
proof (cases "recover_stale example_env (\<lambda>_. True) ''w'' interrupted_world")
  case (Pair res w')
  from stale_recovery_respects_owner [OF Pair [unfolded example_env_def] interrupted_active] Pair
  show ?thesis by auto
qed

end
