(* ===== verification/Engine.thy ===== *)
theory Engine
  imports Transaction_Properties
begin

text \<open>
  The recovery engine (\<open>src/src/recovery/engine.rs\<close>): the recipe provider is a function from a watcher
  to an action, the built-in recipe proposes a bounded wait, and \<open>execute\<close> runs the proposed action as a
  transaction under the budget that the watcher's recovery machine leaves.
\<close>

section \<open>Recipes\<close>

definition builtin_wait :: "event \<Rightarrow> action" where
  "builtin_wait e =
     (let a = action_new ''builtin.wait'' (WaitDuration 60) ''explicit wait-allowed observation''
                (evidence_fingerprint e) 30
      in a\<lparr>preconditions := preconditions a @
             [\<lparr>cond_kind = ''PROCESS_ALIVE'', cond_value = None\<rparr>,
              \<lparr>cond_kind = ''EVENT_CATEGORY_IS'',
               cond_value = Some (JString (to_ascii_uppercase (category_debug (ev_category e))))\<rparr>],
           expected_outcomes := [\<lparr>cond_kind = ''WAIT_STATE_RECORDED'', cond_value = None\<rparr>]\<rparr>)"

definition builtin_action_for :: "watcher_state \<Rightarrow> action option" where
  "builtin_action_for watcher =
     (case ws_last_observation watcher of
        None \<Rightarrow> None
      | Some e \<Rightarrow>
          if ev_policy_hint e \<noteq> WaitAllowed
             \<or> \<not> (ev_category e = WaitingForModel \<or> ev_category e = WaitingForTool)
          then None else Some (builtin_wait e))"

section \<open>The engine\<close>

definition engine_execute ::
  "'w txn_env \<Rightarrow> (watcher_state \<Rightarrow> action option) \<Rightarrow> watcher_state \<Rightarrow> owner_identity \<Rightarrow> 'w
     \<Rightarrow> ((txn_error, action_record option) result \<times> 'w) option" where
  "engine_execute env recipes watcher owner w =
     (case recipes watcher of
        None \<Rightarrow> Some (Inr None, w)
      | Some a \<Rightarrow>
          (case te_monotonic_ms env w of (now, w1) \<Rightarrow>
             (case recovery_context_from_watcher watcher (now div 1000) of
                Inl e \<Rightarrow> Some (Inl (PolicyDenied e), w1)
              | Inr ctx \<Rightarrow>
                  map_option (\<lambda>(res, w2). (map_sum id Some res, w2))
                    (txn_run env (watcher_id watcher) owner a ctx w1))))"

text \<open>\<open>RecoveryEngine::recover_after_restart\<close> and \<open>recover_stale\<close> only pass on to the transaction.\<close>

section \<open>Properties\<close>

lemma builtin_wait_fields:
  "act_kind (builtin_wait e) = WaitDuration 60" "timeout_seconds (builtin_wait e) = 30"
  "action_id (builtin_wait e) = ''builtin.wait''"
  by (simp_all add: builtin_wait_def Let_def)

lemma execute_sends_recipe:
  assumes "engine_execute (world_env parse snapshot debug wall) recipes watcher owner w = Some (res, w')"
    and "(a, m, answer) \<in> set (wd_sent w')"
  shows "(a, m, answer) \<in> set (wd_sent w) \<or> recipes watcher = Some a"
proof (cases "recipes watcher")
  case None
  with assms show ?thesis by (simp add: engine_execute_def)
next
  case (Some b)
  let ?env = "world_env parse snapshot debug wall"
  obtain now w1 where mono: "te_monotonic_ms ?env w = (now, w1)" by fastforce
  then have sent: "wd_sent w1 = wd_sent w" by (auto simp: world_env_def)
  show ?thesis
  proof (cases "recovery_context_from_watcher watcher (now div 1000)")
    case (Inl e)
    with assms Some mono sent show ?thesis by (simp add: engine_execute_def)
  next
    case (Inr ctx)
    with assms(1) Some mono obtain res0 where
      "txn_run ?env (watcher_id watcher) owner b ctx w1 = Some (res0, w')"
      by (auto simp: engine_execute_def)
    then show ?thesis
      by (cases rule: world_run_cases) (use assms(2) sent Some in auto)
  qed
qed

definition waiting_watcher :: watcher_state where
  "waiting_watcher = (watcher_state_new ''w'' (Process (process_identity_new 7 9)) watcher_lifecycle.Observing 0 1)
     \<lparr>ws_recovery := Some (rm_run [Revalidated, Confirm ''fedcba9876543210'']
         (rm_new \<lparr>max_attempts = 3, max_cumulative_wait = dur_from_secs 300, budget_planner_calls = 0,
            cooldown = 0\<rparr>)),
      ws_last_observation := Some example_event\<rparr>"

definition waiting_world :: world where
  "waiting_world = example_world\<lparr>wd_executor := (\<lambda>_ _. Inr (Scheduled (dur_from_secs 60)))\<rparr>"

definition waiting_context :: recovery_context where
  "waiting_context = \<lparr>rc_attempts_remaining = 3, rc_cumulative_wait_remaining_seconds = 300,
     rc_planner_calls_remaining = 0, rc_planner_concurrency_available = False, rc_cooldown_ready = True,
     rc_session_id = None, rc_failed_provider_family = None, rc_planner_provider_family = None\<rparr>"

lemma waiting_action: "builtin_action_for waiting_watcher = Some (builtin_wait example_event)"
  by (simp add: builtin_action_for_def waiting_watcher_def example_event_simps)

lemma waiting_context_of: "recovery_context_from_watcher waiting_watcher 0 = Inr waiting_context"
  by (simp add: recovery_context_from_watcher_def waiting_watcher_def watcher_state_new_def rm_op_defs
      rm_transition_def rm_new_def example_event_simps Let_def waiting_context_def sat_sub_def
      dur_as_secs_def dur_sat_sub_def dur_from_secs_def NANOS_PER_SEC_def)

lemma waiting_guards:
  "validate_action (\<lambda>_. Some 0) (builtin_wait example_event) = Inr ()"
  "authorize (\<lambda>_. Some 0) (builtin_wait example_event)
     (policy_context_of example_live waiting_context ''now'') = Inr ()"
  "evidence_acceptable (builtin_wait example_event) None example_live = Inr example_live"
  "evidence_acceptable (builtin_wait example_event) (Some example_live) example_live = Inr example_live"
  by code_simp+

lemma waiting_outcomes:
  "receipt_outcomes_hold (Scheduled d) (expected_outcomes (builtin_wait example_event))"
  "\<not> needs_progress_verification (act_kind (builtin_wait example_event))
      (expected_outcomes (builtin_wait example_event))"
  by (simp_all add: builtin_wait_def Let_def receipt_outcomes_hold_def needs_progress_verification_def
      PROGRESS_OUTCOMES_def)

lemma waiting_run:
  "\<exists>res w' m. engine_execute example_env builtin_action_for waiting_watcher example_owner waiting_world =
     Some (res, w') \<and> wd_sent w' = [(builtin_wait example_event, m, Inr (Scheduled (dur_from_secs 60)))]"
  by (simp add: engine_execute_def waiting_action waiting_context_of waiting_guards waiting_outcomes
      waiting_world_def
      example_run_simps)

text \<open>With the built-in recipes the engine never types into a target: every action it hands to the
  executor is the wait of sixty seconds built from the watcher's last observation, and only when that
  observation says that waiting is allowed.\<close>

theorem builtin_engine_only_waits:
  assumes "engine_execute (world_env parse snapshot debug wall) builtin_action_for watcher owner w = Some (res, w')"
    and "(a, m, answer) \<in> set (wd_sent w')" "(a, m, answer) \<notin> set (wd_sent w)"
  shows "act_kind a = WaitDuration 60 \<and>
    (\<exists>e. ws_last_observation watcher = Some e \<and> ev_policy_hint e = WaitAllowed \<and> a = builtin_wait e)"
  using execute_sends_recipe [OF assms(1,2)] assms(3)
  by (auto simp: builtin_action_for_def builtin_wait_fields split: option.splits if_splits)

theorem builtin_engine_only_waits_witness:
  "\<exists>res w' m answer. engine_execute example_env builtin_action_for waiting_watcher example_owner waiting_world =
       Some (res, w') \<and> (builtin_wait example_event, m, answer) \<in> set (wd_sent w') \<and>
     act_kind (builtin_wait example_event) = WaitDuration 60"
proof -
  obtain res w' m where run:
      "engine_execute example_env builtin_action_for waiting_watcher example_owner waiting_world = Some (res, w')"
      "wd_sent w' = [(builtin_wait example_event, m, Inr (Scheduled (dur_from_secs 60)))]"
    using waiting_run by blast
  have "wd_sent waiting_world = []" by (simp add: waiting_world_def example_world_def)
  with run builtin_engine_only_waits [OF run(1) [unfolded example_env_def]] show ?thesis by simp
qed

text \<open>The built-in recipe is never wasted: on live, revalidated evidence that is the watcher's own
  last observation, with an attempt, the cooldown and sixty seconds of wait budget left, the policy
  authorises exactly the action the recipe proposes.\<close>

theorem builtin_recipe_authorised:
  assumes "builtin_action_for watcher = Some a" "ws_last_observation watcher = Some (le_event live)"
    and "event_valid parse (le_event live)"
    and "le_target_revalidated live" "le_process_alive live" "le_pane_matches live"
      "le_evidence_current live" "\<not> le_human_intervened live"
    and "rc_attempts_remaining ctx \<noteq> 0" "rc_cooldown_ready ctx" "60 \<le> rc_cumulative_wait_remaining_seconds ctx"
  shows "authorize parse a (policy_context_of live ctx wall) = Inr ()"
proof -
  have a: "a = builtin_wait (le_event live)"
    using assms(1,2) by (auto simp: builtin_action_for_def split: if_splits)
  have fp: "length (evidence_fingerprint (le_event live)) \<le> 256"
    using assms(3) by (auto simp: event_valid_def well_formed_hash_def)
  have cat: "length (to_ascii_uppercase (category_debug c)) \<le> 256" for c
    by (cases c) (simp_all add: to_ascii_uppercase_def)
  have "well_formed_id ''builtin.wait''"
    by (simp add: well_formed_id_def is_ascii_alphanumeric_def is_ascii_digit_def is_ascii_upper_def
        is_ascii_lower_def)
  then have "action_valid parse a"
    using fp cat by (simp add: a builtin_wait_def Let_def action_valid_def action_new_def
        valid_precondition_def valid_outcome_def scalar_value_def PRECONDITION_KINDS_def OUTCOME_KINDS_def)
  then have "policy_permits parse a (policy_context_of live ctx wall)"
    using assms(4-11)
    by (simp add: policy_permits_def live_target_def wait_within_budget_def a builtin_wait_def Let_def
        action_new_def policy_context_of_def policy_context_safe_def precondition_holds_def cond_text_def
        word_gt_0)
  then show ?thesis by (simp add: authorize_permits)
qed

theorem builtin_recipe_authorised_witness:
  "authorize (\<lambda>_. Some 0) (builtin_wait example_event)
     (policy_context_of example_live waiting_context ''now'') = Inr ()"
proof (rule builtin_recipe_authorised [OF waiting_action])
  show "ws_last_observation waiting_watcher = Some (le_event example_live)"
    by (simp add: waiting_watcher_def example_live_def)
  have "event_validate (\<lambda>_. Some 0) (le_event example_live) = Inr ()" by code_simp
  then show "event_valid (\<lambda>_. Some 0) (le_event example_live)" by (simp add: result_simps)
qed (simp_all add: example_live_def waiting_context_def)

end
