(* ===== verification/Registry.thy ===== *)
theory Registry
  imports Watcher_State Durable_Store
begin

text \<open>
  The watcher registry (\<open>src/src/daemon/registry.rs\<close>) and the coordinator's entry points
  (\<open>src/src/recovery/coordinator.rs\<close>): the durable map from watcher ids to watcher states, its loader,
  registration, the mutations of a registered watcher and the dispatch tokens. Every mutation works on a
  copy of the map, writes it, and replaces the map only after the write succeeded. The lifecycle
  audit, whose failure the registry only prints, is the list of entries handed to it.
\<close>

section \<open>State\<close>

text \<open>\<open>Unwound\<close> is a panic of the recovery machine passing through.\<close>

datatype registry_error =
    StoreFailed string
  | Unknown string
  | IdCollision string
  | RevisionOverflow string
  | CorruptRegistry string
  | Unwound string

datatype registration_outcome = Added string | Existing string | Revalidated string

definition RESTART_REVALIDATION_REASON :: string where
  "RESTART_REVALIDATION_REASON = ''target revalidation required after daemon restart''"

record persisted_registry =
  pr_version :: u16
  pr_watchers :: "watcher_state list"

record registry =
  reg_store :: "persisted_registry json_store"
  reg_watchers :: "watcher_state btree"
  reg_audited :: bool
  reg_audit_log :: "(watcher_state \<times> string) list"

type_synonym 'a registry_result = "(registry_error, 'a) result \<times> registry"

section \<open>Targets\<close>

abbreviation target_process :: "target_identity \<Rightarrow> process_identity" where
  "target_process \<equiv> ti_process"

definition same_process :: "process_identity \<Rightarrow> process_identity \<Rightarrow> bool" where
  "same_process l r = (pi_pid l = pi_pid r \<and> pi_start_time l = pi_start_time r)"

fun stable_target_eq :: "target_identity \<Rightarrow> target_identity \<Rightarrow> bool" where
  "stable_target_eq (Process l) (Process r) = same_process l r"
| "stable_target_eq (Multiplexer lp ls lpane l _ _ _ _) (Multiplexer rp rs rpane r _ _ _ _) =
     (lp = rp \<and> ls = rs \<and> lpane = rpane \<and> same_process l r)"
| "stable_target_eq _ _ = False"

definition exact_process_eq :: "target_identity \<Rightarrow> target_identity \<Rightarrow> bool" where
  "exact_process_eq l r = same_process (target_process l) (target_process r)"

fun is_richer_target :: "target_identity \<Rightarrow> target_identity \<Rightarrow> bool" where
  "is_richer_target (Process _) (Multiplexer _ _ _ _ _ (Some _) _ False) = True"
| "is_richer_target _ _ = False"

definition compatible_attachment :: "'a option \<Rightarrow> 'a option \<Rightarrow> bool" where
  "compatible_attachment existing fresh = (existing = None \<or> fresh = None \<or> existing = fresh)"

fun with_process :: "process_identity \<Rightarrow> target_identity \<Rightarrow> target_identity" where
  "with_process p (Process _) = Process p"
| "with_process p (Multiplexer provider server pane _ session ctx chrome nr) =
     Multiplexer provider server pane p session ctx chrome nr"

section \<open>Writing\<close>

definition persist_watchers :: "watcher_state btree \<Rightarrow> registry \<Rightarrow> unit registry_result" where
  "persist_watchers ws r =
     (case js_write \<lparr>pr_version = 1, pr_watchers = bt_values ws\<rparr> (reg_store r) of
        (Inl e, s) \<Rightarrow> (Inl (StoreFailed e), r\<lparr>reg_store := s\<rparr>)
      | (Inr _, s) \<Rightarrow> (Inr (), r\<lparr>reg_store := s\<rparr>))"

text \<open>\<open>self.persist_watchers(&updated)?; self.watchers = updated;\<close>\<close>

definition replace_watchers :: "watcher_state btree \<Rightarrow> registry \<Rightarrow> unit registry_result" where
  "replace_watchers ws r =
     (case persist_watchers ws r of
        (Inl e, r1) \<Rightarrow> (Inl e, r1)
      | (Inr _, r1) \<Rightarrow> (Inr (), r1\<lparr>reg_watchers := ws\<rparr>))"

definition next_revision :: "watcher_state \<Rightarrow> (registry_error, u64) result" where
  "next_revision w =
     ok_or (RevisionOverflow (watcher_id w)) (chk_add (ws_revision w) 1)"

text \<open>
  The shape all mutations of one watcher share: look the watcher up in a copy of the map, change it,
  advance its revision and its timestamp, write the copy, then make it current. The change may fail,
  and it may yield a value for the caller.
\<close>

definition update_watcher ::
  "string \<Rightarrow> (watcher_state \<Rightarrow> (registry_error, watcher_state \<times> 'a) result) \<Rightarrow> u64 \<Rightarrow> registry
     \<Rightarrow> 'a registry_result" where
  "update_watcher wid change now r =
     (case bt_get (reg_watchers r) wid of
        None \<Rightarrow> (Inl (Unknown wid), r)
      | Some w \<Rightarrow>
          (case rbind (change w) (\<lambda>(w1, x).
                  rbind (next_revision w1) (\<lambda>rev.
                    Inr (w1\<lparr>ws_revision := rev, updated_at_unix_ms := now\<rparr>, x))) of
             Inl e \<Rightarrow> (Inl e, r)
           | Inr (w2, x) \<Rightarrow>
               (case replace_watchers (bt_insert wid w2 (reg_watchers r)) r of
                  (Inl e, r1) \<Rightarrow> (Inl e, r1)
                | (Inr _, r1) \<Rightarrow> (Inr x, r1))))"

definition change_watcher ::
  "string \<Rightarrow> (watcher_state \<Rightarrow> watcher_state) \<Rightarrow> u64 \<Rightarrow> registry \<Rightarrow> unit registry_result" where
  "change_watcher wid f = update_watcher wid (\<lambda>w. Inr (f w, ()))"

definition audit_lifecycle :: "string \<Rightarrow> string \<Rightarrow> registry \<Rightarrow> registry" where
  "audit_lifecycle wid msg r =
     (case bt_get (reg_watchers r) wid of
        None \<Rightarrow> r
      | Some w \<Rightarrow>
          if reg_audited r then r\<lparr>reg_audit_log := reg_audit_log r @ [(w, msg)]\<rparr> else r)"

fun lifecycle_message :: "watcher_lifecycle \<Rightarrow> string" where
  "lifecycle_message Registered = ''watcher resumed''"
| "lifecycle_message Observing = ''watcher resumed''"
| "lifecycle_message Paused = ''watcher paused''"
| "lifecycle_message (Waiting _ _) = ''capacity wait scheduled''"
| "lifecycle_message (HumanRequired _) = ''human handoff''"
| "lifecycle_message TargetTerminated = ''target terminated''"
| "lifecycle_message (Stopped _) = ''watcher stopped''"
| "lifecycle_message (Recovering _) = ''watcher lifecycle changed''"

section \<open>Loading\<close>

definition replay_budget :: budget where
  "replay_budget = \<lparr>max_attempts = 3, max_cumulative_wait = dur_from_secs 300, budget_planner_calls = 0,
     cooldown = dur_from_secs 60\<rparr>"

fun lifecycle_kept :: "watcher_lifecycle \<Rightarrow> bool" where
  "lifecycle_kept (Stopped _) = True"
| "lifecycle_kept TargetTerminated = True"
| "lifecycle_kept (HumanRequired _) = True"
| "lifecycle_kept _ = False"

text \<open>One watcher of the loop: first its recovery machine, then its lifecycle; the flag says whether
  anything changed.\<close>

definition replay_recovery :: "watcher_state \<Rightarrow> (registry_error, watcher_state \<times> bool) result" where
  "replay_recovery w =
     (case (if needs_revalidation (ws_target w) \<and> ws_recovery w = None
            then Some (rm_new replay_budget) else ws_recovery w) of
        None \<Rightarrow> Inr (w, False)
      | Some m \<Rightarrow>
          rbind (map_err (\<lambda>_. CorruptRegistry ''invalid recovery state'') (restore_for_restart m))
            (\<lambda>m1. Inr (w\<lparr>ws_recovery := Some m1\<rparr>, True)))"

definition replay_watcher :: "watcher_state \<Rightarrow> (registry_error, watcher_state \<times> bool) result" where
  "replay_watcher w =
     rbind (replay_recovery w) (\<lambda>(w1, changed).
       if lifecycle_kept (ws_lifecycle w1) then Inr (w1, changed)
       else let w2 = w1\<lparr>ws_lifecycle := HumanRequired RESTART_REVALIDATION_REASON\<rparr> in
         rbind (next_revision w2) (\<lambda>rev. Inr (w2\<lparr>ws_revision := rev\<rparr>, True)))"

fun replay_all :: "watcher_state btree \<Rightarrow> (registry_error, watcher_state btree \<times> bool) result" where
  "replay_all [] = Inr ([], False)"
| "replay_all ((k, w) # m) =
     rbind (replay_watcher w) (\<lambda>(w1, c1).
     rbind (replay_all m) (\<lambda>(m1, c2). Inr ((k, w1) # m1, c1 \<or> c2)))"

text \<open>
  \<open>Registry::load\<close> and \<open>load_with_audit\<close>. A file that cannot be opened or read ends the load with the
  store's error; that branch is the store's and is not part of \<open>js_load\<close>.
\<close>

definition registry_load :: "persisted_registry json_store \<Rightarrow> bool \<Rightarrow> (registry_error, registry) result" where
  "registry_load store audited =
     (case js_load store of (outcome, store1) \<Rightarrow>
      rbind (case outcome of
               Missing \<Rightarrow> Inr []
             | Corrupt quarantine \<Rightarrow> Inl (CorruptRegistry quarantine)
             | Present saved \<Rightarrow>
                 if pr_version saved = 1
                 then Inr (bt_from_list (map (\<lambda>w. (watcher_id w, w)) (pr_watchers saved)))
                 else Inl (CorruptRegistry ''unsupported registry version''))
        (\<lambda>ws. rbind (replay_all ws) (\<lambda>(ws1, changed).
           let r = \<lparr>reg_store = store1, reg_watchers = ws1, reg_audited = audited, reg_audit_log = []\<rparr> in
           if changed
           then (case persist_watchers ws1 r of (Inl e, _) \<Rightarrow> Inl e | (Inr _, r1) \<Rightarrow> Inr r1)
           else Inr r)))"

section \<open>Registration\<close>

definition replay_revalidated :: "watcher_state \<Rightarrow> bool" where
  "replay_revalidated w = (ws_lifecycle w = HumanRequired RESTART_REVALIDATION_REASON)"

definition attachment_upgrade :: "watcher_state \<Rightarrow> watcher_state \<Rightarrow> bool" where
  "attachment_upgrade existing fresh =
     ((ws_codex_session existing = None \<and> ws_codex_session fresh \<noteq> None)
      \<or> (ws_claude_session existing = None \<and> ws_claude_session fresh \<noteq> None))"

definition promotes :: "watcher_state \<Rightarrow> watcher_state \<Rightarrow> bool" where
  "promotes existing fresh =
     (is_richer_target (ws_target existing) (ws_target fresh) \<or> attachment_upgrade existing fresh)"

text \<open>The fields of the registered watcher that a refresh replaces, before revision and timestamp.\<close>

definition refreshed_watcher :: "watcher_state \<Rightarrow> watcher_state \<Rightarrow> watcher_state" where
  "refreshed_watcher existing fresh =
     (let w = existing\<lparr>ws_target := ws_target fresh\<rparr> in
      if promotes existing fresh then
        w\<lparr>ws_lifecycle := Registered, ws_recovery := None, ws_last_observation := None,
          ws_observation_schedule := (ws_observation_schedule w)\<lparr>event_wake_pending := True\<rparr>,
          ws_codex_session :=
            (if ws_codex_session fresh \<noteq> None then ws_codex_session fresh else ws_codex_session w),
          ws_claude_session :=
            (if ws_claude_session fresh \<noteq> None then ws_claude_session fresh else ws_claude_session w)\<rparr>
      else if replay_revalidated existing then
        w\<lparr>ws_lifecycle := Registered, ws_recovery := ws_recovery fresh\<rparr>
      else w)"

definition refresh_existing ::
  "string \<Rightarrow> watcher_state \<Rightarrow> registry \<Rightarrow> registration_outcome registry_result" where
  "refresh_existing wid fresh r =
     (case bt_get (reg_watchers r) wid of
        None \<Rightarrow> (Inl (Unknown wid), r)
      | Some existing \<Rightarrow>
          let upgraded = needs_revalidation (ws_target existing) \<and> \<not> needs_revalidation (ws_target fresh) in
          if \<not> compatible_attachment (ws_codex_session existing) (ws_codex_session fresh)
             \<or> \<not> compatible_attachment (ws_claude_session existing) (ws_claude_session fresh)
          then (Inl (IdCollision (watcher_id fresh)), r)
          else if \<not> promotes existing fresh \<and> \<not> upgraded \<and> \<not> replay_revalidated existing
          then (Inr (Existing wid), r)
          else
            (case change_watcher wid (\<lambda>w. refreshed_watcher existing fresh) (updated_at_unix_ms fresh) r of
               (Inl e, r1) \<Rightarrow> (Inl e, r1)
             | (Inr _, r1) \<Rightarrow>
                 (Inr (if promotes existing fresh \<or> replay_revalidated existing
                       then Revalidated wid else Existing wid),
                  audit_lifecycle wid
                    (if promotes existing fresh then ''watcher promoted'' else ''watcher resumed'') r1)))"

definition registry_register :: "watcher_state \<Rightarrow> registry \<Rightarrow> registration_outcome registry_result" where
  "registry_register w r =
     (case bt_get (reg_watchers r) (watcher_id w) of
        Some existing \<Rightarrow>
          if stable_target_eq (ws_target existing) (ws_target w)
          then refresh_existing (watcher_id existing) w r
          else (Inl (IdCollision (watcher_id w)), r)
      | None \<Rightarrow>
     (case find (\<lambda>x. stable_target_eq (ws_target x) (ws_target w)) (bt_values (reg_watchers r)) of
        Some existing \<Rightarrow> refresh_existing (watcher_id existing) w r
      | None \<Rightarrow>
     (case find (\<lambda>x. exact_process_eq (ws_target x) (ws_target w)) (bt_values (reg_watchers r)) of
        Some existing \<Rightarrow>
          if is_richer_target (ws_target existing) (ws_target w)
          then refresh_existing (watcher_id existing) w r
          else if is_richer_target (ws_target w) (ws_target existing)
          then (Inr (Existing (watcher_id existing)), r)
          else (Inl (IdCollision (watcher_id w)), r)
      | None \<Rightarrow>
          (case replace_watchers (bt_insert (watcher_id w) w (reg_watchers r)) r of
             (Inl e, r1) \<Rightarrow> (Inl e, r1)
           | (Inr _, r1) \<Rightarrow>
               (Inr (Added (watcher_id w)), audit_lifecycle (watcher_id w) ''watcher registered'' r1)))))"

section \<open>Mutations of a registered watcher\<close>

definition registry_transition :: "string \<Rightarrow> watcher_lifecycle \<Rightarrow> u64 \<Rightarrow> registry \<Rightarrow> unit registry_result" where
  "registry_transition wid lc now r =
     (case change_watcher wid (\<lambda>w. w\<lparr>ws_lifecycle := lc\<rparr>) now r of
        (Inl e, r1) \<Rightarrow> (Inl e, r1)
      | (Inr _, r1) \<Rightarrow> (Inr (), audit_lifecycle wid (lifecycle_message lc) r1))"

definition retarget_process :: "string \<Rightarrow> process_identity \<Rightarrow> u64 \<Rightarrow> registry \<Rightarrow> unit registry_result" where
  "retarget_process wid p = change_watcher wid (\<lambda>w. w\<lparr>ws_target := with_process p (ws_target w)\<rparr>)"

definition persist_recovery :: "string \<Rightarrow> recovery_machine \<Rightarrow> u64 \<Rightarrow> registry \<Rightarrow> unit registry_result" where
  "persist_recovery wid m = change_watcher wid (\<lambda>w. w\<lparr>ws_recovery := Some m\<rparr>)"

fun machine_error :: "fault \<Rightarrow> registry_error" where
  "machine_error (Failed reason) = CorruptRegistry reason"
| "machine_error (Panic reason) = Unwound reason"

definition apply_command :: "recovery_command \<Rightarrow> recovery_machine \<Rightarrow> (registry_error, recovery_machine) result" where
  "apply_command cmd m =
     (case rm_apply cmd m of (Inl e, _) \<Rightarrow> Inl (machine_error e) | (Inr _, m1) \<Rightarrow> Inr m1)"

definition apply_recovery_transition ::
  "string \<Rightarrow> recovery_command \<Rightarrow> u64 \<Rightarrow> registry \<Rightarrow> recovery_state registry_result" where
  "apply_recovery_transition wid cmd =
     update_watcher wid (\<lambda>w.
       rbind (ok_or (CorruptRegistry ''missing recovery state'') (ws_recovery w)) (\<lambda>m.
       rbind (apply_command cmd m) (\<lambda>m1.
         Inr (w\<lparr>ws_recovery := Some m1\<rparr>, rm_state m1))))"

definition persist_observation_schedule ::
  "string \<Rightarrow> observation_schedule \<Rightarrow> u64 \<Rightarrow> registry \<Rightarrow> unit registry_result" where
  "persist_observation_schedule wid schedule = change_watcher wid (\<lambda>w. w\<lparr>ws_observation_schedule := schedule\<rparr>)"

definition persist_observation_event :: "string \<Rightarrow> event \<Rightarrow> u64 \<Rightarrow> registry \<Rightarrow> unit registry_result" where
  "persist_observation_event wid e = change_watcher wid (\<lambda>w. w\<lparr>ws_last_observation := Some e\<rparr>)"

definition complete_wake :: "u64 \<Rightarrow> observation_schedule \<Rightarrow> observation_schedule" where
  "complete_wake now s =
     (if event_wake_pending s then s\<lparr>last_wake_completed_wall_ms := Some now\<rparr> else s)
       \<lparr>event_wake_pending := False\<rparr>"

definition complete_observation ::
  "string \<Rightarrow> event option \<Rightarrow> u64 \<Rightarrow> registry \<Rightarrow> unit registry_result" where
  "complete_observation wid ev now =
     change_watcher wid (\<lambda>w.
       (case ev of None \<Rightarrow> w | Some e \<Rightarrow> w\<lparr>ws_last_observation := Some e\<rparr>)
         \<lparr>ws_observation_schedule := complete_wake now (ws_observation_schedule w)\<rparr>) now"

section \<open>Committing an observation\<close>

definition fresh_claude_limit_after_menu :: "recovery_machine \<Rightarrow> event \<Rightarrow> bool" where
  "fresh_claude_limit_after_menu m e =
     (rm_state m = recovery_state.Recovered \<and> src_kind (ev_source e) = Hook
      \<and> source_id (ev_source e) = ''claude_stop_failure'' \<and> ev_policy_hint e = WaitAllowed
      \<and> bt_contains (ev_metadata e) ''claude_reset_at''
      \<and> rm_current m \<noteq> Some (evidence_fingerprint e))"

definition rearms :: "watcher_lifecycle \<Rightarrow> recovery_machine \<Rightarrow> event \<Rightarrow> bool" where
  "rearms lc m e =
     (rm_state m = recovery_state.Recovered
      \<and> (((case lc of Waiting _ _ \<Rightarrow> True | _ \<Rightarrow> False)
            \<and> (bt_get (ev_metadata e) ''claude_resume'' = Some (JBool True)
               \<or> bt_get (ev_metadata e) ''codex_resume'' = Some (JBool True)))
         \<or> fresh_claude_limit_after_menu m e))"

definition screen_is_stable :: "event \<Rightarrow> observation_schedule \<Rightarrow> bool" where
  "screen_is_stable e s = (src_kind (ev_source e) \<noteq> ScreenDetection \<or> 2 \<le> screen_stable_count s)"

text \<open>The steps the recovery machine takes for an event, with the lifecycle.\<close>

definition observe_machine ::
  "event \<Rightarrow> observation_schedule \<Rightarrow> watcher_lifecycle \<times> recovery_machine
     \<Rightarrow> (registry_error, watcher_lifecycle \<times> recovery_machine) result" where
  "observe_machine e s st =
     (case st of (lc, m) \<Rightarrow>
      rbind (if rm_state m = recovery_state.NeedsRevalidation
             then rbind (apply_command recovery_command.Revalidated m) (\<lambda>m1. Inr (watcher_lifecycle.Observing, m1))
             else Inr (lc, m)) (\<lambda>(lc1, m1).
      rbind (if rearms lc1 m1 e then apply_command RearmAfterWait m1 else Inr m1) (\<lambda>m2.
      rbind (if is_actionable (ev_category e) \<and> screen_is_stable e s
                \<and> rm_state m2 = recovery_state.Observing
             then apply_command (Confirm (evidence_fingerprint e)) m2 else Inr m2) (\<lambda>m3.
      Inr (lc1, m3)))))"

definition observed_watcher ::
  "observation_schedule \<Rightarrow> event option \<Rightarrow> u64 \<Rightarrow> watcher_state \<Rightarrow> (registry_error, watcher_state) result" where
  "observed_watcher schedule ev now w =
     (let w1 = w\<lparr>ws_observation_schedule := complete_wake now schedule\<rparr> in
      case ev of
        None \<Rightarrow> Inr w1
      | Some e \<Rightarrow>
          rbind (case ws_recovery w1 of
                   None \<Rightarrow> Inr w1
                 | Some m \<Rightarrow>
                     rbind (observe_machine e (ws_observation_schedule w1) (ws_lifecycle w1, m)) (\<lambda>(lc, m1).
                       Inr (w1\<lparr>ws_lifecycle := lc, ws_recovery := Some m1\<rparr>)))
            (\<lambda>w2. Inr (w2\<lparr>ws_last_observation := Some e\<rparr>)))"

definition commit_observation ::
  "string \<Rightarrow> observation_schedule \<Rightarrow> event option \<Rightarrow> u64 \<Rightarrow> registry \<Rightarrow> unit registry_result" where
  "commit_observation wid schedule ev now =
     update_watcher wid (\<lambda>w. rbind (observed_watcher schedule ev now w) (\<lambda>w1. Inr (w1, ()))) now"

section \<open>Waking\<close>

definition WAKE_COOLDOWN_MS :: u64 where
  "WAKE_COOLDOWN_MS = 60000"

definition valid_wake_fingerprint :: "string \<Rightarrow> bool" where
  "valid_wake_fingerprint fp = (16 \<le> length fp \<and> length fp \<le> 128 \<and> list_all is_ascii_hexdigit fp)"

definition duplicate_in_cooldown :: "string \<Rightarrow> u64 \<Rightarrow> observation_schedule \<Rightarrow> bool" where
  "duplicate_in_cooldown fp now s =
     (last_wake_fingerprint s = Some fp \<and>
      (case last_wake_completed_wall_ms s of None \<Rightarrow> False
       | Some completed \<Rightarrow> now < sat_add completed WAKE_COOLDOWN_MS))"

definition wake_observation :: "string \<Rightarrow> string \<Rightarrow> u64 \<Rightarrow> registry \<Rightarrow> unit registry_result" where
  "wake_observation wid fp now r =
     (if \<not> valid_wake_fingerprint fp then (Inl (CorruptRegistry ''invalid wake fingerprint''), r)
      else case bt_get (reg_watchers r) wid of
        None \<Rightarrow> (Inl (Unknown wid), r)
      | Some w \<Rightarrow>
          (let s = ws_observation_schedule w in
           if event_wake_pending s \<or> duplicate_in_cooldown fp now s then (Inr (), r)
           else persist_observation_schedule wid
             (s\<lparr>event_wake_pending := True, last_wake_fingerprint := Some fp\<rparr>) now r))"

section \<open>Dispatch tokens\<close>

record dispatch_snapshot =
  ds_watcher :: watcher_state

definition dispatch_snapshot_of :: "string \<Rightarrow> registry \<Rightarrow> (registry_error, dispatch_snapshot) result" where
  "dispatch_snapshot_of wid r =
     ok_or (Unknown wid) (map_option (\<lambda>w. \<lparr>ds_watcher = w\<rparr>) (bt_get (reg_watchers r) wid))"

text \<open>
  The derived equality of watchers: structural, except that the floating-point confidences of the last
  event are compared as numbers, so that not-a-number differs from itself.
\<close>

definition event_eq :: "event \<Rightarrow> event \<Rightarrow> bool" where
  "event_eq a b =
     (a = b \<and> f64_eq (ev_confidence a) (ev_confidence b)
      \<and> (case ev_reset a of None \<Rightarrow> True | Some x \<Rightarrow> f64_eq (reset_confidence x) (reset_confidence x)))"

definition watcher_eq :: "watcher_state \<Rightarrow> watcher_state \<Rightarrow> bool" where
  "watcher_eq a b =
     (a = b \<and> (case ws_last_observation a of None \<Rightarrow> True | Some e \<Rightarrow> event_eq e e))"

definition matches_dispatch_snapshot :: "dispatch_snapshot \<Rightarrow> registry \<Rightarrow> bool" where
  "matches_dispatch_snapshot snap r =
     (case bt_get (reg_watchers r) (watcher_id (ds_watcher snap)) of
        None \<Rightarrow> False | Some current \<Rightarrow> watcher_eq current (ds_watcher snap))"

section \<open>The coordinator\<close>

definition coordinator_begin_action ::
  "string \<Rightarrow> string \<Rightarrow> clock_snapshot \<Rightarrow> u64 \<Rightarrow> registry \<Rightarrow> recovery_state registry_result" where
  "coordinator_begin_action wid fp clk = apply_recovery_transition wid (BeginAction fp clk)"

definition coordinator_action_failed ::
  "string \<Rightarrow> string \<Rightarrow> duration \<Rightarrow> clock_snapshot \<Rightarrow> u64 \<Rightarrow> registry \<Rightarrow> recovery_state registry_result" where
  "coordinator_action_failed wid fp wait clk = apply_recovery_transition wid (ActionFailed fp wait clk)"

definition coordinator_action_succeeded ::
  "string \<Rightarrow> string \<Rightarrow> u64 \<Rightarrow> registry \<Rightarrow> recovery_state registry_result" where
  "coordinator_action_succeeded wid fp = apply_recovery_transition wid (ActionSucceeded fp)"

definition coordinator_planner_consulted :: "string \<Rightarrow> u64 \<Rightarrow> registry \<Rightarrow> recovery_state registry_result" where
  "coordinator_planner_consulted wid = apply_recovery_transition wid ReservePlanner"

end
