(* ===== verification/Registry_Properties.thy ===== *)
theory Registry_Properties
  imports Registry
begin

text \<open>
  What the registry guarantees: revisions only grow, a failed operation changes nothing, a dispatch
  token that still matches has matched all along, memory and disk agree, a restart loads nothing that
  could act, and registration keeps one watcher per process. The order of versions is the locale
  \<open>versioned_store\<close>, interpreted on the registry's operations.
\<close>

section \<open>Stores of versioned entries\<close>

text \<open>
  A store whose entries carry a version: a step keeps every entry or replaces it by one of a higher
  version. Then an entry seen twice has not changed in between.
\<close>

locale versioned_store =
  fixes step :: "'s \<Rightarrow> 's \<Rightarrow> bool"
    and entry :: "'s \<Rightarrow> 'k \<Rightarrow> 'v option"
    and version :: "'v \<Rightarrow> nat"
  assumes step_entry:
    "step s s' \<Longrightarrow> entry s k = Some v \<Longrightarrow>
       \<exists>v'. entry s' k = Some v' \<and> (v' = v \<or> version v < version v')"
begin

lemma steps_entry:
  assumes "step\<^sup>*\<^sup>* s s'" "entry s k = Some v"
  shows "\<exists>v'. entry s' k = Some v' \<and> (v' = v \<or> version v < version v')"
  using assms
proof (induction rule: rtranclp_induct)
  case (step y z)
  then obtain v' where "entry y k = Some v'" "v' = v \<or> version v < version v'" by blast
  with step_entry [OF step.hyps(2), of k v'] show ?case by force
qed simp

lemma entry_unchanged_between:
  assumes "step\<^sup>*\<^sup>* s m" "step\<^sup>*\<^sup>* m s'" "entry s k = Some v" "entry s' k = Some v"
  shows "entry m k = Some v"
proof -
  obtain u where u: "entry m k = Some u" "u = v \<or> version v < version u"
    using steps_entry [OF assms(1,3)] by blast
  obtain v' where "entry s' k = Some v'" "v' = u \<or> version u < version v'"
    using steps_entry [OF assms(2) u(1)] by blast
  with u assms(4) show ?thesis by auto
qed

end

section \<open>One operation\<close>

datatype registry_op =
    OpRegister watcher_state
  | OpTransition string watcher_lifecycle u64
  | OpRetarget string process_identity u64
  | OpPersistRecovery string recovery_machine u64
  | OpRecovery string recovery_command u64
  | OpPersistSchedule string observation_schedule u64
  | OpPersistEvent string event u64
  | OpComplete string "event option" u64
  | OpCommit string observation_schedule "event option" u64
  | OpWake string string u64

text \<open>The operation with its value forgotten.\<close>

definition no_value :: "'a registry_result \<Rightarrow> unit registry_result" where
  "no_value p = (map_sum id (\<lambda>_. ()) (fst p), snd p)"

fun registry_apply :: "registry_op \<Rightarrow> registry \<Rightarrow> unit registry_result" where
  "registry_apply (OpRegister w) r = no_value (registry_register w r)"
| "registry_apply (OpTransition wid lc now) r = registry_transition wid lc now r"
| "registry_apply (OpRetarget wid p now) r = retarget_process wid p now r"
| "registry_apply (OpPersistRecovery wid m now) r = persist_recovery wid m now r"
| "registry_apply (OpRecovery wid cmd now) r = no_value (apply_recovery_transition wid cmd now r)"
| "registry_apply (OpPersistSchedule wid s now) r = persist_observation_schedule wid s now r"
| "registry_apply (OpPersistEvent wid e now) r = persist_observation_event wid e now r"
| "registry_apply (OpComplete wid ev now) r = complete_observation wid ev now r"
| "registry_apply (OpCommit wid s ev now) r = commit_observation wid s ev now r"
| "registry_apply (OpWake wid fp now) r = wake_observation wid fp now r"

text \<open>
  What an operation may do to the map: nothing, replace one watcher by one with the next revision, or
  add a new one whose process nobody watches.
\<close>

definition bumps :: "watcher_state \<Rightarrow> watcher_state \<Rightarrow> bool" where
  "bumps w w' \<longleftrightarrow> watcher_id w' = watcher_id w \<and> unat (ws_revision w') = Suc (unat (ws_revision w))"

definition wrote :: "watcher_state btree \<Rightarrow> registry \<Rightarrow> registry \<Rightarrow> bool" where
  "wrote ws r r' \<longleftrightarrow> reg_watchers r' = ws \<and>
     (\<exists>u. js_write \<lparr>pr_version = 1, pr_watchers = bt_values ws\<rparr> (reg_store r) = (Inr u, reg_store r'))"

definition untouched_map :: "registry \<Rightarrow> registry \<Rightarrow> bool" where
  "untouched_map r r' \<longleftrightarrow> reg_watchers r' = reg_watchers r \<and>
     (reg_store r' = reg_store r \<or>
      (\<exists>v e. js_write v (reg_store r) = (Inl e, reg_store r')))"

lemma replace_watchers_cases:
  assumes "replace_watchers ws r = (res, r')"
  obtains (stored) "res = Inr ()" "wrote ws r r'"
  | (failed) e where "res = Inl e" "untouched_map r r'"
proof (cases "js_write \<lparr>pr_version = 1, pr_watchers = bt_values ws\<rparr> (reg_store r)")
  case (Pair x s)
  show thesis
  proof (cases x)
    case (Inl e)
    with Pair assms have "res = Inl (StoreFailed e)" "untouched_map r r'"
      by (auto simp: replace_watchers_def persist_watchers_def untouched_map_def)
    then show thesis by (rule failed)
  next
    case (Inr u)
    with Pair assms have "res = Inr ()" "wrote ws r r'"
      by (auto simp: replace_watchers_def persist_watchers_def wrote_def)
    then show thesis by (rule stored)
  qed
qed

lemma next_revision_ok: "next_revision w = Inr rv \<longleftrightarrow> unat rv = Suc (unat (ws_revision w))"
  by (simp add: next_revision_def result_simps chk_add_Some_iff)

lemma update_watcher_cases:
  assumes "update_watcher wid change now r = (res, r')"
  obtains (stored) w w1 x rv where "res = Inr x" "bt_get (reg_watchers r) wid = Some w"
      "change w = Inr (w1, x)" "unat rv = Suc (unat (ws_revision w1))"
      "wrote (bt_insert wid (w1\<lparr>ws_revision := rv, updated_at_unix_ms := now\<rparr>) (reg_watchers r)) r r'"
  | (failed) e where "res = Inl e" "untouched_map r r'"
proof (cases "bt_get (reg_watchers r) wid")
  case None
  with assms show thesis by (auto simp: update_watcher_def untouched_map_def intro: failed)
next
  case (Some w)
  show thesis
  proof (cases "\<exists>w1 x rv. change w = Inr (w1, x) \<and> next_revision w1 = Inr rv")
    case False
    have "\<exists>e. res = Inl e \<and> r' = r"
    proof (cases "change w")
      case (Inl e)
      with assms Some show ?thesis by (auto simp: update_watcher_def)
    next
      case (Inr p)
      obtain w1 x where p: "p = (w1, x)" by fastforce
      with False Inr show ?thesis
        using assms Some by (cases "next_revision w1") (auto simp: update_watcher_def)
    qed
    then show thesis by (auto simp: untouched_map_def intro: failed)
  next
    case True
    then obtain w1 x rv where c: "change w = Inr (w1, x)" "next_revision w1 = Inr rv" by blast
    let ?ws = "bt_insert wid (w1\<lparr>ws_revision := rv, updated_at_unix_ms := now\<rparr>) (reg_watchers r)"
    obtain p r1 where p: "replace_watchers ?ws r = (p, r1)" by fastforce
    from p show thesis
    proof (cases rule: replace_watchers_cases)
      case stored
      with assms Some c p have "res = Inr x" "r' = r1" by (auto simp: update_watcher_def)
      with stored Some c that(1) show thesis by (simp add: next_revision_ok)
    next
      case (failed e)
      with assms Some c p have "res = Inl e" "r' = r1" by (auto simp: update_watcher_def)
      with failed that(2) show thesis by simp
    qed
  qed
qed

text \<open>One watcher replaced by its successor; a retarget is the only change of process.\<close>

definition replaced :: "string \<Rightarrow> watcher_state \<Rightarrow> watcher_state \<Rightarrow> registry \<Rightarrow> registry \<Rightarrow> bool" where
  "replaced wid w w' r r' \<longleftrightarrow>
     bt_get (reg_watchers r) wid = Some w \<and> bumps w w' \<and> wrote (bt_insert wid w' (reg_watchers r)) r r'"

definition keeps_identity :: "(watcher_state \<Rightarrow> (registry_error, watcher_state \<times> 'a) result) \<Rightarrow> bool" where
  "keeps_identity change \<longleftrightarrow>
     (\<forall>w w1 x. change w = Inr (w1, x) \<longrightarrow> watcher_id w1 = watcher_id w \<and> ws_revision w1 = ws_revision w)"

definition keeps_process :: "(watcher_state \<Rightarrow> (registry_error, watcher_state \<times> 'a) result) \<Rightarrow> bool" where
  "keeps_process change \<longleftrightarrow> (\<forall>w w1 x. change w = Inr (w1, x) \<longrightarrow> ws_target w1 = ws_target w)"

lemma keeps_identityD:
  assumes "keeps_identity change" "change w = Inr (w1, x)"
  shows "watcher_id w1 = watcher_id w \<and> ws_revision w1 = ws_revision w"
  using assms unfolding keeps_identity_def by blast

lemma update_moves:
  assumes "update_watcher wid change now r = (res, r')" "keeps_identity change"
  obtains (changed) w w' x where "res = Inr x" "replaced wid w w' r r'"
      "keeps_process change \<Longrightarrow> ws_target w' = ws_target w"
  | (failed) e where "res = Inl e" "untouched_map r r'"
  using assms(1)
proof (cases rule: update_watcher_cases)
  case (stored w w1 x rv)
  show thesis
  proof (rule changed [of x w "w1\<lparr>ws_revision := rv, updated_at_unix_ms := now\<rparr>"])
    show "res = Inr x" by (rule stored(1))
    show "replaced wid w (w1\<lparr>ws_revision := rv, updated_at_unix_ms := now\<rparr>) r r'"
      using stored keeps_identityD [OF assms(2) stored(3)] by (simp add: replaced_def bumps_def)
    show "ws_target (w1\<lparr>ws_revision := rv, updated_at_unix_ms := now\<rparr>) = ws_target w"
      if "keeps_process change"
      using stored(3) that by (auto simp: keeps_process_def)
  qed
next
  case (failed e)
  then show thesis by (rule that(2))
qed

lemma audit_lifecycle_frame [simp]:
  "reg_watchers (audit_lifecycle wid msg r) = reg_watchers r"
  "reg_store (audit_lifecycle wid msg r) = reg_store r"
  by (simp_all add: audit_lifecycle_def split: option.split)

lemma audit_lifecycle_views [simp]:
  "wrote ws r (audit_lifecycle wid msg r') = wrote ws r r'"
  "untouched_map r (audit_lifecycle wid msg r') = untouched_map r r'"
  "replaced wid' w w' r (audit_lifecycle wid msg r') = replaced wid' w w' r r'"
  by (simp_all add: wrote_def untouched_map_def replaced_def)

text \<open>The changes of the individual operations.\<close>

lemma refreshed_watcher_fields:
  "watcher_id (refreshed_watcher w fresh) = watcher_id w"
  "ws_revision (refreshed_watcher w fresh) = ws_revision w"
  "ws_target (refreshed_watcher w fresh) = ws_target fresh"
  by (simp_all add: refreshed_watcher_def Let_def)

lemma observed_watcher_fields:
  assumes "observed_watcher schedule ev now w = Inr w1"
  shows "watcher_id w1 = watcher_id w" "ws_revision w1 = ws_revision w" "ws_target w1 = ws_target w"
  using assms
  by (auto simp: observed_watcher_def Let_def result_simps split: option.splits prod.splits)

lemma keeps_identityI:
  "(\<And>w w1 x. change w = Inr (w1, x) \<Longrightarrow> watcher_id w1 = watcher_id w \<and> ws_revision w1 = ws_revision w) \<Longrightarrow>
     keeps_identity change"
  by (auto simp: keeps_identity_def)

lemma keeps_processI:
  "(\<And>w w1 x. change w = Inr (w1, x) \<Longrightarrow> ws_target w1 = ws_target w) \<Longrightarrow> keeps_process change"
  by (auto simp: keeps_process_def)

lemma refresh_moves:
  assumes "refresh_existing wid fresh r = (res, r')"
  obtains (changed) w w' x where "res = Inr x" "replaced wid w w' r r'" "ws_target w' = ws_target fresh"
  | (same) "untouched_map r r'"
proof (cases "bt_get (reg_watchers r) wid")
  case None
  with assms show thesis by (auto simp: refresh_existing_def untouched_map_def intro: same)
next
  case (Some w)
  let ?c = "\<lambda>_ :: watcher_state. Inr (refreshed_watcher w fresh, ())"
  obtain p r1 where p: "change_watcher wid (\<lambda>_. refreshed_watcher w fresh) (updated_at_unix_ms fresh) r = (p, r1)"
    by fastforce
  consider "res = Inr (Existing wid)" "r' = r" | "\<exists>e. res = Inl e" "r' = r"
    | e where "res = Inl e" "p = Inl e" "r' = r1"
    | x msg where "res = Inr x" "p = Inr ()" "r' = audit_lifecycle wid msg r1"
    using assms Some p
    by (auto simp: refresh_existing_def Let_def split: if_splits sum.splits)
  then show thesis
  proof cases
    case 1
    then show thesis by (auto simp: untouched_map_def intro: same)
  next
    case 2
    then show thesis by (auto simp: untouched_map_def intro: same)
  next
    case (3 e)
    from p [unfolded change_watcher_def] show thesis
      by (cases rule: update_watcher_cases) (use 3 same in auto)
  next
    case (4 x msg)
    from p [unfolded change_watcher_def] show thesis
    proof (cases rule: update_watcher_cases)
      case (stored w0 w1 y rv)
      have "replaced wid w (refreshed_watcher w fresh
          \<lparr>ws_revision := rv, updated_at_unix_ms := updated_at_unix_ms fresh\<rparr>) r r'"
        using stored Some 4 by (auto simp: replaced_def bumps_def refreshed_watcher_fields)
      then show thesis
        using 4 by (auto simp: refreshed_watcher_fields intro: changed)
    next
      case (failed e)
      with 4 show thesis by simp
    qed
  qed
qed

text \<open>Every key is the id of its watcher.\<close>

definition ids_ok :: "registry \<Rightarrow> bool" where
  "ids_ok r \<longleftrightarrow> bt_wf (reg_watchers r) \<and> (\<forall>(k, w) \<in> set (reg_watchers r). watcher_id w = k)"

lemma ids_ok_find:
  assumes "ids_ok r" "find P (bt_values (reg_watchers r)) = Some w"
  shows "bt_get (reg_watchers r) (watcher_id w) = Some w" "P w"
proof -
  from assms(2) obtain i where "i < length (bt_values (reg_watchers r))" "P w"
      "w = bt_values (reg_watchers r) ! i"
    by (auto simp: find_Some_iff)
  then have "w \<in> set (bt_values (reg_watchers r))" "P w" by (simp_all only: nth_mem)
  then show "bt_get (reg_watchers r) (watcher_id w) = Some w" "P w"
    using assms(1) by (auto simp: ids_ok_def bt.get_entries)
qed

lemma ids_ok_get: "ids_ok r \<Longrightarrow> bt_get (reg_watchers r) k = Some w \<Longrightarrow> watcher_id w = k"
  by (auto simp: ids_ok_def bt.get_entries)

lemma stable_exact: "stable_target_eq a b \<Longrightarrow> exact_process_eq a b"
  by (cases "(a, b)" rule: stable_target_eq.cases) (auto simp: exact_process_eq_def)

lemma register_moves:
  assumes "registry_register w r = (res, r')"
  obtains (changed) wid x x' y where "res = Inr y" "replaced wid x x' r r'"
      "ids_ok r \<Longrightarrow> exact_process_eq (ws_target x) (ws_target x')"
  | (added) "res = Inr (Added (watcher_id w))" "bt_get (reg_watchers r) (watcher_id w) = None"
      "\<forall>(k, x) \<in> set (reg_watchers r). \<not> exact_process_eq (ws_target x) (ws_target w)"
      "wrote (bt_insert (watcher_id w) w (reg_watchers r)) r r'"
  | (same) "untouched_map r r'"
proof -
  let ?ws = "bt_values (reg_watchers r)"
  consider (refresh) x where "refresh_existing (watcher_id x) w r = (res, r')"
      "ids_ok r \<Longrightarrow> bt_get (reg_watchers r) (watcher_id x) = Some x \<and> exact_process_eq (ws_target x) (ws_target w)"
    | (stop) "r' = r"
    | (new) p r1 where "replace_watchers (bt_insert (watcher_id w) w (reg_watchers r)) r = (p, r1)"
        "bt_get (reg_watchers r) (watcher_id w) = None"
        "find (\<lambda>x. exact_process_eq (ws_target x) (ws_target w)) ?ws = None"
        "case p of Inl e \<Rightarrow> res = Inl e \<and> r' = r1
         | Inr _ \<Rightarrow> res = Inr (Added (watcher_id w)) \<and>
             r' = audit_lifecycle (watcher_id w) ''watcher registered'' r1"
  proof (cases "bt_get (reg_watchers r) (watcher_id w)")
    case (Some x)
    then show thesis
      using assms refresh [of x] stop ids_ok_get [of r "watcher_id w" x] stable_exact
      by (auto simp: registry_register_def split: if_splits)
  next
    case None
    note top = this
    show thesis
    proof (cases "find (\<lambda>x. stable_target_eq (ws_target x) (ws_target w)) ?ws")
      case (Some x)
      then show thesis
        using assms top refresh [of x] ids_ok_find [of r _ x] stable_exact
        by (auto simp: registry_register_def)
    next
      case None
      note stable = this
      show thesis
      proof (cases "find (\<lambda>x. exact_process_eq (ws_target x) (ws_target w)) ?ws")
        case (Some x)
        then show thesis
          using assms top stable refresh [of x] stop ids_ok_find [of r _ x]
          by (auto simp: registry_register_def split: if_splits)
      next
        case None
        then show thesis
          using assms top stable
          by (cases "replace_watchers (bt_insert (watcher_id w) w (reg_watchers r)) r")
            (auto simp: registry_register_def split: sum.splits intro: new)
      qed
    qed
  qed
  then show thesis
  proof cases
    case (refresh x)
    from refresh(1) show thesis
    proof (cases rule: refresh_moves)
      case (changed v v' y)
      have "ids_ok r \<Longrightarrow> exact_process_eq (ws_target v) (ws_target v')"
        using refresh(2) changed by (simp add: replaced_def)
      with changed that(1) show thesis by blast
    qed (rule that(3))
  next
    case stop
    then show thesis by (intro that(3)) (simp add: untouched_map_def)
  next
    case (new p r1)
    have none: "\<forall>(k, x) \<in> set (reg_watchers r). \<not> exact_process_eq (ws_target x) (ws_target w)"
      using new(3) by (auto simp: find_None_iff)
    from new(1) show thesis
    proof (cases rule: replace_watchers_cases)
      case stored
      with new none that(2) show thesis by simp
    next
      case (failed e)
      with new that(3) show thesis by simp
    qed
  qed
qed

text \<open>Every mutation of one watcher, in the same shape.\<close>

lemma change_watcher_moves:
  assumes "change_watcher wid f now r = (res, r')"
    and "\<And>w. watcher_id (f w) = watcher_id w" "\<And>w. ws_revision (f w) = ws_revision w"
  obtains (changed) w w' where "res = Inr ()" "replaced wid w w' r r'"
      "(\<And>w. ws_target (f w) = ws_target w) \<Longrightarrow> ws_target w' = ws_target w"
  | (failed) e where "res = Inl e" "untouched_map r r'"
proof -
  have "keeps_identity (\<lambda>w. Inr (f w, ()))" using assms(2,3) by (auto intro: keeps_identityI)
  from assms(1) [unfolded change_watcher_def] this show thesis
  proof (cases rule: update_moves)
    case (changed w w' x)
    have "ws_target w' = ws_target w" if "\<And>w. ws_target (f w) = ws_target w"
      using changed(3) keeps_processI [of "\<lambda>w. Inr (f w, ())"] that by auto
    with changed that(1) show thesis by simp
  qed (rule that(2))
qed

definition is_retarget :: "registry_op \<Rightarrow> bool" where
  "is_retarget x = (case x of OpRetarget _ _ _ \<Rightarrow> True | _ \<Rightarrow> False)"

definition moved :: "registry_op \<Rightarrow> registry \<Rightarrow> (registry_error, unit) result \<Rightarrow> registry \<Rightarrow> bool" where
  "moved x r res r' \<longleftrightarrow>
     untouched_map r r' \<or>
     (\<exists>wid w w'. res = Inr () \<and> replaced wid w w' r r' \<and>
        (is_retarget x \<or> (ids_ok r \<longrightarrow> exact_process_eq (ws_target w) (ws_target w')))) \<or>
     (\<exists>w. x = OpRegister w \<and> res = Inr () \<and> bt_get (reg_watchers r) (watcher_id w) = None \<and>
        (\<forall>(k, y) \<in> set (reg_watchers r). \<not> exact_process_eq (ws_target y) (ws_target w)) \<and>
        wrote (bt_insert (watcher_id w) w (reg_watchers r)) r r')"

lemma exact_process_eq_refl [simp]: "exact_process_eq t t"
  by (simp add: exact_process_eq_def same_process_def)

lemma moved_change:
  assumes "change_watcher wid f now r = (res, r')"
    and "\<And>w. watcher_id (f w) = watcher_id w" "\<And>w. ws_revision (f w) = ws_revision w"
    and "is_retarget x \<or> (\<forall>w. ws_target (f w) = ws_target w)"
  shows "moved x r res r'"
  using assms(1-3)
proof (cases rule: change_watcher_moves)
  case (changed w w')
  have "is_retarget x \<or> ws_target w' = ws_target w" using changed(3) assms(4) by blast
  with changed(1,2) show ?thesis unfolding moved_def by (metis exact_process_eq_refl)
next
  case (failed e)
  then show ?thesis by (simp add: moved_def)
qed

lemma moved_update:
  assumes "update_watcher wid change now r = (res, r')" "keeps_identity change" "keeps_process change"
  shows "moved x r (fst (no_value (res, r'))) r'"
  using assms(1,2)
proof (cases rule: update_moves)
  case (changed w w' y)
  have "ws_target w' = ws_target w" using changed(3) assms(3) by blast
  moreover have "fst (no_value (res, r')) = Inr ()" using changed(1) by (simp add: no_value_def)
  ultimately show ?thesis using changed(2) unfolding moved_def by (metis exact_process_eq_refl)
next
  case (failed e)
  then show ?thesis by (simp add: moved_def)
qed

lemma moved_same: "moved x r res r"
  by (simp add: moved_def untouched_map_def)

lemma registry_apply_moved:
  assumes "registry_apply x r = (res, r')"
  shows "moved x r res r'"
proof (cases x)
  case (OpRegister w)
  obtain y where y: "registry_register w r = (y, r')" "res = map_sum id (\<lambda>_. ()) y"
    using assms OpRegister by (auto simp: no_value_def prod_eq_iff)
  from y(1) show ?thesis
    by (cases rule: register_moves) (use y(2) OpRegister in \<open>auto simp: moved_def\<close>)
next
  case (OpTransition wid lc now)
  obtain p r1 where p: "change_watcher wid (\<lambda>w. w\<lparr>ws_lifecycle := lc\<rparr>) now r = (p, r1)" by fastforce
  have "moved x r p r1" by (rule moved_change [OF p]) simp_all
  moreover have "res = p" "r' = r1 \<or> (\<exists>msg. r' = audit_lifecycle wid msg r1)"
    using assms OpTransition p by (auto simp: registry_transition_def split: sum.splits)
  ultimately show ?thesis by (auto simp: moved_def)
next
  case (OpRecovery wid cmd now)
  obtain y where y: "apply_recovery_transition wid cmd now r = (y, r')" "res = fst (no_value (y, r'))"
    using assms OpRecovery by (auto simp: no_value_def prod_eq_iff)
  show ?thesis
    unfolding y(2) by (rule moved_update [OF y(1) [unfolded apply_recovery_transition_def]])
      (auto intro!: keeps_identityI keeps_processI simp: result_simps)
next
  case (OpCommit wid s ev now)
  have "fst (no_value (res, r')) = res" by (cases res) (simp_all add: no_value_def)
  moreover have "moved x r (fst (no_value (res, r'))) r'"
    by (rule moved_update [OF assms [unfolded OpCommit, simplified, unfolded commit_observation_def]])
      (auto intro!: keeps_identityI keeps_processI simp: result_simps dest: observed_watcher_fields)
  ultimately show ?thesis by simp
next
  case (OpWake wid fp now)
  show ?thesis
  proof (cases "r' = r")
    case False
    then obtain s where "change_watcher wid (\<lambda>w. w\<lparr>ws_observation_schedule := s\<rparr>) now r = (res, r')"
      using assms OpWake
      by (auto simp: wake_observation_def persist_observation_schedule_def Let_def
          split: if_splits option.splits)
    then show ?thesis by (rule moved_change) simp_all
  qed (simp add: moved_same)
qed (use assms in \<open>auto simp: retarget_process_def persist_recovery_def persist_observation_schedule_def
      persist_observation_event_def complete_observation_def is_retarget_def
      intro!: moved_change split: option.splits\<close>)

section \<open>Sequences of operations\<close>

definition registry_run :: "registry_op list \<Rightarrow> registry \<Rightarrow> registry" where
  "registry_run xs r = fold (\<lambda>x r. snd (registry_apply x r)) xs r"

lemma registry_run_simps [simp]:
  "registry_run [] r = r"
  "registry_run (x # xs) r = registry_run xs (snd (registry_apply x r))"
  "registry_run (xs @ ys) r = registry_run ys (registry_run xs r)"
  by (simp_all add: registry_run_def)

lemma moved_snd: "moved x r (fst (registry_apply x r)) (snd (registry_apply x r))"
  by (rule registry_apply_moved) simp

lemma registry_run_invariant:
  assumes "P r" "\<And>x r. x \<in> set xs \<Longrightarrow> P r \<Longrightarrow> P (snd (registry_apply x r))"
  shows "P (registry_run xs r)"
  using assms by (induction xs arbitrary: r) auto

lemma ids_ok_moved:
  assumes "moved x r res r'" "ids_ok r"
  shows "ids_ok r'"
proof -
  have ins: "ids_ok r'" if "wrote (bt_insert (watcher_id w) w (reg_watchers r)) r r'" for w
    using that assms(2) bt.put_Ball [of "reg_watchers r" "\<lambda>k w. watcher_id w = k" "watcher_id w" w]
    by (auto simp: ids_ok_def wrote_def bt_wf_insert)
  have same: "ids_ok r'" if "untouched_map r r'"
    using that assms(2) by (simp add: untouched_map_def ids_ok_def)
  have "ids_ok r'" if "replaced wid w w' r r'" for wid w w'
  proof -
    have "wid = watcher_id w'" using that ids_ok_get [OF assms(2)] by (auto simp: replaced_def bumps_def)
    with that ins [of w'] show ?thesis by (simp add: replaced_def)
  qed
  with ins same assms(1) show ?thesis unfolding moved_def by blast
qed

lemma ids_ok_run: "ids_ok r \<Longrightarrow> ids_ok (registry_run xs r)"
  by (rule registry_run_invariant) (auto intro: ids_ok_moved [OF moved_snd])

section \<open>Dispatch tokens\<close>

definition registry_step :: "registry \<Rightarrow> registry \<Rightarrow> bool" where
  "registry_step r r' \<longleftrightarrow> (\<exists>x. r' = snd (registry_apply x r))"

interpretation rv: versioned_store registry_step "\<lambda>r. bt_get (reg_watchers r)" "\<lambda>w. unat (ws_revision w)"
proof (unfold_locales, goal_cases)
  case (1 r r' k v)
  then obtain x where x: "r' = snd (registry_apply x r)" by (auto simp: registry_step_def)
  from moved_snd [of x r] 1(2) show ?case
    by (auto simp: x moved_def untouched_map_def replaced_def wrote_def bumps_def bt.get_put
        split: if_splits)
qed

lemma registry_run_steps: "registry_step\<^sup>*\<^sup>* r (registry_run xs r)"
proof (induction xs arbitrary: r)
  case (Cons x xs)
  have "registry_step r (snd (registry_apply x r))" by (auto simp: registry_step_def)
  with Cons show ?case by (simp add: converse_rtranclp_into_rtranclp)
qed simp

text \<open>C15: A dispatch token proves that nothing happened since it was taken: if it still matches after a
  sequence of registry operations, successful or not, then the watcher was exactly as in the token at
  every moment in between. No sequence of changes can bring a watcher back to an image it had before.\<close>

theorem dispatch_token_sound:
  assumes "ids_ok r" "dispatch_snapshot_of wid r = Inr snap"
    and "matches_dispatch_snapshot snap (registry_run (xs @ ys) r)"
  shows "bt_get (reg_watchers (registry_run xs r)) wid = Some (ds_watcher snap)"
proof -
  have now: "bt_get (reg_watchers r) wid = Some (ds_watcher snap)"
    using assms(2) by (auto simp: dispatch_snapshot_of_def result_simps)
  then have "watcher_id (ds_watcher snap) = wid" by (rule ids_ok_get [OF assms(1)])
  then have "bt_get (reg_watchers (registry_run ys (registry_run xs r))) wid = Some (ds_watcher snap)"
    using assms(3) by (auto simp: matches_dispatch_snapshot_def watcher_eq_def split: option.splits)
  then show ?thesis
    by (rule rv.entry_unchanged_between [OF registry_run_steps registry_run_steps now])
qed

definition example_watcher :: watcher_state where
  "example_watcher = watcher_state_new ''w'' (Process (process_identity_new 7 9))
     watcher_lifecycle.Registered 0 1"

definition example_registry :: registry where
  "example_registry = \<lparr>reg_store = \<lparr>js_file = Absent, js_faults = []\<rparr>,
     reg_watchers = [(''w'', example_watcher)], reg_audited = False, reg_audit_log = []\<rparr>"

lemma example_registry_ids: "ids_ok example_registry"
  by (simp add: ids_ok_def example_registry_def example_watcher_def watcher_state_new_def bt_wf_def)

theorem dispatch_token_sound_witness:
  "bt_get (reg_watchers (registry_run [OpTransition ''v'' Paused 5] example_registry)) ''w'' =
     Some example_watcher"
proof -
  let ?snap = "\<lparr>ds_watcher = example_watcher\<rparr>"
  have "dispatch_snapshot_of ''w'' example_registry = Inr ?snap"
    by (simp add: dispatch_snapshot_of_def example_registry_def)
  moreover have "matches_dispatch_snapshot ?snap (registry_run ([OpTransition ''v'' Paused 5] @ []) example_registry)"
    by (simp add: matches_dispatch_snapshot_def registry_transition_def change_watcher_def
        update_watcher_def example_registry_def example_watcher_def watcher_state_new_def watcher_eq_def)
  ultimately show ?thesis
    using dispatch_token_sound [OF example_registry_ids] by fastforce
qed

text \<open>An operation that reports an error leaves every watcher as it was, and one that succeeds changes
  at most one watcher: it advances that watcher's revision by exactly one, or registers it.\<close>

theorem registry_apply_atomic:
  "case registry_apply x r of
     (Inl e, r') \<Rightarrow> reg_watchers r' = reg_watchers r
   | (Inr _, r') \<Rightarrow> reg_watchers r' = reg_watchers r \<or>
       (\<exists>wid w'. reg_watchers r' = bt_insert wid w' (reg_watchers r) \<and>
          (case bt_get (reg_watchers r) wid of
             None \<Rightarrow> x = OpRegister w' \<and> wid = watcher_id w'
           | Some w \<Rightarrow> watcher_id w' = watcher_id w \<and>
               unat (ws_revision w') = Suc (unat (ws_revision w))))"
proof (cases "registry_apply x r")
  case (Pair res r')
  let ?ins = "\<lambda>wid w'. reg_watchers r' = bt_insert wid w' (reg_watchers r) \<and>
    (case bt_get (reg_watchers r) wid of
       None \<Rightarrow> x = OpRegister w' \<and> wid = watcher_id w'
     | Some w \<Rightarrow> watcher_id w' = watcher_id w \<and> unat (ws_revision w') = Suc (unat (ws_revision w)))"
  have "reg_watchers r' = reg_watchers r \<or> res = Inr () \<and> (\<exists>wid w'. ?ins wid w')"
  proof -
    have "?ins wid w'" if "replaced wid w w' r r'" for wid w w'
      using that by (simp add: replaced_def wrote_def bumps_def)
    moreover have "?ins (watcher_id w) w"
      if "x = OpRegister w" "bt_get (reg_watchers r) (watcher_id w) = None"
        "wrote (bt_insert (watcher_id w) w (reg_watchers r)) r r'" for w
      using that by (simp add: wrote_def)
    ultimately show ?thesis
      using registry_apply_moved [OF Pair] unfolding moved_def untouched_map_def by blast
  qed
  then show ?thesis using Pair by (cases res) auto
qed

section \<open>Memory and disk\<close>

text \<open>The map a restart would read from the file.\<close>

definition disk_watchers :: "persisted_registry json_store \<Rightarrow> watcher_state btree option" where
  "disk_watchers s =
     (case js_file s of
        Absent \<Rightarrow> Some []
      | Holds p \<Rightarrow>
          if pr_version p = 1 then Some (bt_from_list (map (\<lambda>w. (watcher_id w, w)) (pr_watchers p))) else None
      | Garbage _ \<Rightarrow> None)"

definition registry_synced :: "registry \<Rightarrow> bool" where
  "registry_synced r \<longleftrightarrow> ids_ok r \<and> js_atomic (reg_store r) \<and>
     disk_watchers (reg_store r) = Some (reg_watchers r)"

lemma values_by_id:
  assumes "bt_wf m" "\<forall>(k, w) \<in> set m. watcher_id w = k"
  shows "bt_from_list (map (\<lambda>w. (watcher_id w, w)) (bt_values m)) = m"
proof -
  have "map (\<lambda>w. (watcher_id w, w)) (bt_values m) = m"
    using assms(2) by (induction m) auto
  with bt_from_list_wf [OF assms(1)] show ?thesis by simp
qed

lemma wrote_synced:
  assumes "wrote ws r r'" "js_atomic (reg_store r)" "ids_ok r'"
  shows "registry_synced r'"
proof -
  obtain u where u: "js_write \<lparr>pr_version = 1, pr_watchers = bt_values ws\<rparr> (reg_store r) = (Inr u, reg_store r')"
    and ws: "reg_watchers r' = ws"
    using assms(1) by (auto simp: wrote_def)
  have "disk_watchers (reg_store r') = Some ws"
    using js_write_ok [OF u] assms(3) ws values_by_id [of ws]
    by (auto simp: disk_watchers_def ids_ok_def)
  then show ?thesis
    using js_write_atomic_ok [OF assms(2) u] assms(3) ws by (simp add: registry_synced_def)
qed

lemma moved_synced:
  assumes "moved x r res r'" "registry_synced r"
  shows "registry_synced r'"
proof -
  have ids: "ids_ok r'" using assms ids_ok_moved by (simp add: registry_synced_def)
  have at: "js_atomic (reg_store r)" using assms(2) by (simp add: registry_synced_def)
  have same: "registry_synced r'" if "untouched_map r r'"
  proof -
    have "js_file (reg_store r') = js_file (reg_store r) \<and> js_atomic (reg_store r')"
      using that at js_write_atomic [OF at] by (auto simp: untouched_map_def)
    with that assms(2) ids show ?thesis
      by (simp add: registry_synced_def untouched_map_def disk_watchers_def)
  qed
  have "registry_synced r'" if "wrote ws r r'" for ws by (rule wrote_synced [OF that at ids])
  with same assms(1) show ?thesis unfolding moved_def replaced_def by blast
qed

section \<open>Loading\<close>

definition dormant :: "watcher_state \<Rightarrow> bool" where
  "dormant w \<longleftrightarrow> lifecycle_kept (ws_lifecycle w) \<and>
     (\<forall>m. ws_recovery w = Some m \<longrightarrow> rm_state m = recovery_state.NeedsRevalidation) \<and>
     (needs_revalidation (ws_target w) \<longrightarrow> ws_recovery w \<noteq> None)"

lemma replay_recovery_ok:
  assumes "replay_recovery w = Inr (w', c)"
  shows "watcher_id w' = watcher_id w \<and> ws_target w' = ws_target w \<and>
    (\<forall>m. ws_recovery w' = Some m \<longrightarrow> rm_state m = recovery_state.NeedsRevalidation) \<and>
    (needs_revalidation (ws_target w) \<longrightarrow> ws_recovery w' \<noteq> None) \<and> (c \<or> w' = w)"
proof -
  have restored: "rm_state m' = recovery_state.NeedsRevalidation" if "restore_for_restart m = Inr m'" for m m'
    using that by (auto simp: restore_for_restart_def split: if_splits)
  show ?thesis
  proof (cases "if needs_revalidation (ws_target w) \<and> ws_recovery w = None
                then Some (rm_new replay_budget) else ws_recovery w")
    case None
    then have "w' = w" "ws_recovery w = None" "\<not> needs_revalidation (ws_target w)"
      using assms by (auto simp: replay_recovery_def split: if_splits)
    then show ?thesis by simp
  next
    case (Some m)
    with assms restored show ?thesis
      by (auto simp: replay_recovery_def result_simps)
  qed
qed

lemma replay_watcher_ok:
  assumes "replay_watcher w = Inr (w', c)"
  shows "dormant w' \<and> watcher_id w' = watcher_id w \<and> (c \<or> w' = w)"
proof -
  obtain w1 c1 where w1: "replay_recovery w = Inr (w1, c1)"
    and rest: "(if lifecycle_kept (ws_lifecycle w1) then Inr (w1, c1)
       else let w2 = w1\<lparr>ws_lifecycle := HumanRequired RESTART_REVALIDATION_REASON\<rparr> in
         rbind (next_revision w2) (\<lambda>rev. Inr (w2\<lparr>ws_revision := rev\<rparr>, True))) = Inr (w', c)"
    using assms by (auto simp: replay_watcher_def result_simps simp del: if_split)
  from replay_recovery_ok [OF w1] rest show ?thesis
    by (cases "lifecycle_kept (ws_lifecycle w1)") (auto simp: dormant_def result_simps Let_def)
qed

lemma replay_all_ok:
  assumes "replay_all m = Inr (m', c)"
  shows "map fst m' = map fst m \<and> (\<forall>(k, w) \<in> set m'. dormant w \<and> (\<exists>x. (k, x) \<in> set m \<and> watcher_id w = watcher_id x)) \<and>
    (c \<or> m' = m)"
  using assms
proof (induction m arbitrary: m' c rule: replay_all.induct)
  case (2 k w m)
  from 2(2) obtain w1 c1 m1 c2 where w1: "replay_watcher w = Inr (w1, c1)" and m1: "replay_all m = Inr (m1, c2)"
      and r: "m' = (k, w1) # m1" "c \<longleftrightarrow> c1 \<or> c2"
    by (auto simp: result_simps)
  note h = replay_watcher_ok [OF w1] 2(1) [OF m1]
  show ?case using h r by fastforce
qed simp

text \<open>What a successful load leaves.\<close>

lemma registry_load_cases:
  assumes "registry_load store audited = Inr r"
  obtains ws c store1 where "js_load store = (case js_file store of Absent \<Rightarrow> Missing | Holds p \<Rightarrow> Present p
        | Garbage q \<Rightarrow> Corrupt q, store1)"
    "disk_watchers store = Some ws" "replay_all ws = Inr (reg_watchers r, c)"
    "c \<and> (\<exists>r0. reg_store r0 = store1 \<and> wrote (reg_watchers r) r0 r) \<or> \<not> c \<and> reg_store r = store1"
proof -
  obtain oc store1 where l: "js_load store = (oc, store1)" by fastforce
  have oc: "oc = (case js_file store of Absent \<Rightarrow> Missing | Holds p \<Rightarrow> Present p | Garbage q \<Rightarrow> Corrupt q)"
    using l by (auto split: file_content.splits)
  obtain ws ws1 c where w: "disk_watchers store = Some ws" "replay_all ws = Inr (ws1, c)"
    and rest: "(let r = \<lparr>reg_store = store1, reg_watchers = ws1, reg_audited = audited, reg_audit_log = []\<rparr> in
           if c then (case persist_watchers ws1 r of (Inl e, _) \<Rightarrow> Inl e | (Inr _, r1) \<Rightarrow> Inr r1)
           else Inr r) = Inr r"
    using assms l oc
    by (auto simp: registry_load_def disk_watchers_def result_simps simp del: js_load.simps
        split: file_content.splits if_splits)
  have "reg_watchers r = ws1"
    "c \<and> (\<exists>r0. reg_store r0 = store1 \<and> wrote (reg_watchers r) r0 r) \<or> \<not> c \<and> reg_store r = store1"
  proof -
    let ?r0 = "\<lparr>reg_store = store1, reg_watchers = ws1, reg_audited = audited, reg_audit_log = []\<rparr>"
    obtain x s1 where x: "js_write \<lparr>pr_version = 1, pr_watchers = bt_values ws1\<rparr> store1 = (x, s1)" by fastforce
    then have "reg_watchers r = ws1 \<and> (c \<and> wrote ws1 ?r0 r \<or> \<not> c \<and> reg_store r = store1)"
      using rest by (cases x; cases c) (auto simp: persist_watchers_def wrote_def)
    then show "reg_watchers r = ws1"
      "c \<and> (\<exists>r0. reg_store r0 = store1 \<and> wrote (reg_watchers r) r0 r) \<or> \<not> c \<and> reg_store r = store1"
      by (auto intro!: exI [of _ ?r0])
  qed
  with that [of store1 ws c] l oc w show thesis by simp
qed

lemma disk_watchers_ok:
  assumes "disk_watchers store = Some ws"
  shows "bt_wf ws \<and> (\<forall>(k, w) \<in> set ws. watcher_id w = k)"
  using assms bt_from_list_subset bt_wf_from_list
  by (fastforce simp: disk_watchers_def bt_wf_def split: file_content.splits if_splits)

lemma loaded_dormant:
  assumes "registry_load store audited = Inr r" "bt_get (reg_watchers r) k = Some w"
  shows "dormant w"
  using assms(1)
proof (cases rule: registry_load_cases)
  case (1 ws c store1)
  from replay_all_ok [OF 1(3)] map_of_SomeD [OF assms(2)] show ?thesis by fastforce
qed

lemma loaded_ids_ok:
  assumes "registry_load store audited = Inr r"
  shows "ids_ok r"
  using assms
proof (cases rule: registry_load_cases)
  case (1 ws c store1)
  note d = disk_watchers_ok [OF 1(2)] and h = replay_all_ok [OF 1(3)]
  have "bt_wf (reg_watchers r)" using d h by (simp add: bt_wf_def)
  moreover have "watcher_id w = k" if "(k, w) \<in> set (reg_watchers r)" for k w
    using that d h by fastforce
  ultimately show ?thesis by (auto simp: ids_ok_def)
qed

lemma loaded_synced:
  assumes "registry_load store audited = Inr r" "js_atomic store"
  shows "registry_synced r"
  using assms(1)
proof (cases rule: registry_load_cases)
  case (1 ws c store1)
  have f: "js_file store1 = js_file store" "js_atomic store1"
    using 1(1,2) assms(2) by (auto simp: disk_watchers_def js_atomic_def split: file_content.splits)
  show ?thesis
  proof (cases c)
    case True
    then obtain r0 where "reg_store r0 = store1" "wrote (reg_watchers r) r0 r" using 1(4) by blast
    with wrote_synced [of _ r0 r] f loaded_ids_ok [OF assms(1)] show ?thesis by simp
  next
    case False
    with replay_all_ok [OF 1(3)] 1(2,4) f loaded_ids_ok [OF assms(1)] show ?thesis
      by (simp add: registry_synced_def disk_watchers_def)
  qed
qed

text \<open>A restart never resumes an action. Whatever the file holds, when it loads, every watcher is
  stopped, terminated or handed to a human, every recovery machine waits for revalidation, an
  unvalidated target has a machine, and no action can begin for any watcher.\<close>

theorem load_fails_closed:
  assumes "registry_load store audited = Inr r" "bt_get (reg_watchers r) wid = Some w"
  shows "lifecycle_kept (ws_lifecycle w) \<and>
    (\<forall>m. ws_recovery w = Some m \<longrightarrow> rm_state m = recovery_state.NeedsRevalidation) \<and>
    (needs_revalidation (ws_target w) \<longrightarrow> ws_recovery w \<noteq> None) \<and>
    (\<exists>e. coordinator_begin_action wid fp clk now r = (Inl e, r))"
proof -
  have d: "dormant w" by (rule loaded_dormant [OF assms])
  then have "\<exists>e. coordinator_begin_action wid fp clk now r = (Inl e, r)"
    using assms(2)
    by (cases "ws_recovery w")
      (auto simp: coordinator_begin_action_def apply_recovery_transition_def update_watcher_def
        apply_command_def begin_action_def dormant_def)
  with d show ?thesis by (simp add: dormant_def)
qed

definition example_store :: "persisted_registry json_store" where
  "example_store = \<lparr>js_file = Holds \<lparr>pr_version = 1,
     pr_watchers = [example_watcher\<lparr>ws_lifecycle := Recovering ''fp'',
       ws_recovery := Some acting_example\<rparr>]\<rparr>, js_faults = []\<rparr>"

lemma example_store_loads:
  "\<exists>r w. registry_load example_store False = Inr r \<and> bt_get (reg_watchers r) ''w'' = Some w"
  by (simp add: example_store_def registry_load_def bt_from_list_def example_watcher_def
      watcher_state_new_def replay_watcher_def replay_recovery_def restore_for_restart_def
      acting_example_def next_revision_def chk_add_def persist_watchers_def js_write_def Let_def rm_new_def
      rm_op_defs rm_transition_def)

theorem load_fails_closed_witness:
  "\<exists>r e. registry_load example_store False = Inr r \<and>
     coordinator_begin_action ''w'' ''fp'' \<lparr>monotonic_seconds = 0, wall_seconds = 0\<rparr> 5 r = (Inl e, r)"
  using example_store_loads load_fails_closed by metis

text \<open>C29: Memory and disk never diverge: after a load and any sequence of operations, with any failing
  writes other than a failed directory sync after the rename, the file holds exactly the watchers the
  daemon has in memory, so a restart sees every acknowledged change and nothing else.\<close>

theorem registry_survives_restart:
  assumes "registry_load store audited = Inr r" "\<forall>e. Some (SyncDirectory, e) \<notin> set (js_faults store)"
  shows "disk_watchers (reg_store (registry_run xs r)) = Some (reg_watchers (registry_run xs r))"
proof -
  have "registry_synced r"
    by (rule loaded_synced [OF assms(1)]) (use assms(2) in \<open>simp add: js_atomic_def\<close>)
  then have "registry_synced (registry_run xs r)"
    by (rule registry_run_invariant) (rule moved_synced [OF moved_snd])
  then show ?thesis by (simp add: registry_synced_def)
qed

theorem registry_survives_restart_witness:
  "\<exists>r. registry_load example_store False = Inr r \<and>
     disk_watchers (reg_store (registry_run [OpTransition ''w'' Paused 5] r)) =
       Some (reg_watchers (registry_run [OpTransition ''w'' Paused 5] r))"
proof -
  have "\<forall>e. Some (SyncDirectory, e) \<notin> set (js_faults example_store)" by (simp add: example_store_def)
  with example_store_loads registry_survives_restart show ?thesis by blast
qed

section \<open>One watcher per process\<close>

definition processes_distinct :: "registry \<Rightarrow> bool" where
  "processes_distinct r \<longleftrightarrow>
     (\<forall>k1 k2 w1 w2. bt_get (reg_watchers r) k1 = Some w1 \<longrightarrow> bt_get (reg_watchers r) k2 = Some w2 \<longrightarrow>
        exact_process_eq (ws_target w1) (ws_target w2) \<longrightarrow> k1 = k2)"

lemma exact_process_eq_sym: "exact_process_eq a b \<longleftrightarrow> exact_process_eq b a"
  by (auto simp: exact_process_eq_def same_process_def)

lemma exact_process_eq_trans:
  "exact_process_eq a b \<Longrightarrow> exact_process_eq b c \<Longrightarrow> exact_process_eq a c"
  by (auto simp: exact_process_eq_def same_process_def)

lemma processes_distinct_put:
  assumes "processes_distinct r" "reg_watchers r' = bt_insert k w (reg_watchers r)"
    and "\<And>k' x. bt_get (reg_watchers r) k' = Some x \<Longrightarrow> exact_process_eq (ws_target x) (ws_target w) \<Longrightarrow> k' = k"
  shows "processes_distinct r'"
  unfolding processes_distinct_def
proof (intro allI impI)
  fix k1 k2 w1 w2
  assume g: "bt_get (reg_watchers r') k1 = Some w1" "bt_get (reg_watchers r') k2 = Some w2"
    "exact_process_eq (ws_target w1) (ws_target w2)"
  show "k1 = k2"
  proof (cases "k1 = k \<or> k2 = k")
    case True
    with g assms(2,3) exact_process_eq_sym [of "ws_target w1" "ws_target w2"] show ?thesis
      by (auto simp: bt.get_put split: if_splits)
  next
    case False
    then have "bt_get (reg_watchers r) k1 = Some w1" "bt_get (reg_watchers r) k2 = Some w2"
      using g(1,2) assms(2) by (simp_all add: bt.get_put)
    with assms(1) g(3) show ?thesis by (auto simp: processes_distinct_def)
  qed
qed

lemma moved_distinct:
  assumes "moved x r res r'" "ids_ok r" "processes_distinct r" "\<not> is_retarget x"
  shows "processes_distinct r'"
proof -
  have same: "processes_distinct r'" if "untouched_map r r'"
    using that assms(3) by (simp add: untouched_map_def processes_distinct_def)
  have put: "processes_distinct r'"
    if "replaced wid w w' r r'" "exact_process_eq (ws_target w) (ws_target w')" for wid w w'
  proof (rule processes_distinct_put [OF assms(3)])
    show "reg_watchers r' = bt_insert wid w' (reg_watchers r)"
      using that(1) by (simp add: replaced_def wrote_def)
    show "k' = wid" if "bt_get (reg_watchers r) k' = Some y" "exact_process_eq (ws_target y) (ws_target w')" for k' y
    proof -
      have "exact_process_eq (ws_target y) (ws_target w)"
        using exact_process_eq_trans that(2) \<open>exact_process_eq (ws_target w) (ws_target w')\<close>
          exact_process_eq_sym by blast
      moreover have "bt_get (reg_watchers r) wid = Some w"
        using \<open>replaced wid w w' r r'\<close> by (simp add: replaced_def)
      ultimately show ?thesis
        using assms(3) that(1) unfolding processes_distinct_def by blast
    qed
  qed
  have add: "processes_distinct r'"
    if "\<forall>(k, y) \<in> set (reg_watchers r). \<not> exact_process_eq (ws_target y) (ws_target w)"
      "wrote (bt_insert (watcher_id w) w (reg_watchers r)) r r'" for w
    using that processes_distinct_put [OF assms(3), of r' "watcher_id w" w]
    by (fastforce simp: wrote_def dest: map_of_SomeD)
  from same put add assms(1,2,4) show ?thesis unfolding moved_def by blast
qed

text \<open>C30: Two watchers never watch the same process (same pid and start time): from a registry in which
  the processes are distinct, every sequence of operations other than a re-target keeps them distinct.
  Registering a process a second time refreshes the existing watcher or is refused.\<close>

theorem one_watcher_per_process:
  assumes "ids_ok r" "processes_distinct r" "\<forall>x \<in> set xs. \<not> is_retarget x"
    and "bt_get (reg_watchers (registry_run xs r)) k1 = Some w1"
      "bt_get (reg_watchers (registry_run xs r)) k2 = Some w2"
    and "exact_process_eq (ws_target w1) (ws_target w2)"
  shows "k1 = k2"
proof -
  have "ids_ok (registry_run xs r) \<and> processes_distinct (registry_run xs r)"
    by (rule registry_run_invariant)
      (use assms(1-3) in \<open>auto intro: ids_ok_moved [OF moved_snd] moved_distinct [OF moved_snd]\<close>)
  with assms(4-6) show ?thesis unfolding processes_distinct_def by blast
qed

definition second_registration :: registry_op where
  "second_registration = OpRegister (example_watcher\<lparr>watcher_id := ''v''\<rparr>)"

theorem one_watcher_per_process_witness:
  "bt_get (reg_watchers (registry_run [second_registration] example_registry)) ''w'' \<noteq> None \<and>
   bt_get (reg_watchers (registry_run [second_registration] example_registry)) ''v'' = None"
proof -
  let ?r = "registry_run [second_registration] example_registry"
  have run: "bt_get (reg_watchers ?r) ''w'' = Some example_watcher"
    by (simp add: second_registration_def no_value_def registry_register_def example_registry_def
        example_watcher_def watcher_state_new_def same_process_def refresh_existing_def
        compatible_attachment_def promotes_def attachment_upgrade_def replay_revalidated_def Let_def)
  have "processes_distinct example_registry"
    by (simp add: processes_distinct_def example_registry_def)
  moreover have "exact_process_eq (ws_target x) (ws_target example_watcher)"
    if "bt_get (reg_watchers ?r) ''v'' = Some x" for x
    using that by (simp add: second_registration_def no_value_def registry_register_def example_registry_def
        example_watcher_def watcher_state_new_def same_process_def refresh_existing_def
        compatible_attachment_def promotes_def attachment_upgrade_def replay_revalidated_def Let_def)
  ultimately have "bt_get (reg_watchers ?r) ''v'' = None"
    using one_watcher_per_process [OF example_registry_ids, of "[second_registration]" "''v''" _ "''w''" example_watcher]
      run by (cases "bt_get (reg_watchers ?r) ''v''") (auto simp: second_registration_def is_retarget_def)
  with run show ?thesis by simp
qed

section \<open>Confirmation\<close>

lemma apply_command_Inr: "apply_command cmd m = Inr m' \<longleftrightarrow> (\<exists>u. rm_apply cmd m = (Inr u, m'))"
  by (cases "rm_apply cmd m") (auto simp: apply_command_def split: sum.splits)

text \<open>An observation confirms a recovery only on solid evidence: when committing an event moves the
  machine to Confirmed, the event is actionable, it is not a screen detection or the screen was stable
  in at least two consecutive observations, the machine's fingerprint is the event's, and the machine
  was not in the middle of an action.\<close>

theorem commit_confirms_only_stable_evidence:
  assumes "commit_observation wid schedule (Some e) now r = (Inr u, r')"
    and "bt_get (reg_watchers r) wid = Some w" "ws_recovery w = Some m" "rm_state m \<noteq> recovery_state.Confirmed"
    and "bt_get (reg_watchers r') wid = Some w'" "ws_recovery w' = Some m'" "rm_state m' = recovery_state.Confirmed"
  shows "is_actionable (ev_category e) \<and>
    (src_kind (ev_source e) \<noteq> ScreenDetection \<or> 2 \<le> screen_stable_count schedule) \<and>
    rm_current m' = Some (evidence_fingerprint e) \<and>
    rm_state m \<in> {recovery_state.NeedsRevalidation, recovery_state.Observing, recovery_state.Recovered}"
  using assms(1) unfolding commit_observation_def
proof (cases rule: update_watcher_cases)
  case (stored w0 w1 x rv)
  have w0: "w0 = w" using stored(2) assms(2) by simp
  have w': "ws_recovery w' = ws_recovery w1"
    using stored(5) assms(5) by (auto simp: wrote_def)
  have ob: "observed_watcher schedule (Some e) now w = Inr w1"
    using stored(3) w0 by (auto simp: result_simps)
  obtain lc where om: "observe_machine e (complete_wake now schedule) (ws_lifecycle w, m) = Inr (lc, m')"
    using ob assms(3,6) w' by (auto simp: observed_watcher_def Let_def result_simps)
  have "screen_stable_count (complete_wake now schedule) = screen_stable_count schedule"
    by (simp add: complete_wake_def)
  with om assms(4,7) show ?thesis
    by (auto simp: observe_machine_def result_simps apply_command_Inr rm_op_defs rm_step_iffs
        valid_edge_into screen_is_stable_def rearms_def split: if_splits)
next
  case (failed x)
  then show ?thesis by simp
qed

definition confirming_registry :: registry where
  "confirming_registry = example_registry\<lparr>reg_watchers :=
     [(''w'', example_watcher\<lparr>ws_recovery := Some (rm_new replay_budget)\<rparr>)]\<rparr>"

definition limit_event :: event where
  "limit_event = example_event\<lparr>ev_category := UsageLimit\<rparr>"

theorem commit_confirms_only_stable_evidence_witness:
  "is_actionable (ev_category limit_event) \<and>
   (\<exists>w m. bt_get (reg_watchers (snd (commit_observation ''w'' observation_schedule_default (Some limit_event) 5
       confirming_registry))) ''w'' = Some w \<and> ws_recovery w = Some m \<and>
     rm_current m = Some (evidence_fingerprint limit_event))"
proof -
  obtain r' w' m' where run:
      "commit_observation ''w'' observation_schedule_default (Some limit_event) 5 confirming_registry = (Inr (), r')"
      "bt_get (reg_watchers r') ''w'' = Some w'" "ws_recovery w' = Some m'" "rm_state m' = recovery_state.Confirmed"
    by (simp add: commit_observation_def update_watcher_def confirming_registry_def example_registry_def
        observed_watcher_def observe_machine_def apply_command_def rm_op_defs rm_transition_def rm_new_def
        rearms_def screen_is_stable_def limit_event_def example_event_simps replace_watchers_def
        persist_watchers_def js_write_def next_revision_def chk_add_def example_watcher_def
        watcher_state_new_def Let_def)
  from commit_confirms_only_stable_evidence [OF run(1) _ _ _ run(2-4),
      of "example_watcher\<lparr>ws_recovery := Some (rm_new replay_budget)\<rparr>" "rm_new replay_budget"]
  show ?thesis
    using run by (simp add: confirming_registry_def rm_new_def)
qed

end
