(* ===== verification/Text.thy ===== *)
theory Text
  imports Prelude
begin

text \<open>
  The parts of Rust's \<open>str\<close> that the observation layer uses: UTF-8 validity, lossy decoding, the
  characters of a string as byte segments, white space, lines, splitting and decimal numbers. Strings
  are lists of bytes, as in the prelude.
\<close>

section \<open>UTF-8\<close>

definition is_cont :: "char \<Rightarrow> bool" where
  "is_cont c = (128 \<le> byte_of c \<and> byte_of c \<le> 191)"

text \<open>The ranges of the second byte, by the first one: no overlong forms, surrogates or values above the
  last scalar value.\<close>

definition second_of_three :: "nat \<Rightarrow> nat \<Rightarrow> bool" where
  "second_of_three x y =
     (if x = 224 then 160 \<le> y \<and> y \<le> 191 else if x = 237 then 128 \<le> y \<and> y \<le> 159
      else 128 \<le> y \<and> y \<le> 191)"

definition second_of_four :: "nat \<Rightarrow> nat \<Rightarrow> bool" where
  "second_of_four x y =
     (if x = 240 then 144 \<le> y \<and> y \<le> 191 else if x = 244 then 128 \<le> y \<and> y \<le> 143
      else 128 \<le> y \<and> y \<le> 191)"

text \<open>The first character: whether it is well formed, and how many bytes it takes. An ill-formed one takes
  the bytes that a decoder replaces as a unit.\<close>

definition byte_at :: "(char \<Rightarrow> bool) \<Rightarrow> nat \<Rightarrow> string \<Rightarrow> bool" where
  "byte_at P i s = (i < length s \<and> P (s ! i))"

fun utf8_take :: "string \<Rightarrow> bool \<times> nat" where
  "utf8_take [] = (True, 0)"
| "utf8_take (a # s) =
     (let x = byte_of a in
      if x < 128 then (True, 1)
      else if 194 \<le> x \<and> x \<le> 223 then
        (if byte_at is_cont 0 s then (True, 2) else (False, 1))
      else if 224 \<le> x \<and> x \<le> 239 then
        (if \<not> byte_at (\<lambda>b. second_of_three x (byte_of b)) 0 s then (False, 1)
         else if byte_at is_cont 1 s then (True, 3) else (False, 2))
      else if 240 \<le> x \<and> x \<le> 244 then
        (if \<not> byte_at (\<lambda>b. second_of_four x (byte_of b)) 0 s then (False, 1)
         else if \<not> byte_at is_cont 1 s then (False, 2)
         else if byte_at is_cont 2 s then (True, 4) else (False, 3))
      else (False, 1))"

lemma byte_at_append: "byte_at P i s \<Longrightarrow> byte_at P i (s @ t)"
  by (simp add: byte_at_def nth_append)

lemma byte_at_take [simp]: "byte_at P i (take n s) \<longleftrightarrow> i < n \<and> byte_at P i s"
  by (auto simp: byte_at_def)

lemma byte_at_length: "byte_at P i s \<Longrightarrow> i < length s"
  by (simp add: byte_at_def)

lemma utf8_take_pos: "s \<noteq> [] \<Longrightarrow> 0 < snd (utf8_take s)"
  by (cases s) (simp_all add: Let_def)

text \<open>The four forms of a well-formed character.\<close>

definition utf8_form :: "nat \<Rightarrow> nat \<Rightarrow> string \<Rightarrow> bool" where
  "utf8_form n x s \<longleftrightarrow>
     (n = 1 \<and> x < 128 \<or>
      n = 2 \<and> 194 \<le> x \<and> x \<le> 223 \<and> byte_at is_cont 0 s \<or>
      n = 3 \<and> 224 \<le> x \<and> x \<le> 239 \<and> byte_at (\<lambda>b. second_of_three x (byte_of b)) 0 s \<and> byte_at is_cont 1 s \<or>
      n = 4 \<and> 240 \<le> x \<and> x \<le> 244 \<and> byte_at (\<lambda>b. second_of_four x (byte_of b)) 0 s \<and>
        byte_at is_cont 1 s \<and> byte_at is_cont 2 s)"

lemma utf8_take_form: "utf8_take (a # s) = (True, n) \<longleftrightarrow> utf8_form n (byte_of a) s"
proof -
  have "utf8_form n x s \<longleftrightarrow>
     (if x < 128 then n = 1
      else if 194 \<le> x \<and> x \<le> 223 then n = 2 \<and> byte_at is_cont 0 s
      else if 224 \<le> x \<and> x \<le> 239 then
        n = 3 \<and> byte_at (\<lambda>b. second_of_three x (byte_of b)) 0 s \<and> byte_at is_cont 1 s
      else if 240 \<le> x \<and> x \<le> 244 then
        n = 4 \<and> byte_at (\<lambda>b. second_of_four x (byte_of b)) 0 s \<and> byte_at is_cont 1 s \<and> byte_at is_cont 2 s
      else False)" for x
    unfolding utf8_form_def by (auto split: if_split)
  then show ?thesis by (simp add: Let_def eq_commute [of _ n])
qed

text \<open>The characters of a string, each as its bytes.\<close>

function str_segs :: "string \<Rightarrow> string list" where
  "str_segs [] = []"
| "s \<noteq> [] \<Longrightarrow> str_segs s = take (snd (utf8_take s)) s # str_segs (drop (snd (utf8_take s)) s)"
  by auto
termination
proof (relation "measure length", goal_cases)
  case (2 s)
  then show ?case using utf8_take_pos [of s] by (auto intro: diff_less)
qed simp

lemma str_segs_code [code]:
  "str_segs s = (if s = [] then [] else take (snd (utf8_take s)) s # str_segs (drop (snd (utf8_take s)) s))"
  by simp

function utf8_valid :: "string \<Rightarrow> bool" where
  "utf8_valid [] = True"
| "s \<noteq> [] \<Longrightarrow> utf8_valid s = (fst (utf8_take s) \<and> utf8_valid (drop (snd (utf8_take s)) s))"
  by auto
termination
proof (relation "measure length", goal_cases)
  case (2 s)
  then show ?case using utf8_take_pos [of s] by (auto intro: diff_less)
qed simp

lemma utf8_valid_code [code]:
  "utf8_valid s = (s = [] \<or> fst (utf8_take s) \<and> utf8_valid (drop (snd (utf8_take s)) s))"
  by (cases "s = []") simp_all

text \<open>\<open>String::from_utf8_lossy\<close>; the replacement character is U+FFFD.\<close>

definition replacement_character :: string where
  "replacement_character = map char_of [239 :: nat, 191, 189]"

function from_utf8_lossy :: "string \<Rightarrow> string" where
  "from_utf8_lossy [] = []"
| "s \<noteq> [] \<Longrightarrow> from_utf8_lossy s =
     (if fst (utf8_take s) then take (snd (utf8_take s)) s else replacement_character)
       @ from_utf8_lossy (drop (snd (utf8_take s)) s)"
  by auto
termination
proof (relation "measure length", goal_cases)
  case (2 s)
  then show ?case using utf8_take_pos [of s] by (auto intro: diff_less)
qed simp

lemma from_utf8_lossy_code [code]:
  "from_utf8_lossy s =
     (if s = [] then [] else
       (if fst (utf8_take s) then take (snd (utf8_take s)) s else replacement_character)
         @ from_utf8_lossy (drop (snd (utf8_take s)) s))"
  by simp

declare str_segs.simps(2) [simp del] utf8_valid.simps(2) [simp del] from_utf8_lossy.simps(2) [simp del]

lemma concat_str_segs [simp]: "concat (str_segs s) = s"
  by (induction s rule: str_segs.induct) (simp_all add: str_segs.simps(2))

lemma from_utf8_lossy_valid: "utf8_valid s \<Longrightarrow> from_utf8_lossy s = s"
proof (induction s rule: utf8_valid.induct)
  case (2 s)
  then show ?case by (simp add: utf8_valid.simps(2) from_utf8_lossy.simps(2))
qed simp

text \<open>A well-formed character: it is one character, and nothing follows it.\<close>

definition utf8_char :: "string \<Rightarrow> bool" where
  "utf8_char g \<longleftrightarrow> g \<noteq> [] \<and> utf8_take g = (True, length g)"

lemma utf8_form_append: "utf8_form n x s \<Longrightarrow> utf8_form n x (s @ t)"
  using byte_at_append unfolding utf8_form_def by blast

lemma utf8_form_take: "utf8_form n x s \<Longrightarrow> utf8_form n x (take (n - 1) s) \<and> n \<le> Suc (length s)"
  unfolding utf8_form_def by (auto simp: Suc_le_eq dest: byte_at_length)

lemma utf8_take_append:
  assumes "fst (utf8_take s)" "s \<noteq> []"
  shows "utf8_take (s @ t) = utf8_take s"
proof (cases s)
  case (Cons a u)
  obtain n where n: "utf8_take s = (True, n)" using assms(1) by (cases "utf8_take s") auto
  then have "utf8_form n (byte_of a) (u @ t)"
    unfolding Cons utf8_take_form by (rule utf8_form_append)
  then show ?thesis using n by (simp only: Cons append_Cons utf8_take_form [symmetric])
qed (use assms in simp)

lemma utf8_take_take:
  assumes "fst (utf8_take s)" "s \<noteq> []"
  shows "utf8_char (take (snd (utf8_take s)) s)"
proof (cases s)
  case (Cons a u)
  obtain n where n: "utf8_take s = (True, n)" using assms(1) by (cases "utf8_take s") auto
  then have "utf8_form n (byte_of a) u" unfolding Cons utf8_take_form .
  from utf8_form_take [OF this] have f: "utf8_form n (byte_of a) (take (n - 1) u)" "n \<le> Suc (length u)"
    by simp_all
  have pos: "0 < n" using utf8_take_pos [OF assms(2)] n by simp
  then have "take n s = a # take (n - 1) u" by (cases n) (simp_all add: Cons)
  moreover have "length (a # take (n - 1) u) = n" using f(2) pos by simp
  ultimately show ?thesis using n f(1) by (simp add: utf8_char_def utf8_take_form [symmetric] del: utf8_take.simps)
qed (use assms in simp)

lemma utf8_valid_segs: "utf8_valid s \<longleftrightarrow> (\<forall>g \<in> set (str_segs s). utf8_char g)"
proof (induction s rule: utf8_valid.induct)
  case (2 s)
  have "fst (utf8_take s) \<longleftrightarrow> utf8_char (take (snd (utf8_take s)) s)"
  proof
    show "utf8_char (take (snd (utf8_take s)) s)" if "fst (utf8_take s)"
      by (rule utf8_take_take [OF that 2(1)])
    show "fst (utf8_take s)" if "utf8_char (take (snd (utf8_take s)) s)"
    proof -
      have "utf8_take s = utf8_take (take (snd (utf8_take s)) s @ drop (snd (utf8_take s)) s)" by simp
      also have "\<dots> = utf8_take (take (snd (utf8_take s)) s)"
        by (rule utf8_take_append) (use that in \<open>auto simp: utf8_char_def\<close>)
      finally show ?thesis using that unfolding utf8_char_def by (metis fst_conv)
    qed
  qed
  with 2 show ?case by (simp add: utf8_valid.simps(2) str_segs.simps(2))
qed simp

lemma str_segs_char_append: "utf8_char g \<Longrightarrow> str_segs (g @ s) = g # str_segs s"
proof -
  assume g: "utf8_char g"
  then have "utf8_take (g @ s) = (True, length g)" "g \<noteq> []"
    using utf8_take_append [of g s] by (simp_all add: utf8_char_def)
  then show ?thesis by (simp add: str_segs.simps(2))
qed

lemma str_segs_concat: "\<forall>g \<in> set gs. utf8_char g \<Longrightarrow> str_segs (concat gs) = gs"
  by (induction gs) (simp_all add: str_segs_char_append)

lemma utf8_valid_concat: "\<forall>g \<in> set gs. utf8_char g \<Longrightarrow> utf8_valid (concat gs)"
  by (simp add: utf8_valid_segs str_segs_concat)

lemma utf8_valid_append_char:
  assumes "utf8_valid s" "utf8_char g"
  shows "str_segs (s @ g) = str_segs s @ [g]" "utf8_valid (s @ g)"
proof -
  have gs: "\<forall>h \<in> set (str_segs s @ [g]). utf8_char h" using assms by (auto simp: utf8_valid_segs)
  have "concat (str_segs s @ [g]) = s @ g" by simp
  with str_segs_concat [OF gs] utf8_valid_concat [OF gs]
  show "str_segs (s @ g) = str_segs s @ [g]" "utf8_valid (s @ g)" by simp_all
qed

lemma utf8_char_ascii: "byte_of a < 128 \<Longrightarrow> utf8_char [a]"
  by (simp add: utf8_char_def)

lemma utf8_char_ascii_bytes:
  assumes "utf8_char g" "c \<in> set g" "byte_of c < 128"
  shows "g = [c]"
proof -
  obtain a s where g: "g = a # s" using assms(1) by (cases g) (auto simp: utf8_char_def)
  have form: "utf8_form (length g) (byte_of a) s"
    using assms(1) g unfolding utf8_char_def utf8_take_form [symmetric] by simp
  have high: "128 \<le> byte_of b" if "is_cont b \<or> second_of_three x (byte_of b) \<or> second_of_four x (byte_of b)" for b x
    using that by (auto simp: is_cont_def second_of_three_def second_of_four_def split: if_splits)
  have "\<forall>i < length s. 128 \<le> byte_of (s ! i)"
  proof (intro allI impI)
    fix i assume i: "i < length s"
    have n: "length g = Suc (length s)" by (simp add: g)
    have "length g \<le> 4" using form by (auto simp: utf8_form_def)
    then consider "i = 0" | "i = 1" "2 \<le> length s" | "i = 2" "3 \<le> length s" using i n by linarith
    then show "128 \<le> byte_of (s ! i)"
      using form i unfolding utf8_form_def byte_at_def n by cases (auto intro: high)
  qed
  then have "c = a" using assms(2,3) g by (auto simp: in_set_conv_nth)
  with form assms(3) g show ?thesis by (simp add: utf8_form_def)
qed

lemma byte_at_Nil [simp]: "\<not> byte_at P i []"
  by (simp add: byte_at_def)

lemma utf8_char_tail_cont:
  assumes "utf8_char (a # s)" "i < length s"
  shows "is_cont (s ! i)"
proof -
  have form: "utf8_form (Suc (length s)) (byte_of a) s"
    using assms(1) unfolding utf8_char_def utf8_take_form [symmetric] by simp
  then have "length s \<le> 3" by (auto simp: utf8_form_def)
  then consider "i = 0" | "i = 1" | "i = 2" using assms(2) by linarith
  then show ?thesis using form assms(2)
    by cases (auto simp: utf8_form_def byte_at_def is_cont_def second_of_three_def second_of_four_def split: if_splits)
qed

section \<open>Characters\<close>

definition seg_scalar :: "string \<Rightarrow> nat" where
  "seg_scalar g = (case str_chars g of [] \<Rightarrow> 0 | x # _ \<Rightarrow> x)"

text \<open>\<open>char::is_whitespace\<close>: the Unicode property White_Space.\<close>

definition is_whitespace :: "nat \<Rightarrow> bool" where
  "is_whitespace c =
     (9 \<le> c \<and> c \<le> 13 \<or> c = 32 \<or> c = 133 \<or> c = 160 \<or> c = 5760 \<or> 8192 \<le> c \<and> c \<le> 8202
      \<or> c = 8232 \<or> c = 8233 \<or> c = 8239 \<or> c = 8287 \<or> c = 12288)"

definition trim_start :: "string \<Rightarrow> string" where
  "trim_start s = concat (dropWhile (\<lambda>g. is_whitespace (seg_scalar g)) (str_segs s))"

definition trim_end :: "string \<Rightarrow> string" where
  "trim_end s = concat (rev (dropWhile (\<lambda>g. is_whitespace (seg_scalar g)) (rev (str_segs s))))"

definition str_trim :: "string \<Rightarrow> string" where
  "str_trim s = trim_end (trim_start s)"

section \<open>Splitting and joining\<close>

text \<open>\<open>split\<close> on the bytes that satisfy a predicate: one piece more than there are separators.\<close>

fun split_when :: "(char \<Rightarrow> bool) \<Rightarrow> string \<Rightarrow> string list" where
  "split_when P [] = [[]]"
| "split_when P (c # s) =
     (if P c then [] # split_when P s
      else (case split_when P s of g # gs \<Rightarrow> (c # g) # gs | [] \<Rightarrow> [[c]]))"

abbreviation NL :: char where
  "NL \<equiv> CHR 0x0A"

abbreviation CR :: char where
  "CR \<equiv> CHR 0x0D"

definition strip_cr :: "string \<Rightarrow> string" where
  "strip_cr s = (if s \<noteq> [] \<and> last s = CR then butlast s else s)"

text \<open>\<open>str::lines\<close>: a carriage return is stripped only before a line feed; no line after the last one.\<close>

definition str_lines :: "string \<Rightarrow> string list" where
  "str_lines s =
     (let gs = split_when (\<lambda>c. c = NL) s
      in map strip_cr (butlast gs) @ (if last gs = [] then [] else [last gs]))"

fun str_join :: "string \<Rightarrow> string list \<Rightarrow> string" where
  "str_join sep [] = []"
| "str_join sep [g] = g"
| "str_join sep (g # gs) = g @ sep @ str_join sep gs"

lemma split_when_not_Nil [simp]: "split_when P s \<noteq> []"
  by (induction s) (auto split: list.split)

lemma split_when_clean: "g \<in> set (split_when P s) \<Longrightarrow> c \<in> set g \<Longrightarrow> \<not> P c"
proof (induction s arbitrary: g)
  case (Cons a s)
  then show ?case by (fastforce split: if_splits list.splits)
qed simp

lemma split_when_length: "length (split_when P s) = Suc (length (filter P s))"
  by (induction s) (auto split: list.split)

text \<open>\<open>split_ascii_whitespace\<close>, \<open>rsplit(c).next()\<close> and the last occurrence of a two-byte pattern.\<close>

definition is_ascii_space :: "char \<Rightarrow> bool" where
  "is_ascii_space c = (byte_of c \<in> {9, 10, 12, 13, 32 :: nat})"

definition split_ascii_whitespace :: "string \<Rightarrow> string list" where
  "split_ascii_whitespace s = filter (\<lambda>g. g \<noteq> []) (split_when is_ascii_space s)"

definition after_last :: "char \<Rightarrow> string \<Rightarrow> string" where
  "after_last c s = last (split_when (\<lambda>b. b = c) s)"

definition strip_prefix :: "string \<Rightarrow> string \<Rightarrow> string option" where
  "strip_prefix p s = (if starts_with s p then Some (drop (length p) s) else None)"

text \<open>\<open>split_once\<close> at the first occurrence of a byte, \<open>find\<close> as the text from the first occurrence on, and the pieces
  of \<open>split_whitespace\<close>.\<close>

definition split_once :: "char \<Rightarrow> string \<Rightarrow> (string \<times> string) option" where
  "split_once c s =
     (if c \<in> set s then Some (takeWhile (\<lambda>b. b \<noteq> c) s, tl (dropWhile (\<lambda>b. b \<noteq> c) s)) else None)"

fun find_from :: "string \<Rightarrow> string \<Rightarrow> string option" where
  "find_from p [] = (if p = [] then Some [] else None)"
| "find_from p (c # s) = (if starts_with (c # s) p then Some (c # s) else find_from p s)"

fun split_list :: "('a \<Rightarrow> bool) \<Rightarrow> 'a list \<Rightarrow> 'a list list" where
  "split_list P [] = [[]]"
| "split_list P (x # xs) =
     (if P x then [] # split_list P xs
      else (case split_list P xs of g # gs \<Rightarrow> (x # g) # gs | [] \<Rightarrow> [[x]]))"

definition split_whitespace :: "string \<Rightarrow> string list" where
  "split_whitespace s =
     map concat (filter (\<lambda>g. g \<noteq> []) (split_list (\<lambda>g. is_whitespace (seg_scalar g)) (str_segs s)))"

definition strip_suffix :: "string \<Rightarrow> string \<Rightarrow> string option" where
  "strip_suffix p s = map_option rev (strip_prefix (rev p) (rev s))"

fun rfind2 :: "char \<Rightarrow> char \<Rightarrow> string \<Rightarrow> nat option" where
  "rfind2 a b (x # y # s) =
     (case rfind2 a b (y # s) of Some i \<Rightarrow> Some (Suc i)
      | None \<Rightarrow> if x = a \<and> y = b then Some 0 else None)"
| "rfind2 a b _ = None"

section \<open>Numbers\<close>

text \<open>\<open>str::parse\<close> of the integer types: an optional sign and at least one digit, within the bounds of the
  type. The bytes of \<open>to_le_bytes\<close>.\<close>

definition parse_digits :: "string \<Rightarrow> nat option" where
  "parse_digits s =
     (if s = [] \<or> \<not> list_all is_ascii_digit s then None
      else Some (foldl (\<lambda>n c. n * 10 + (byte_of c - 48)) 0 s))"

definition strip_sign :: "char \<Rightarrow> string \<Rightarrow> string" where
  "strip_sign c s = (case s of [] \<Rightarrow> [] | b # t \<Rightarrow> if b = c then t else s)"

definition parse_unsigned :: "nat \<Rightarrow> string \<Rightarrow> nat option" where
  "parse_unsigned w s =
     (case parse_digits (strip_sign (CHR ''+'') s) of None \<Rightarrow> None
      | Some n \<Rightarrow> if n < 2 ^ w then Some n else None)"

definition parse_signed :: "nat \<Rightarrow> string \<Rightarrow> int option" where
  "parse_signed w s =
     (if starts_with s ''-''
      then (case parse_digits (tl s) of None \<Rightarrow> None
        | Some n \<Rightarrow> if n \<le> 2 ^ (w - 1) then Some (- int n) else None)
      else (case parse_digits (strip_sign (CHR ''+'') s) of None \<Rightarrow> None
        | Some n \<Rightarrow> if n < 2 ^ (w - 1) then Some (int n) else None))"

definition le_bytes :: "nat \<Rightarrow> nat \<Rightarrow> string" where
  "le_bytes w n = map (\<lambda>i. char_of (n div 256 ^ i)) [0 ..< w]"

lemma decimal_not_Nil [simp]: "decimal n \<noteq> []"
  by (subst decimal.simps) simp

lemma decimal_digit: "n < 10 \<Longrightarrow> is_ascii_digit (char_of (48 + n :: nat))"
  by (simp add: is_ascii_digit_def)

lemma decimal_digits: "list_all is_ascii_digit (decimal n)"
proof (induction n rule: decimal.induct)
  case (1 n)
  then show ?case by (subst decimal.simps) (simp add: decimal_digit)
qed

lemma foldl_decimal: "foldl (\<lambda>n c. n * 10 + (byte_of c - 48)) 0 (decimal n) = n"
proof (induction n rule: decimal.induct)
  case (1 n)
  then show ?case by (subst decimal.simps) simp
qed

lemma parse_digits_decimal [simp]: "parse_digits (decimal n) = Some n"
  by (simp add: parse_digits_def decimal_digits foldl_decimal)

lemma decimal_head: "c \<in> set (decimal n) \<Longrightarrow> is_ascii_digit c"
  using decimal_digits by (simp add: list_all_iff)

lemma strip_sign_decimal [simp]: "strip_sign (CHR ''+'') (decimal n) = decimal n"
  using decimal_head [of "CHR ''+''" n]
  by (cases "decimal n") (auto simp: strip_sign_def is_ascii_digit_def)

lemma parse_unsigned_decimal [simp]: "parse_unsigned w (decimal n) = (if n < 2 ^ w then Some n else None)"
  by (simp add: parse_unsigned_def)

lemma parse_signed_decimal [simp]: "n < 2 ^ (w - 1) \<Longrightarrow> parse_signed w (decimal n) = Some (int n)"
proof -
  assume n: "n < 2 ^ (w - 1)"
  have "\<not> starts_with (decimal n) ''-''"
    using decimal_head [of "CHR ''-''" n] by (cases "decimal n") (auto simp: starts_with_def is_ascii_digit_def)
  with n show ?thesis by (simp add: parse_signed_def)
qed

end
