(* ===== verification/Screen.thy ===== *)
theory Screen
  imports Text Model_Identity
begin

text \<open>
  Terminal screens (\<open>src/src/observe/screen.rs\<close>): the escape-sequence sanitizer, the live bottom of a
  capture, the provenance of screen lines under a trusted boundary, and the debouncer. A \<open>usize\<close> is a
  natural number; the one product that could exceed it saturates at its maximum.
\<close>

section \<open>The sanitizer\<close>

datatype escape_state = InText | Esc | Csi | InString | StringEnd

record terminal_sanitizer =
  ts_state :: escape_state
  utf8_pending :: string

definition terminal_sanitizer_default :: terminal_sanitizer where
  "terminal_sanitizer_default = \<lparr>ts_state = InText, utf8_pending = []\<rparr>"

definition utf8_sequence_len :: "char \<Rightarrow> nat" where
  "utf8_sequence_len lead =
     (let x = byte_of lead in
      if 194 \<le> x \<and> x \<le> 223 then 2 else if 224 \<le> x \<and> x \<le> 239 then 3 else if 240 \<le> x \<and> x \<le> 244 then 4 else 1)"

text \<open>The local variables of the loop: what was kept, and the number of lines.\<close>

record feed_state =
  fd_san :: terminal_sanitizer
  fd_out :: string
  fd_lines :: nat

text \<open>A byte that continues a pending character.\<close>

definition feed_continuation :: "nat \<Rightarrow> char \<Rightarrow> feed_state \<Rightarrow> feed_state" where
  "feed_continuation max_bytes c st =
     (let pending = utf8_pending (fd_san st) @ [c]; expected = utf8_sequence_len (hd pending) in
      if length pending = expected
      then (if utf8_valid pending \<and> length (fd_out st) + expected \<le> max_bytes
            then st\<lparr>fd_out := fd_out st @ pending\<rparr> else st)
             \<lparr>fd_san := (fd_san st)\<lparr>utf8_pending := []\<rparr>\<rparr>
      else st\<lparr>fd_san := (fd_san st)\<lparr>utf8_pending := pending\<rparr>\<rparr>)"

definition feed_text :: "nat \<Rightarrow> nat \<Rightarrow> char \<Rightarrow> feed_state \<Rightarrow> feed_state" where
  "feed_text max_bytes max_lines c st =
     (let x = byte_of c; san = fd_san st in
      if x = 0x1b then st\<lparr>fd_san := san\<lparr>ts_state := Esc\<rparr>\<rparr>
      else if x = 0x9b then st\<lparr>fd_san := san\<lparr>ts_state := Csi\<rparr>\<rparr>
      else if x \<in> {0x90, 0x9d, 0x98, 0x9e, 0x9f} then st\<lparr>fd_san := san\<lparr>ts_state := InString\<rparr>\<rparr>
      else if c = NL then
        (if fd_lines st < max_lines \<and> length (fd_out st) < max_bytes
         then st\<lparr>fd_out := fd_out st @ [c], fd_lines := fd_lines st + 1\<rparr> else st)
      else if c = CR then st
      else if 0x20 \<le> x \<and> x \<le> 0x7e then
        (if length (fd_out st) < max_bytes then st\<lparr>fd_out := fd_out st @ [c]\<rparr> else st)
      else if 0xc2 \<le> x \<and> x \<le> 0xf4 then st\<lparr>fd_san := san\<lparr>utf8_pending := utf8_pending san @ [c]\<rparr>\<rparr>
      else st)"

text \<open>One byte of the input.\<close>

definition feed_byte :: "nat \<Rightarrow> nat \<Rightarrow> char \<Rightarrow> feed_state \<Rightarrow> feed_state" where
  "feed_byte max_bytes max_lines c st0 =
     (let pending = ts_state (fd_san st0) = InText \<and> utf8_pending (fd_san st0) \<noteq> [] in
      if pending \<and> is_cont c then feed_continuation max_bytes c st0
      else
        let st = if pending then st0\<lparr>fd_san := (fd_san st0)\<lparr>utf8_pending := []\<rparr>\<rparr> else st0;
            goto = (\<lambda>s. st\<lparr>fd_san := (fd_san st)\<lparr>ts_state := s\<rparr>\<rparr>) in
        case ts_state (fd_san st) of
          InText \<Rightarrow> feed_text max_bytes max_lines c st
        | Esc \<Rightarrow>
            if c = CHR ''['' then goto Csi
            else if c \<in> {CHR '']'', CHR ''P'', CHR ''X'', CHR ''^'', CHR ''_''} then goto InString
            else goto InText
        | Csi \<Rightarrow> if 0x40 \<le> byte_of c \<and> byte_of c \<le> 0x7e then goto InText else st
        | InString \<Rightarrow>
            if byte_of c = 0x07 then goto InText
            else if byte_of c = 0x1b then goto StringEnd else st
        | StringEnd \<Rightarrow> if byte_of c = 0x5c then goto InText else goto InString)"

text \<open>Bidirectional overrides and isolates.\<close>

definition is_bidi_control :: "nat \<Rightarrow> bool" where
  "is_bidi_control c = (0x202a \<le> c \<and> c \<le> 0x202e \<or> 0x2066 \<le> c \<and> c \<le> 0x2069)"

definition is_char_boundary :: "string \<Rightarrow> nat \<Rightarrow> bool" where
  "is_char_boundary s i = (i = 0 \<or> i = length s \<or> i < length s \<and> \<not> is_cont (s ! i))"

fun floor_boundary :: "string \<Rightarrow> nat \<Rightarrow> nat" where
  "floor_boundary s 0 = 0"
| "floor_boundary s (Suc i) = (if is_char_boundary s (Suc i) then Suc i else floor_boundary s i)"

definition finish_text :: "nat \<Rightarrow> string \<Rightarrow> string" where
  "finish_text max_bytes out =
     (let sanitized = concat (filter (\<lambda>g. \<not> is_bidi_control (seg_scalar g)) (str_segs (from_utf8_lossy out))) in
      if max_bytes < length sanitized then take (floor_boundary sanitized max_bytes) sanitized
      else sanitized)"

definition sanitizer_feed ::
  "string \<Rightarrow> nat \<Rightarrow> nat \<Rightarrow> terminal_sanitizer \<Rightarrow> string \<times> terminal_sanitizer" where
  "sanitizer_feed input max_bytes max_lines san =
     (let st = fold (feed_byte max_bytes max_lines) input \<lparr>fd_san = san, fd_out = [], fd_lines = 1\<rparr>
      in (finish_text max_bytes (fd_out st), fd_san st))"

definition sanitize_terminal :: "string \<Rightarrow> nat \<Rightarrow> nat \<Rightarrow> string" where
  "sanitize_terminal input max_bytes max_lines =
     fst (sanitizer_feed input max_bytes max_lines terminal_sanitizer_default)"

section \<open>The live bottom\<close>

definition USIZE_MAX :: nat where
  "USIZE_MAX = 2 ^ 64 - 1"

text \<open>The box-drawing bar U+2502 in UTF-8.\<close>

definition box_bar :: string where
  "box_bar = map char_of [226 :: nat, 148, 130]"

definition quoted_line :: "string \<Rightarrow> bool" where
  "quoted_line line =
     (let trimmed = trim_start line
      in starts_with trimmed ''>'' \<or> starts_with trimmed box_bar \<or> starts_with trimmed ''history:'')"

definition live_bottom :: "string \<Rightarrow> nat \<Rightarrow> nat \<Rightarrow> string" where
  "live_bottom input max_bytes max_lines =
     (let sanitized = sanitize_terminal input max_bytes (min (max_lines * 4) USIZE_MAX);
          ls = filter (\<lambda>line. \<not> quoted_line line) (str_lines sanitized)
      in str_join [NL] (if max_lines < length ls then drop (length ls - max_lines) ls else ls))"

section \<open>Trusted screens\<close>

datatype line_provenance = LiveOutput | Transcript | CodeFence | Pasted | Quote | Chrome

record screen_line =
  sl_text :: string
  sl_provenance :: line_provenance

record live_screen =
  lv_lines :: "screen_line list"
  lv_trusted_boundary :: "nat option"
  lv_touches_bottom :: bool

definition actionable_bottom :: "live_screen \<Rightarrow> nat \<Rightarrow> string option" where
  "actionable_bottom s max_lines =
     (case lv_trusted_boundary s of
        None \<Rightarrow> None
      | Some boundary \<Rightarrow>
          if \<not> lv_touches_bottom s \<or> length (lv_lines s) \<le> boundary then None
          else
            let eligible = filter (\<lambda>l. sl_provenance l = LiveOutput) (drop boundary (lv_lines s)) in
            if eligible = [] \<or> lv_lines s = [] \<or> sl_provenance (last (lv_lines s)) \<noteq> LiveOutput then None
            else Some (str_join [NL] (map sl_text (rev (take max_lines (rev eligible))))))"

text \<open>The classification of the lines, with the fence flag and the index of the coming line.\<close>

fun classify_lines :: "nat option \<Rightarrow> bool \<Rightarrow> nat \<Rightarrow> string list \<Rightarrow> screen_line list" where
  "classify_lines boundary fenced i [] = []"
| "classify_lines boundary fenced i (text # ls) =
     (let trimmed = trim_start text;
          fence = starts_with trimmed ''```'';
          provenance =
            (if fence \<or> fenced then CodeFence
             else if (case boundary of None \<Rightarrow> False | Some v \<Rightarrow> v \<le> i) then LiveOutput
             else if starts_with trimmed ''>'' \<or> starts_with trimmed box_bar then Quote
             else Transcript)
      in \<lparr>sl_text = text, sl_provenance = provenance\<rparr>
           # classify_lines boundary (if fence then \<not> fenced else fenced) (Suc i) ls)"

definition trusted_tmux_screen :: "string \<Rightarrow> tmux_chrome \<Rightarrow> live_screen" where
  "trusted_tmux_screen capture chrome =
     (let raw = str_lines capture;
          boundary =
            (if tsb_is_supported chrome \<and> first_live_line chrome < length raw
             then Some (first_live_line chrome) else None)
      in \<lparr>lv_lines = classify_lines boundary False 0 raw, lv_trusted_boundary = boundary,
          lv_touches_bottom = (boundary \<noteq> None)\<rparr>)"

section \<open>The debouncer\<close>

record screen_debouncer =
  db_required :: u8
  db_last :: "string option"
  db_stable :: u8

definition debouncer_new :: "u8 \<Rightarrow> screen_debouncer" where
  "debouncer_new required = \<lparr>db_required = max required 2, db_last = None, db_stable = 0\<rparr>"

definition debouncer_observe :: "string \<Rightarrow> bool \<Rightarrow> screen_debouncer \<Rightarrow> bool \<times> screen_debouncer" where
  "debouncer_observe fp terminal_failure d =
     (if terminal_failure then (True, d)
      else let d1 = (if db_last d = Some fp then d\<lparr>db_stable := sat_add (db_stable d) 1\<rparr>
                     else d\<lparr>db_last := Some fp, db_stable := 1\<rparr>)
           in (db_required d1 \<le> db_stable d1, d1))"

end
