(* ===== verification/Screen_Properties.thy ===== *)
theory Screen_Properties
  imports Screen
begin

text \<open>
  What leaves the screen layer: the sanitizer's output is bounded, well-formed text without ASCII control bytes
  and bidirectional controls, and such text passes unchanged; only a trusted region yields actionable text, and
  the debouncer asks for a run of equal screens.
\<close>

section \<open>The sanitizer's output\<close>

definition ascii_clean :: "string \<Rightarrow> bool" where
  "ascii_clean s \<longleftrightarrow> (\<forall>c \<in> set s. byte_of c < 128 \<longrightarrow> c = NL \<or> 32 \<le> byte_of c \<and> byte_of c \<le> 126)"

definition newlines :: "string \<Rightarrow> nat" where
  "newlines s = length (filter (\<lambda>c. c = NL) s)"

definition san_ok :: "terminal_sanitizer \<Rightarrow> bool" where
  "san_ok san \<longleftrightarrow> (\<forall>c \<in> set (utf8_pending san). 128 \<le> byte_of c)"

definition feed_ok :: "nat \<Rightarrow> nat \<Rightarrow> feed_state \<Rightarrow> bool" where
  "feed_ok max_bytes max_lines st \<longleftrightarrow> san_ok (fd_san st) \<and> utf8_valid (fd_out st) \<and>
     length (fd_out st) \<le> max_bytes \<and> ascii_clean (fd_out st) \<and>
     fd_lines st = Suc (newlines (fd_out st)) \<and> fd_lines st \<le> max 1 max_lines"

lemma ascii_clean_append [simp]: "ascii_clean (s @ t) \<longleftrightarrow> ascii_clean s \<and> ascii_clean t"
  by (auto simp: ascii_clean_def)

lemma newlines_append [simp]: "newlines (s @ t) = newlines s + newlines t"
  by (simp add: newlines_def)

lemma newlines_high: "\<forall>c \<in> set s. 128 \<le> byte_of c \<Longrightarrow> newlines s = 0"
  by (auto simp: newlines_def filter_empty_conv)

lemma utf8_valid_append: "utf8_valid s \<Longrightarrow> utf8_valid t \<Longrightarrow> utf8_valid (s @ t)"
  using utf8_valid_concat [of "str_segs s @ str_segs t"] by (auto simp: utf8_valid_segs)

lemma utf8_valid_ascii: "byte_of c < 128 \<Longrightarrow> utf8_valid [c]"
  using utf8_valid_concat [of "[[c]]"] by (simp add: utf8_char_ascii)

lemma feed_continuation_ok:
  assumes "feed_ok mb ml st" "is_cont c"
  shows "feed_ok mb ml (feed_continuation mb c st)"
proof -
  let ?p = "utf8_pending (fd_san st) @ [c]"
  have high: "\<forall>c \<in> set ?p. 128 \<le> byte_of c"
    using assms by (auto simp: feed_ok_def san_ok_def is_cont_def)
  then have "ascii_clean ?p" "newlines ?p = 0"
    by (auto simp: ascii_clean_def newlines_high simp del: set_append newlines_append)
  then show ?thesis
    using assms(1) high utf8_valid_append [of "fd_out st" ?p]
    by (auto simp: feed_continuation_def feed_ok_def san_ok_def Let_def)
qed

lemma feed_text_ok:
  assumes "feed_ok mb ml st"
  shows "feed_ok mb ml (feed_text mb ml c st)"
proof -
  have ascii: "utf8_valid (fd_out st @ [c])" if "byte_of c < 128"
    by (rule utf8_valid_append) (use assms that utf8_valid_ascii in \<open>simp_all add: feed_ok_def\<close>)
  have nl: "byte_of NL = (10 :: nat)" by simp
  show ?thesis
  proof (cases "c = NL")
    case True
    with assms ascii show ?thesis
      by (auto simp: feed_text_def feed_ok_def Let_def ascii_clean_def newlines_def)
  next
    case False
    then have "newlines [c] = 0" by (simp add: newlines_def)
    with assms ascii False show ?thesis
      by (auto simp: feed_text_def feed_ok_def san_ok_def Let_def ascii_clean_def)
  qed
qed

lemma feed_ok_san: "feed_ok mb ml st \<Longrightarrow> san_ok san \<Longrightarrow> feed_ok mb ml (st\<lparr>fd_san := san\<rparr>)"
  by (simp add: feed_ok_def)

lemma feed_byte_ok:
  assumes "feed_ok mb ml st"
  shows "feed_ok mb ml (feed_byte mb ml c st)"
proof -
  have san: "san_ok (fd_san st)" "san_ok ((fd_san st)\<lparr>utf8_pending := []\<rparr>)"
    using assms by (simp_all add: feed_ok_def san_ok_def)
  have goto: "feed_ok mb ml (st'\<lparr>fd_san := (fd_san st')\<lparr>ts_state := s\<rparr>\<rparr>)" if "feed_ok mb ml st'" for st' s
    by (rule feed_ok_san [OF that]) (use that in \<open>simp add: feed_ok_def san_ok_def\<close>)
  define st1 where "st1 = (if ts_state (fd_san st) = InText \<and> utf8_pending (fd_san st) \<noteq> []
     then st\<lparr>fd_san := (fd_san st)\<lparr>utf8_pending := []\<rparr>\<rparr> else st)"
  have st1: "feed_ok mb ml st1"
    using assms feed_ok_san [OF assms san(2)] by (simp add: st1_def)
  show ?thesis
    using feed_continuation_ok [OF assms] feed_text_ok [OF st1] goto [OF st1] st1
    unfolding feed_byte_def Let_def st1_def [symmetric] by (auto split: escape_state.split)
qed

lemma feed_fold_ok: "feed_ok mb ml st \<Longrightarrow> feed_ok mb ml (fold (feed_byte mb ml) input st)"
  by (induction input arbitrary: st) (simp_all add: feed_byte_ok)

text \<open>Text of the sanitizer: bounded, well formed, free of ASCII control bytes other than the line feed, and of
  bidirectional controls. C1 controls encoded in UTF-8 are not excluded.\<close>

definition screen_text :: "nat \<Rightarrow> nat \<Rightarrow> string \<Rightarrow> bool" where
  "screen_text max_bytes max_lines s \<longleftrightarrow> length s \<le> max_bytes \<and> newlines s < max 1 max_lines \<and> utf8_valid s \<and>
     ascii_clean s \<and> (\<forall>g \<in> set (str_segs s). \<not> is_bidi_control (seg_scalar g))"

lemma length_concat_filter: "length (concat (filter P gs)) \<le> length (concat gs)"
  by (induction gs) auto

lemma set_concat_filter: "set (concat (filter P gs)) \<subseteq> set (concat gs)"
  by auto

lemma newlines_concat_filter: "newlines (concat (filter P gs)) \<le> newlines (concat gs)"
  by (induction gs) (auto simp: newlines_def)

lemma finish_text_ok:
  assumes "feed_ok mb ml st"
  shows "screen_text mb ml (finish_text mb (fd_out st))"
proof -
  let ?s = "fd_out st"
  let ?f = "filter (\<lambda>g. \<not> is_bidi_control (seg_scalar g)) (str_segs ?s)"
  have v: "utf8_valid ?s" using assms by (simp add: feed_ok_def)
  then have segs: "str_segs (concat ?f) = ?f" "utf8_valid (concat ?f)"
    using str_segs_concat [of ?f] utf8_valid_concat [of ?f] by (auto simp: utf8_valid_segs)
  have len: "length (concat ?f) \<le> length ?s" using length_concat_filter [of _ "str_segs ?s"] by simp
  have "set (concat ?f) \<subseteq> set ?s" using set_concat_filter [of _ "str_segs ?s"] by simp
  then have clean: "ascii_clean (concat ?f)"
    using assms by (auto simp: feed_ok_def ascii_clean_def)
  have nl: "newlines (concat ?f) \<le> newlines ?s" using newlines_concat_filter [of _ "str_segs ?s"] by simp
  have "finish_text mb ?s = concat ?f"
    using assms len by (simp add: finish_text_def Let_def from_utf8_lossy_valid v feed_ok_def)
  then show ?thesis
    using assms segs len clean nl by (auto simp: screen_text_def feed_ok_def)
qed

text \<open>A sanitizer fed with several pieces of input.\<close>

fun feed_all :: "string list \<Rightarrow> nat \<Rightarrow> nat \<Rightarrow> terminal_sanitizer \<Rightarrow> string list" where
  "feed_all [] mb ml san = []"
| "feed_all (i # is) mb ml san = (case sanitizer_feed i mb ml san of (out, san') \<Rightarrow> out # feed_all is mb ml san')"

lemma sanitizer_feed_ok:
  assumes "san_ok san" "sanitizer_feed input mb ml san = (out, san')"
  shows "screen_text mb ml out" "san_ok san'"
proof -
  let ?st = "fold (feed_byte mb ml) input \<lparr>fd_san = san, fd_out = [], fd_lines = 1\<rparr>"
  have "feed_ok mb ml ?st"
    by (rule feed_fold_ok) (use assms(1) in \<open>simp add: feed_ok_def ascii_clean_def newlines_def\<close>)
  with assms(2) finish_text_ok show "screen_text mb ml out" "san_ok san'"
    by (auto simp: sanitizer_feed_def Let_def feed_ok_def)
qed

lemma feed_all_ok: "san_ok san \<Longrightarrow> list_all (screen_text mb ml) (feed_all inputs mb ml san)"
proof (induction inputs arbitrary: san)
  case (Cons i inputs)
  obtain out san' where f: "sanitizer_feed i mb ml san = (out, san')" by fastforce
  with sanitizer_feed_ok [OF Cons.prems f] Cons.IH show ?case by simp
qed simp

text \<open>Clean text passes: first one character, then a text.\<close>

lemma feed_tail:
  assumes "s \<noteq> []" "\<forall>c \<in> set s. is_cont c" "p \<noteq> []" "utf8_sequence_len (hd p) = length (p @ s)" "utf8_valid (p @ s)"
    and "ts_state (fd_san st) = InText" "utf8_pending (fd_san st) = p" "length (fd_out st) + length (p @ s) \<le> mb"
  shows "fold (feed_byte mb ml) s st =
    st\<lparr>fd_out := fd_out st @ p @ s, fd_san := (fd_san st)\<lparr>utf8_pending := []\<rparr>\<rparr>"
  using assms
proof (induction s arbitrary: p st)
  case (Cons c s)
  let ?st = "feed_continuation mb c st"
  have step: "feed_byte mb ml c st = ?st" using Cons.prems by (simp add: feed_byte_def Let_def)
  show ?case
  proof (cases "s = []")
    case True
    with Cons.prems step show ?thesis by (simp add: feed_continuation_def Let_def)
  next
    case False
    then have st: "?st = st\<lparr>fd_san := (fd_san st)\<lparr>utf8_pending := p @ [c]\<rparr>\<rparr>"
      using Cons.prems by (simp add: feed_continuation_def Let_def)
    from Cons.IH [of "p @ [c]" ?st] Cons.prems False step show ?thesis by (simp add: st)
  qed
qed simp

lemma feed_char:
  assumes "utf8_char g" "ascii_clean g" "ts_state (fd_san st) = InText" "utf8_pending (fd_san st) = []"
    and "length (fd_out st) + length g \<le> mb" "g = [NL] \<Longrightarrow> fd_lines st < ml"
  shows "fold (feed_byte mb ml) g st = st\<lparr>fd_out := fd_out st @ g, fd_lines := fd_lines st + newlines g\<rparr>"
proof -
  obtain a s where g: "g = a # s" using assms(1) by (cases g) (auto simp: utf8_char_def)
  have form: "utf8_form (Suc (length s)) (byte_of a) s"
    using assms(1) g unfolding utf8_char_def utf8_take_form [symmetric] by simp
  show ?thesis
  proof (cases "s = []")
    case True
    then have "byte_of a < 128" using form by (simp add: utf8_form_def)
    then have "a = NL \<or> a \<noteq> NL \<and> a \<noteq> CR \<and> 32 \<le> byte_of a \<and> byte_of a \<le> 126"
      using assms(2) by (auto simp: g True ascii_clean_def)
    then show ?thesis
      using assms(3-6) by (auto simp: g True feed_byte_def feed_text_def Let_def newlines_def)
  next
    case False
    have lead: "194 \<le> byte_of a" "byte_of a \<le> 244" "utf8_sequence_len a = length (a # s)"
      using form False by (auto simp: utf8_form_def utf8_sequence_len_def)
    have conts: "\<forall>c \<in> set s. is_cont c"
      using utf8_char_tail_cont [of a s] assms(1) by (auto simp: g in_set_conv_nth)
    have "feed_byte mb ml a st = st\<lparr>fd_san := (fd_san st)\<lparr>utf8_pending := [a]\<rparr>\<rparr>"
      using lead(1,2) assms(3,4) by (auto simp: feed_byte_def feed_text_def Let_def)
    moreover have "newlines g = 0"
      using lead(1) conts by (auto simp: g is_cont_def intro!: newlines_high)
    moreover have "utf8_valid ([a] @ s)" using utf8_valid_concat [of "[g]"] assms(1) by (simp add: g)
    ultimately show ?thesis
      using feed_tail [OF False conts, of "[a]" "st\<lparr>fd_san := (fd_san st)\<lparr>utf8_pending := [a]\<rparr>\<rparr>" mb ml] lead(3) assms(3-5)
      by (simp add: g)
  qed
qed

lemma feed_chars:
  assumes "\<forall>g \<in> set gs. utf8_char g \<and> ascii_clean g" "ts_state (fd_san st) = InText" "utf8_pending (fd_san st) = []"
    and "length (fd_out st) + length (concat gs) \<le> mb" "fd_lines st + newlines (concat gs) \<le> max 1 ml" "0 < fd_lines st"
  shows "fold (feed_byte mb ml) (concat gs) st =
    st\<lparr>fd_out := fd_out st @ concat gs, fd_lines := fd_lines st + newlines (concat gs)\<rparr>"
  using assms
proof (induction gs arbitrary: st)
  case (Cons g gs)
  let ?st = "st\<lparr>fd_out := fd_out st @ g, fd_lines := fd_lines st + newlines g\<rparr>"
  have "fd_lines st < ml" if "g = [NL]" using Cons.prems(5,6) that by (simp add: newlines_def max_def split: if_splits)
  then have "fold (feed_byte mb ml) g st = ?st" using Cons.prems by (intro feed_char) simp_all
  with Cons.IH [of ?st] Cons.prems show ?case by (simp add: add.assoc)
qed (simp add: newlines_def)

lemma screen_text_passes:
  assumes "screen_text mb ml s"
  shows "sanitize_terminal s mb ml = s"
proof -
  let ?st = "\<lparr>fd_san = terminal_sanitizer_default, fd_out = [], fd_lines = 1\<rparr>"
  have s: "length s \<le> mb" "newlines s < max 1 ml" "utf8_valid s" "ascii_clean s"
      "\<forall>g \<in> set (str_segs s). \<not> is_bidi_control (seg_scalar g)"
    using assms by (simp_all add: screen_text_def)
  have "set (concat (str_segs s)) = set s" by simp
  then have "\<forall>g \<in> set (str_segs s). set g \<subseteq> set s" unfolding set_concat by blast
  then have "\<forall>g \<in> set (str_segs s). utf8_char g \<and> ascii_clean g"
    using s(3,4) by (auto simp: utf8_valid_segs ascii_clean_def)
  from feed_chars [OF this, of ?st mb ml] s(1,2)
  have "fd_out (fold (feed_byte mb ml) s ?st) = s" by (simp add: terminal_sanitizer_default_def)
  moreover have "finish_text mb s = s"
    using s(1,3,5) by (simp add: finish_text_def Let_def from_utf8_lossy_valid filter_id_conv [THEN iffD2])
  ultimately show ?thesis by (simp add: sanitize_terminal_def sanitizer_feed_def Let_def)
qed

text \<open>C36: Whatever bytes a terminal emits, in whatever pieces they arrive, each text the sanitizer returns
  is valid UTF-8 of at most the allowed bytes and lines, in which every ASCII byte is printable or a line
  feed (so that no escape byte and no other ASCII control is left) and which has no bidirectional override
  or isolate; and a text passes unchanged exactly when it is of this form. Controls of the C1 range that
  arrive encoded in UTF-8 are not removed.\<close>

theorem sanitizer_drops_ascii_controls:
  "list_all (screen_text mb ml) (feed_all inputs mb ml terminal_sanitizer_default) \<and>
   (sanitize_terminal s mb ml = s \<longleftrightarrow> screen_text mb ml s)"
proof
  have default: "san_ok terminal_sanitizer_default" by (simp add: san_ok_def terminal_sanitizer_default_def)
  then show "list_all (screen_text mb ml) (feed_all inputs mb ml terminal_sanitizer_default)" by (rule feed_all_ok)
  have "screen_text mb ml (sanitize_terminal s mb ml)"
    using sanitizer_feed_ok(1) [OF default prod.collapse [symmetric]] by (simp add: sanitize_terminal_def)
  then show "sanitize_terminal s mb ml = s \<longleftrightarrow> screen_text mb ml s" using screen_text_passes by auto
qed

text \<open>The sanitizer does not remove all controls: a C1 control that arrives encoded in UTF-8, such as the
  CSI introducer U+009B, passes through unchanged, although the same control as a raw byte starts a
  sequence that is dropped.\<close>

theorem sanitizer_passes_encoded_c1:
  "str_chars (sanitize_terminal (map char_of [0xc2 :: nat, 0x9b, 0x32, 0x4a]) 100 10) = [0x9b, 0x32, 0x4a] \<and>
   is_control 0x9b \<and> sanitize_terminal (map char_of [0x9b :: nat, 0x32, 0x4a]) 100 10 = []"
  by code_simp

section \<open>Trusted regions\<close>

lemma classify_lines_texts [simp]: "map sl_text (classify_lines b f i ls) = ls"
  by (induction ls arbitrary: f i) (simp_all add: Let_def)

lemma classify_lines_length [simp]: "length (classify_lines b f i ls) = length ls"
  by (induction ls arbitrary: f i) (simp_all add: Let_def)

lemma subseq_map_filter: "subseq (map f (filter P xs)) (map f xs)"
  by (induction xs) auto

text \<open>Actionable text comes only from the proven region of a supported adapter boundary: without a
  supported boundary inside the capture there is none, and otherwise it consists of at most the allowed
  number of lines of the capture from the boundary on, in their order.\<close>

theorem actionable_text_is_trusted:
  assumes "actionable_bottom (trusted_tmux_screen capture chrome) n = Some text"
  shows "tsb_is_supported chrome \<and>
    (\<exists>ls. text = str_join [NL] ls \<and> length ls \<le> n \<and>
       subseq ls (drop (first_live_line chrome) (str_lines capture)))"
proof -
  let ?raw = "str_lines capture" and ?b = "first_live_line chrome"
  let ?ls = "classify_lines (Some ?b) False 0 ?raw"
  let ?el = "filter (\<lambda>l. sl_provenance l = LiveOutput) (drop ?b ?ls)"
  have ok: "tsb_is_supported chrome" "?b < length ?raw"
    and tx: "text = str_join [NL] (map sl_text (rev (take n (rev ?el))))"
    using assms by (auto simp: actionable_bottom_def trusted_tmux_screen_def Let_def split: if_splits)
  have last_n: "subseq (map f (rev (take n (rev xs)))) (map f xs)" for f :: "screen_line \<Rightarrow> string" and xs
    by (rule subseq_map) (simp add: rev_take suffix_imp_subseq suffix_drop)
  have "subseq (map sl_text (rev (take n (rev ?el)))) (map sl_text ?el)" by (rule last_n)
  also have "subseq (map sl_text ?el) (map sl_text (drop ?b ?ls))" by (rule subseq_map_filter)
  also have "map sl_text (drop ?b ?ls) = drop ?b ?raw" by (simp add: drop_map [symmetric])
  finally show ?thesis using ok tx by (intro conjI exI) auto
qed

theorem actionable_text_is_trusted_witness:
  "\<exists>ls. subseq ls [''c''] \<and>
     actionable_bottom (trusted_tmux_screen (''a'' @ [NL] @ ''> b'' @ [NL] @ ''c'')
       \<lparr>tsb_adapter = ''tmux'', tsb_version = 1, first_live_line = 2\<rparr>) 5 = Some (str_join [NL] ls)"
proof -
  let ?cap = "''a'' @ [NL] @ ''> b'' @ [NL] @ ''c''"
  let ?ch = "\<lparr>tsb_adapter = ''tmux'', tsb_version = 1, first_live_line = 2\<rparr> :: tmux_chrome"
  have run: "actionable_bottom (trusted_tmux_screen ?cap ?ch) 5 = Some ''c''" by code_simp
  have "drop 2 (str_lines ?cap) = [''c'']" by code_simp
  with actionable_text_is_trusted [OF run] run show ?thesis by auto
qed

section \<open>The debouncer\<close>

text \<open>The length of the run of equal fingerprints at the end of a history, most recent first.\<close>

fun run_length :: "string list \<Rightarrow> nat" where
  "run_length [] = 0"
| "run_length (f # fs) = Suc (length (takeWhile (\<lambda>g. g = f) fs))"

text \<open>The debouncer after a history of observations; terminal failures are answered at once.\<close>

definition debouncer_after :: "u8 \<Rightarrow> string list \<Rightarrow> screen_debouncer" where
  "debouncer_after required fps = fold (\<lambda>fp d. snd (debouncer_observe fp False d)) fps (debouncer_new required)"

lemma debouncer_after_snoc:
  "debouncer_after required (fps @ [fp]) = snd (debouncer_observe fp False (debouncer_after required fps))"
  by (simp add: debouncer_after_def)

lemma unat_sat_inc: "unat (sat_add (x :: u8) 1) = min (Suc (unat x)) 255"
  by (simp add: unat_sat_add)

lemma run_length_Cons: "run_length (f # fs) = (if fs \<noteq> [] \<and> hd fs = f then Suc (run_length fs) else 1)"
  by (cases fs) auto

lemma debouncer_after_state:
  "db_required (debouncer_after required fps) = max required 2 \<and>
   db_last (debouncer_after required fps) = (if fps = [] then None else Some (last fps)) \<and>
   unat (db_stable (debouncer_after required fps)) = min 255 (run_length (rev fps))"
proof (induction fps rule: rev_induct)
  case Nil
  then show ?case by (simp add: debouncer_after_def debouncer_new_def)
next
  case (snoc fp fps)
  have "fps \<noteq> [] \<Longrightarrow> hd (rev fps) = last fps" by (simp add: hd_rev)
  with snoc show ?case
    by (auto simp: debouncer_after_snoc debouncer_observe_def Let_def unat_sat_inc run_length_Cons
        simp del: run_length.simps(2))
qed

text \<open>The debouncer accepts a screen exactly when it was seen in at least the required number of
  consecutive observations, and never in fewer than two, however long the watch lasts (the counter
  saturates instead of wrapping); a terminal failure is accepted at once.\<close>

theorem debouncer_accepts_iff:
  "fst (debouncer_observe fp failure (debouncer_after required fps)) \<longleftrightarrow>
     failure \<or> unat (max required 2) \<le> run_length (fp # rev fps)"
proof (cases failure)
  case False
  let ?d = "debouncer_after required (fps @ [fp])"
  have "fst (debouncer_observe fp False (debouncer_after required fps)) \<longleftrightarrow> db_required ?d \<le> db_stable ?d"
    by (simp add: debouncer_after_snoc debouncer_observe_def Let_def)
  also have "\<dots> \<longleftrightarrow> unat (max required 2) \<le> min 255 (run_length (fp # rev fps))"
    using debouncer_after_state [of required "fps @ [fp]"] by (simp add: word_le_nat_alt)
  also have "\<dots> \<longleftrightarrow> unat (max required 2) \<le> run_length (fp # rev fps)"
    using unat_le_max [of "max required 2"] by (simp del: run_length.simps)
  finally show ?thesis using False by simp
qed (simp add: debouncer_observe_def)

end
