(* ===== verification/Observe.thy ===== *)
theory Observe
  imports Text Watcher_State Actuator
begin

text \<open>
  Evidence and cadence (\<open>src/src/observe/mod.rs\<close>, \<open>src/src/daemon/observation.rs\<close>): the fingerprint of a
  piece of evidence, the choice of the event to act on, the classification of adapter states, and the
  schedule of observations. SHA-256 in hexadecimal and the rendering of a target by serde are
  parameters.
\<close>

section \<open>Fingerprints\<close>

text \<open>\<open>u64::to_be_bytes\<close> of a length.\<close>

definition be_bytes :: "u64 \<Rightarrow> string" where
  "be_bytes n = map (\<lambda>i. char_of (unat n div 256 ^ i)) [7, 6, 5, 4, 3, 2, 1, 0]"

definition fingerprint_input :: "string \<Rightarrow> string \<Rightarrow> string \<Rightarrow> string" where
  "fingerprint_input source rule evidence =
     concat (map (\<lambda>part. be_bytes (of_nat (length part)) @ part) [source, rule, evidence])"

definition evidence_fingerprint_of :: "(string \<Rightarrow> string) \<Rightarrow> string \<Rightarrow> string \<Rightarrow> string \<Rightarrow> string" where
  "evidence_fingerprint_of sha source rule evidence = sha (fingerprint_input source rule evidence)"

section \<open>Merging evidence\<close>

text \<open>\<open>f64::total_cmp\<close> as an order; the model has one zero and one not-a-number, the greatest.\<close>

fun f64_total_le :: "f64 \<Rightarrow> f64 \<Rightarrow> bool" where
  "f64_total_le _ NaN = True"
| "f64_total_le NaN _ = False"
| "f64_total_le (Infinite a) (Infinite b) = (a \<longrightarrow> b)"
| "f64_total_le (Infinite a) (Finite _) = (\<not> a)"
| "f64_total_le (Finite _) (Infinite b) = b"
| "f64_total_le (Finite x) (Finite y) = (x \<le> y)"

abbreviation event_rank :: "event \<Rightarrow> u8" where
  "event_rank e \<equiv> source_rank (src_kind (ev_source e))"

text \<open>The comparison is not \<open>Greater\<close>.\<close>

definition evidence_le :: "event \<Rightarrow> event \<Rightarrow> bool" where
  "evidence_le a b =
     (event_rank a < event_rank b
      \<or> event_rank a = event_rank b \<and> f64_total_le (ev_confidence a) (ev_confidence b))"

text \<open>\<open>Iterator::max_by\<close>: the last of the greatest elements.\<close>

fun max_by :: "('a \<Rightarrow> 'a \<Rightarrow> bool) \<Rightarrow> 'a list \<Rightarrow> 'a option" where
  "max_by le [] = None"
| "max_by le (x # xs) = Some (fold (\<lambda>y acc. if le acc y then y else acc) xs x)"

definition correlated :: "event \<Rightarrow> event \<Rightarrow> bool" where
  "correlated l r =
     (ev_watcher_id l = ev_watcher_id r \<and> target_identity_hash l = target_identity_hash r
      \<and> (ev_session_id l = None \<or> ev_session_id r = None \<or> ev_session_id l = ev_session_id r))"

definition contradicts :: "event_category \<Rightarrow> event_category \<Rightarrow> bool" where
  "contradicts a b = (a \<noteq> b \<and> a \<in> {Working, Idle, event_category.Recovered, HumanIntervention})"

definition vetoes :: "event \<Rightarrow> event \<Rightarrow> bool" where
  "vetoes other candidate =
     (correlated other candidate \<and> contradicts (ev_category other) (ev_category candidate)
      \<and> (event_rank candidate < event_rank other
         \<or> event_rank other = event_rank candidate \<and> f64_le (ev_confidence candidate) (ev_confidence other)))"

definition select_actionable :: "event list \<Rightarrow> event option" where
  "select_actionable events =
     (case max_by evidence_le (filter (\<lambda>e. is_actionable (ev_category e)) events) of
        None \<Rightarrow> None
      | Some candidate \<Rightarrow>
          if list_ex (\<lambda>other. vetoes other candidate) events then None else Some candidate)"

section \<open>Adapter states\<close>

definition classify_herdr_state :: "string \<Rightarrow> bool \<Rightarrow> (event_category \<times> bool) option" where
  "classify_herdr_state state terminal_evidence =
     (if state = ''working'' then Some (Working, False)
      else if state = ''idle'' then Some (Idle, False)
      else if state = ''waiting'' then Some (WaitingForTool, False)
      else if state = ''terminated'' \<and> terminal_evidence then Some (Terminated, True)
      else if state = ''blocked'' \<and> terminal_evidence then Some (BlockedGoal, True)
      else None)"

text \<open>
  \<open>observation_event\<close>: \<open>observed\<close> is the current time as chrono renders it, \<open>render\<close> the JSON of the target.
\<close>

definition observation_event ::
  "rfc3339 \<Rightarrow> (string \<Rightarrow> string) \<Rightarrow> (target_identity \<Rightarrow> (string, string) result) \<Rightarrow> string \<Rightarrow> watcher_state
     \<Rightarrow> source_kind \<Rightarrow> string \<Rightarrow> string \<Rightarrow> event_category \<Rightarrow> f64 \<Rightarrow> string \<Rightarrow> (string, event) result" where
  "observation_event parse sha render observed watcher kind source rule category confidence evidence =
     rbind (render (ws_target watcher)) (\<lambda>image.
       event_new parse (''obs-'' @ watcher_id watcher @ ''-'' @ decimal (unat (ws_revision watcher))) observed
         (watcher_id watcher) (sha image) (event_source_new kind source rule) category confidence False
         (evidence_fingerprint_of sha source rule evidence) ''bounded observation'' ObserveOnly)"

section \<open>Cadence\<close>

record observation_cadence =
  oc_interval_seconds :: u64
  oc_max_jitter_seconds :: u64
  oc_next_due :: "u64 btree"

definition cadence_new :: "u64 \<Rightarrow> u64 \<Rightarrow> observation_cadence" where
  "cadence_new interval jitter =
     \<lparr>oc_interval_seconds = max interval 1, oc_max_jitter_seconds = jitter, oc_next_due = []\<rparr>"

definition cadence_register :: "string \<Rightarrow> u64 \<Rightarrow> u64 \<Rightarrow> observation_cadence \<Rightarrow> observation_cadence" where
  "cadence_register target now jitter c =
     c\<lparr>oc_next_due := bt_insert target
        (sat_add (sat_add now (oc_interval_seconds c)) (min jitter (oc_max_jitter_seconds c))) (oc_next_due c)\<rparr>"

definition cadence_wake :: "string \<Rightarrow> observation_cadence \<Rightarrow> observation_cadence" where
  "cadence_wake target c =
     (case bt_get (oc_next_due c) target of
        None \<Rightarrow> c | Some _ \<Rightarrow> c\<lparr>oc_next_due := bt_insert target 0 (oc_next_due c)\<rparr>)"

definition cadence_due :: "u64 \<Rightarrow> observation_cadence \<Rightarrow> string list \<times> observation_cadence" where
  "cadence_due now c =
     (let due = map fst (filter (\<lambda>(_, d). d \<le> now) (oc_next_due c))
      in (due, c\<lparr>oc_next_due :=
            fold (\<lambda>t. bt_insert t (sat_add now (oc_interval_seconds c))) due (oc_next_due c)\<rparr>))"

section \<open>Greatest elements\<close>

locale total_preorder =
  fixes le :: "'a \<Rightarrow> 'a \<Rightarrow> bool"
  assumes le_trans: "le a b \<Longrightarrow> le b c \<Longrightarrow> le a c"
    and le_total: "le a b \<or> le b a"
begin

lemma fold_max:
  "(\<forall>x \<in> insert a (set xs). le x (fold (\<lambda>y acc. if le acc y then y else acc) xs a)) \<and>
   fold (\<lambda>y acc. if le acc y then y else acc) xs a \<in> insert a (set xs)"
proof (induction xs arbitrary: a)
  case Nil
  show ?case using le_total [of a a] by simp
next
  case (Cons y xs)
  show ?case
  proof (cases "le a y")
    case True
    with Cons [of y] le_trans [OF True] show ?thesis by auto
  next
    case False
    with le_total have "le y a" by blast
    with Cons [of a] le_trans [OF this] False show ?thesis by auto
  qed
qed

lemma max_by_greatest:
  assumes "max_by le xs = Some m"
  shows "m \<in> set xs \<and> (\<forall>x \<in> set xs. le x m)"
proof (cases xs)
  case (Cons y ys)
  with assms fold_max [of y ys] show ?thesis by simp
qed (use assms in simp)

end

lemma f64_total_le_trans: "f64_total_le a b \<Longrightarrow> f64_total_le b c \<Longrightarrow> f64_total_le a c"
  by (cases a; cases b; cases c) auto

lemma f64_total_le_total: "f64_total_le a b \<or> f64_total_le b a"
  by (cases a; cases b) auto

interpretation ev: total_preorder evidence_le
proof (unfold_locales, goal_cases)
  case (1 a b c)
  then consider "event_rank a < event_rank b" | "event_rank b < event_rank c" "event_rank a = event_rank b"
    | "event_rank a = event_rank b" "event_rank b = event_rank c"
        "f64_total_le (ev_confidence a) (ev_confidence b)" "f64_total_le (ev_confidence b) (ev_confidence c)"
    unfolding evidence_le_def by blast
  then show ?case
  proof cases
    case 1
    moreover have "event_rank b \<le> event_rank c" using \<open>evidence_le b c\<close> by (auto simp: evidence_le_def)
    ultimately show ?thesis unfolding evidence_le_def by (metis order.strict_trans2)
  next
    case 2
    then show ?thesis by (simp add: evidence_le_def)
  next
    case 3
    then show ?thesis using f64_total_le_trans by (simp add: evidence_le_def)
  qed
next
  case (2 a b)
  consider "event_rank a < event_rank b" | "event_rank b < event_rank a" | "event_rank a = event_rank b"
    by (rule linorder_cases)
  then show ?case
    by cases (use f64_total_le_total in \<open>auto simp: evidence_le_def\<close>)
qed

section \<open>Properties\<close>

text \<open>The event to act on is actionable, comes from the given evidence, has the highest source rank among
  the actionable events (and the highest confidence at that rank), and no correlated event of at least
  its weight says that the agent works, idles, recovered or is in human hands.\<close>

theorem selected_evidence_is_strongest:
  assumes "select_actionable events = Some e"
  shows "e \<in> set events \<and> is_actionable (ev_category e) \<and>
    (\<forall>x \<in> set events. is_actionable (ev_category x) \<longrightarrow> evidence_le x e) \<and>
    (\<forall>x \<in> set events. correlated x e \<and> ev_category x \<in> {Working, Idle, event_category.Recovered, HumanIntervention} \<longrightarrow>
       event_rank x < event_rank e \<or>
       event_rank x = event_rank e \<and> \<not> f64_le (ev_confidence e) (ev_confidence x))"
proof -
  have m: "max_by evidence_le (filter (\<lambda>e. is_actionable (ev_category e)) events) = Some e"
    and v: "\<forall>x \<in> set events. \<not> vetoes x e"
    using assms by (auto simp: select_actionable_def list_ex_iff split: option.splits if_splits)
  note g = ev.max_by_greatest [OF m]
  have "ev_category x \<noteq> ev_category e" if "ev_category x \<in> {Working, Idle, event_category.Recovered, HumanIntervention}" for x
    using that g by auto
  then have "event_rank x < event_rank e \<or> event_rank x = event_rank e \<and> \<not> f64_le (ev_confidence e) (ev_confidence x)"
    if "x \<in> set events" "correlated x e" "ev_category x \<in> {Working, Idle, event_category.Recovered, HumanIntervention}" for x
    using v that unfolding vetoes_def contradicts_def by (metis linorder_cases)
  with g show ?thesis by auto
qed

theorem selected_evidence_is_strongest_witness:
  "\<exists>e. select_actionable [example_event, example_event\<lparr>ev_category := Working, ev_watcher_id := ''v''\<rparr>] = Some e \<and>
     is_actionable (ev_category e)"
proof -
  have "select_actionable [example_event, example_event\<lparr>ev_category := Working, ev_watcher_id := ''v''\<rparr>] =
      Some example_event"
    by (simp add: select_actionable_def vetoes_def correlated_def contradicts_def example_event_simps)
  from selected_evidence_is_strongest [OF this] this show ?thesis by blast
qed

section \<open>Framing of the fingerprint\<close>

lemma length_be_bytes [simp]: "length (be_bytes n) = 8"
  by (simp add: be_bytes_def)

lemma nth_be_bytes: "i < 8 \<Longrightarrow> be_bytes n ! (7 - i) = char_of (unat n div 256 ^ i)"
proof -
  assume "i < 8"
  then have "i \<in> {0, 1, 2, 3, 4, 5, 6, 7}" by auto
  then show ?thesis by (elim insertE emptyE) (simp_all add: be_bytes_def)
qed

lemma be_bytes_inj: "be_bytes m = be_bytes n \<Longrightarrow> m = n"
proof -
  assume "be_bytes m = be_bytes n"
  then have d: "unat m div 256 ^ i mod 256 = unat n div 256 ^ i mod 256" if "i < 8" for i
  proof -
    have "be_bytes m ! (7 - i) = be_bytes n ! (7 - i)" using \<open>be_bytes m = be_bytes n\<close> by simp
    then have "char_of (unat m div 256 ^ i) = (char_of (unat n div 256 ^ i) :: char)"
      using that by (simp add: nth_be_bytes)
    then have "of_char (char_of (unat m div 256 ^ i) :: char) = (of_char (char_of (unat n div 256 ^ i) :: char) :: nat)"
      by simp
    then show ?thesis by simp
  qed
  have "unat m mod 256 ^ k = unat n mod 256 ^ k" if "k \<le> 8" for k
    using that
  proof (induction k)
    case (Suc k)
    have "x mod 256 ^ Suc k = x mod 256 ^ k + 256 ^ k * (x div 256 ^ k mod 256)" for x :: nat
      by (metis add.commute mod_mult2_eq mult.commute power_Suc)
    with Suc d [of k] show ?case by simp
  qed simp
  from this [of 8] have "unat m mod 256 ^ 8 = unat n mod 256 ^ 8" by simp
  moreover have "unat x < 256 ^ 8" for x :: u64 using unat_below [of x] by simp
  ultimately show "m = n" by (simp add: word_unat_eq_iff)
qed

lemma of_nat_u64_inj:
  assumes "(of_nat a :: u64) = of_nat b" "a < 2 ^ 64" "b < 2 ^ 64"
  shows "a = b"
proof -
  have "unat (of_nat a :: u64) = unat (of_nat b :: u64)" using assms(1) by simp
  with assms(2,3) show ?thesis by (simp add: unat_of_nat)
qed

lemma framed_inj:
  assumes "be_bytes (of_nat (length a)) @ a @ s = be_bytes (of_nat (length b)) @ b @ t"
    and "length a < 2 ^ 64" "length b < 2 ^ 64"
  shows "a = b \<and> s = t"
proof -
  have "be_bytes (of_nat (length a)) = be_bytes (of_nat (length b))" "a @ s = b @ t"
    using assms(1) by (simp_all add: append_eq_append_conv)
  then have "(of_nat (length a) :: u64) = of_nat (length b)" by (auto dest: be_bytes_inj)
  then have "length a = length b"
    using assms(2,3) of_nat_u64_inj by blast
  with \<open>a @ s = b @ t\<close> show ?thesis by simp
qed

text \<open>The fingerprint separates its parts: two pieces of evidence of at most \<open>2 ^ 64 - 1\<close> bytes per part
  have the same hash input only if source, rule and evidence are all equal, so that equal fingerprints
  of different evidence would be a collision of the hash function.\<close>

theorem fingerprint_input_injective:
  assumes "fingerprint_input s r e = fingerprint_input s' r' e'"
    and "\<forall>x \<in> {s, r, e, s', r', e'}. length x < 2 ^ 64"
  shows "s = s' \<and> r = r' \<and> e = e'"
proof -
  have a: "s = s' \<and> be_bytes (of_nat (length r)) @ r @ be_bytes (of_nat (length e)) @ e =
      be_bytes (of_nat (length r')) @ r' @ be_bytes (of_nat (length e')) @ e'"
    by (rule framed_inj) (use assms in \<open>auto simp: fingerprint_input_def\<close>)
  then have b: "r = r' \<and> be_bytes (of_nat (length e)) @ e = be_bytes (of_nat (length e')) @ e'"
    using assms(2) by (intro framed_inj) auto
  then have "e = e' \<and> ([] :: string) = []"
    using assms(2) by (intro framed_inj) auto
  with a b show ?thesis by simp
qed

theorem fingerprint_input_injective_witness:
  "fingerprint_input ''a'' ''bc'' ''d'' \<noteq> fingerprint_input ''ab'' ''c'' ''d''"
proof
  assume "fingerprint_input ''a'' ''bc'' ''d'' = fingerprint_input ''ab'' ''c'' ''d''"
  from fingerprint_input_injective [OF this] show False by simp
qed

section \<open>The schedule\<close>

datatype cadence_op = CRegister string u64 u64 | CWake string | CDue u64

fun cadence_apply :: "cadence_op \<Rightarrow> observation_cadence \<Rightarrow> observation_cadence" where
  "cadence_apply (CRegister t now j) c = cadence_register t now j c"
| "cadence_apply (CWake t) c = cadence_wake t c"
| "cadence_apply (CDue now) c = snd (cadence_due now c)"

fun op_not_after :: "u64 \<Rightarrow> cadence_op \<Rightarrow> bool" where
  "op_not_after T (CRegister _ now _) = (now \<le> T)"
| "op_not_after T (CWake _) = True"
| "op_not_after T (CDue now) = (now \<le> T)"

definition cadence_bound :: "u64 \<Rightarrow> observation_cadence \<Rightarrow> u64" where
  "cadence_bound T c = sat_add (sat_add T (oc_interval_seconds c)) (oc_max_jitter_seconds c)"

definition cadence_inv :: "u64 \<Rightarrow> observation_cadence \<Rightarrow> bool" where
  "cadence_inv T c \<longleftrightarrow> bt_wf (oc_next_due c) \<and> (\<forall>(t, d) \<in> set (oc_next_due c). d \<le> cadence_bound T c)"

lemma sat_add_mono: "a \<le> a' \<Longrightarrow> b \<le> b' \<Longrightarrow> sat_add a b \<le> sat_add a' b'"
  by (simp add: word_le_nat_alt unat_sat_add)

lemma cadence_inv_put:
  assumes "cadence_inv T c" "d \<le> cadence_bound T c"
  shows "cadence_inv T (c\<lparr>oc_next_due := bt_insert t d (oc_next_due c)\<rparr>)"
  using assms bt.put_Ball [of "oc_next_due c" "\<lambda>_ d. d \<le> cadence_bound T c" t d]
  by (simp add: cadence_inv_def cadence_bound_def bt_wf_insert)

lemma cadence_inv_puts:
  assumes "cadence_inv T c" "d \<le> cadence_bound T c"
  shows "cadence_inv T (c\<lparr>oc_next_due := fold (\<lambda>t. bt_insert t d) ts (oc_next_due c)\<rparr>)"
  using assms
proof (induction ts arbitrary: c)
  case (Cons t ts)
  from Cons.IH [OF cadence_inv_put [OF Cons.prems]] Cons.prems(2) show ?case
    by (simp add: cadence_bound_def)
qed simp

lemma cadence_apply_inv:
  assumes "cadence_inv T c" "op_not_after T x"
  shows "cadence_inv T (cadence_apply x c)"
proof (cases x)
  case (CRegister t now j)
  have "sat_add (sat_add now (oc_interval_seconds c)) (min j (oc_max_jitter_seconds c)) \<le> cadence_bound T c"
    unfolding cadence_bound_def using assms(2) CRegister by (intro sat_add_mono) simp_all
  with CRegister cadence_inv_put [OF assms(1)] show ?thesis by (simp add: cadence_register_def)
next
  case (CWake t)
  then show ?thesis
    using assms(1) cadence_inv_put [OF assms(1), of 0 t] by (simp add: cadence_wake_def split: option.split)
next
  case (CDue now)
  have "sat_add now (oc_interval_seconds c) \<le> sat_add T (oc_interval_seconds c)"
    using assms(2) CDue by (intro sat_add_mono) simp_all
  also have "\<dots> \<le> cadence_bound T c" unfolding cadence_bound_def by (rule sat_add_ge)
  finally show ?thesis
    using CDue cadence_inv_puts [OF assms(1)] by (simp add: cadence_due_def Let_def)
qed

lemma cadence_apply_settings [simp]:
  "cadence_bound T (cadence_apply x c) = cadence_bound T c"
  by (cases x) (simp_all add: cadence_bound_def cadence_register_def cadence_wake_def cadence_due_def Let_def
      split: option.split)

lemma cadence_run_inv:
  assumes "cadence_inv T c" "\<forall>x \<in> set xs. op_not_after T x"
  shows "cadence_inv T (fold cadence_apply xs c) \<and>
    cadence_bound T (fold cadence_apply xs c) = cadence_bound T c"
  using assms by (induction xs arbitrary: c) (simp_all add: cadence_apply_inv)

text \<open>No target starves: after any registrations, wakes and polls up to a time \<open>T\<close>, every target that
  is registered is due at each time from \<open>T\<close> plus the interval plus the largest jitter on.\<close>

theorem cadence_never_starves:
  assumes "\<forall>x \<in> set xs. op_not_after T x"
    and "bt_get (oc_next_due (fold cadence_apply xs (cadence_new interval jitter))) target = Some d"
    and "sat_add (sat_add T (max interval 1)) jitter \<le> now"
  shows "target \<in> set (fst (cadence_due now (fold cadence_apply xs (cadence_new interval jitter))))"
proof -
  let ?c = "fold cadence_apply xs (cadence_new interval jitter)"
  have "cadence_inv T (cadence_new interval jitter)"
    by (simp add: cadence_inv_def cadence_new_def bt_wf_def)
  from cadence_run_inv [OF this assms(1)] have inv: "cadence_inv T ?c"
    and b: "cadence_bound T ?c = sat_add (sat_add T (max interval 1)) jitter"
    by (simp_all add: cadence_bound_def cadence_new_def)
  have "(target, d) \<in> set (oc_next_due ?c)" using assms(2) by (rule map_of_SomeD)
  moreover from this inv b assms(3) have "d \<le> now" by (fastforce simp: cadence_inv_def)
  ultimately show ?thesis by (force simp: cadence_due_def Let_def)
qed

theorem cadence_never_starves_witness:
  "''t'' \<in> set (fst (cadence_due 40 (fold cadence_apply [CRegister ''t'' 5 9, CDue 20] (cadence_new 10 5))))"
  by (rule cadence_never_starves [where T = 20 and d = 30]; code_simp)

end
