(* ===== verification/Jsonl.thy ===== *)
theory Jsonl
  imports Text
begin

text \<open>
  The incremental reader of transcript files (\<open>src/src/observe/jsonl.rs\<close>): a cursor that follows a file
  of newline-terminated JSON records in bounded reads, and the guard that detects a rewritten file.

  The file is the snapshot that one call sees: device, inode, mode and contents. Opening it or reading
  its metadata may fail; reads at an offset fail past the end. \<open>serde_json::from_slice\<close> and the
  unspecified hash function behind \<open>DefaultHasher\<close>, from the bytes written to it, are parameters.
\<close>

section \<open>Data\<close>

record read_limits =
  max_read_bytes :: nat
  max_record_bytes :: nat
  max_records :: nat

definition read_limits_default :: read_limits where
  "read_limits_default =
     \<lparr>max_read_bytes = 256 * 1024, max_record_bytes = 64 * 1024, max_records = 256\<rparr>"

record jsonl_batch =
  jb_records :: "json list"
  jb_malformed :: nat
  jb_oversized :: nat
  jb_bytes_read :: nat

definition jsonl_batch_default :: jsonl_batch where
  "jsonl_batch_default = \<lparr>jb_records = [], jb_malformed = 0, jb_oversized = 0, jb_bytes_read = 0\<rparr>"

record guard_sample =
  gs_position :: u64
  gs_length :: nat
  gs_digest :: u64

record generation_guard =
  gg_identity :: "u64 \<times> u64"
  gg_consumed_prefix_len :: u64
  gg_mode :: u32
  gg_samples :: "guard_sample list"
  gg_rolling_chunk_accumulator :: u64

record jsonl_cursor =
  jc_path :: string
  jc_limits :: read_limits
  jc_identity :: "(u64 \<times> u64) option"
  jc_offset :: u64
  jc_partial :: string
  jc_pending :: "json list"
  jc_discarding :: bool
  jc_generation_guard :: "generation_guard option"
  jc_guard_key :: u64
  jc_rolling_chunk_accumulator :: u64

record opened_file =
  of_dev :: u64
  of_ino :: u64
  of_mode :: u32
  of_bytes :: string

type_synonym hasher = "string \<Rightarrow> u64"

section \<open>Digests\<close>

text \<open>A \<open>u64\<close> or a \<open>usize\<close> is written to the hasher in the byte order of the machine, and a slice of bytes with
  its length in front.\<close>

definition hashed_slice :: "string \<Rightarrow> string" where
  "hashed_slice bytes = le_bytes 8 (length bytes) @ bytes"

definition digest :: "hasher \<Rightarrow> string \<Rightarrow> u64" where
  "digest h bytes = h (hashed_slice bytes)"

function chunks :: "nat \<Rightarrow> string \<Rightarrow> string list" where
  "chunks n bytes = (if bytes = [] \<or> n = 0 then [] else take n bytes # chunks n (drop n bytes))"
  by pat_completeness auto
termination by (relation "measure (\<lambda>(n, bytes). length bytes)") auto

declare chunks.simps [simp del]

definition rolling_digest :: "hasher \<Rightarrow> u64 \<Rightarrow> string \<Rightarrow> u64" where
  "rolling_digest h previous bytes = h (le_bytes 8 (unat previous) @ concat (map hashed_slice (chunks 1024 bytes)))"

section \<open>The generation guard\<close>

definition read_exact_at :: "opened_file \<Rightarrow> nat \<Rightarrow> u64 \<Rightarrow> string option" where
  "read_exact_at f n position =
     (if unat position + n \<le> length (of_bytes f) then Some (take n (drop (unat position) (of_bytes f)))
      else None)"

definition REGION_BYTES :: u64 where
  "REGION_BYTES = 1024"

definition guard_positions :: "u64 \<Rightarrow> u64 \<Rightarrow> u64 \<Rightarrow> u64 list" where
  "guard_positions offset region key =
     (let maximum_start = offset - region;
          keyed_position = key mod sat_add maximum_start 1
      in [0, maximum_start div 2, keyed_position, maximum_start])"

fun guard_samples ::
  "hasher \<Rightarrow> opened_file \<Rightarrow> nat \<Rightarrow> u64 list \<Rightarrow> guard_sample list \<Rightarrow> (string, guard_sample list) result" where
  "guard_samples h f n [] samples = Inr samples"
| "guard_samples h f n (position # positions) samples =
     (if \<exists>s \<in> set samples. gs_position s = position then guard_samples h f n positions samples
      else case read_exact_at f n position of
        None \<Rightarrow> Inl ''failed to fill whole buffer''
      | Some bytes \<Rightarrow> guard_samples h f n positions
          (samples @ [\<lparr>gs_position = position, gs_length = n, gs_digest = digest h bytes\<rparr>]))"

definition at_offset ::
  "hasher \<Rightarrow> opened_file \<Rightarrow> u64 \<Rightarrow> u64 \<Rightarrow> u64 \<Rightarrow> (string, generation_guard option) result" where
  "at_offset h f offset key acc =
     (if offset = 0 then Inr None
      else let region = min REGION_BYTES offset in
        rbind (guard_samples h f (unat region) (guard_positions offset region key) []) (\<lambda>samples.
        Inr (Some
          \<lparr>gg_identity = (of_dev f, of_ino f), gg_consumed_prefix_len = offset, gg_mode = of_mode f,
           gg_samples = samples, gg_rolling_chunk_accumulator = acc\<rparr>)))"

definition sample_matches :: "hasher \<Rightarrow> opened_file \<Rightarrow> guard_sample \<Rightarrow> bool" where
  "sample_matches h f s =
     (case read_exact_at f (gs_length s) (gs_position s) of None \<Rightarrow> False
      | Some bytes \<Rightarrow> digest h bytes = gs_digest s)"

definition guard_matches :: "hasher \<Rightarrow> generation_guard \<Rightarrow> opened_file \<Rightarrow> bool" where
  "guard_matches h g f =
     (let metadata_matches = (of_dev f, of_ino f) = gg_identity g
            \<and> gg_consumed_prefix_len g \<le> of_nat (length (of_bytes f)) \<and> of_mode f = gg_mode g;
          sample_count = length (gg_samples g);
          first_sample = unat (gg_rolling_chunk_accumulator g) mod sample_count
      in metadata_matches
         \<and> list_all (\<lambda>index. sample_matches h f (gg_samples g ! ((first_sample + index) mod sample_count)))
             [0 ..< sample_count])"

section \<open>The cursor\<close>

definition cursor_new :: "string \<Rightarrow> read_limits \<Rightarrow> u64 \<Rightarrow> jsonl_cursor" where
  "cursor_new path limits guard_key =
     \<lparr>jc_path = path, jc_limits = limits, jc_identity = None, jc_offset = 0, jc_partial = [],
      jc_pending = [], jc_discarding = False, jc_generation_guard = None, jc_guard_key = guard_key,
      jc_rolling_chunk_accumulator = 0\<rparr>"

definition cursor_rewind :: "u64 \<times> u64 \<Rightarrow> jsonl_cursor \<Rightarrow> jsonl_cursor" where
  "cursor_rewind identity c =
     c\<lparr>jc_offset := 0, jc_partial := [], jc_pending := [], jc_discarding := False,
       jc_identity := Some identity, jc_generation_guard := None, jc_rolling_chunk_accumulator := 0\<rparr>"

definition cursor_stale :: "hasher \<Rightarrow> opened_file \<Rightarrow> jsonl_cursor \<Rightarrow> bool" where
  "cursor_stale h f c =
     (jc_identity c \<noteq> Some (of_dev f, of_ino f)
      \<or> of_nat (length (of_bytes f)) < jc_offset c
      \<or> (case jc_generation_guard c of None \<Rightarrow> False | Some g \<Rightarrow> \<not> guard_matches h g f))"

definition pop_pending :: "jsonl_cursor \<Rightarrow> jsonl_batch \<Rightarrow> jsonl_cursor \<times> jsonl_batch" where
  "pop_pending c b =
     (let n = max_records (jc_limits c)
      in (c\<lparr>jc_pending := drop n (jc_pending c)\<rparr>, b\<lparr>jb_records := jb_records b @ take n (jc_pending c)\<rparr>))"

definition jsonl_line ::
  "(string \<Rightarrow> json option) \<Rightarrow> string \<Rightarrow> jsonl_cursor \<times> jsonl_batch \<Rightarrow> jsonl_cursor \<times> jsonl_batch" where
  "jsonl_line from_slice line = (\<lambda>(c, b).
     if jc_discarding c then (c\<lparr>jc_discarding := False\<rparr>, b\<lparr>jb_oversized := jb_oversized b + 1\<rparr>)
     else if max_record_bytes (jc_limits c) < length line then (c, b\<lparr>jb_oversized := jb_oversized b + 1\<rparr>)
     else case from_slice line of
       Some v \<Rightarrow> (c\<lparr>jc_pending := jc_pending c @ [v]\<rparr>, b)
     | None \<Rightarrow> (c, b\<lparr>jb_malformed := jb_malformed b + 1\<rparr>))"

text \<open>The end of the last complete record: one past the last newline, or \<open>0\<close>.\<close>

definition complete_end :: "string \<Rightarrow> nat" where
  "complete_end bytes = length (dropWhile (\<lambda>b. b \<noteq> NL) (rev bytes))"

definition byte_lines :: "string \<Rightarrow> string list" where
  "byte_lines bytes = filter (\<lambda>l. l \<noteq> []) (split_when (\<lambda>b. b = NL) bytes)"

definition cursor_take :: "(string \<Rightarrow> json option) \<Rightarrow> string \<Rightarrow> jsonl_cursor \<Rightarrow> jsonl_cursor \<times> jsonl_batch" where
  "cursor_take from_slice bytes c =
     (let buffer = jc_partial c @ bytes;
          complete = complete_end buffer;
          (c1, b1) = fold (jsonl_line from_slice) (byte_lines (take complete buffer))
            (c\<lparr>jc_partial := drop complete buffer\<rparr>, jsonl_batch_default\<lparr>jb_bytes_read := length bytes\<rparr>);
          c2 = (if max_record_bytes (jc_limits c1) < length (jc_partial c1)
            then c1\<lparr>jc_partial := [], jc_discarding := True\<rparr> else c1)
      in pop_pending c2 b1)"

definition read_new ::
  "hasher \<Rightarrow> (string \<Rightarrow> json option) \<Rightarrow> (string, opened_file) result \<Rightarrow> jsonl_cursor
     \<Rightarrow> jsonl_cursor \<times> (string, jsonl_batch) result" where
  "read_new h from_slice opened c0 =
     (case opened of Inl e \<Rightarrow> (c0, Inl e) | Inr f \<Rightarrow>
       let c = (if cursor_stale h f c0 then cursor_rewind (of_dev f, of_ino f) c0 else c0) in
       if jc_pending c \<noteq> [] then map_prod id Inr (pop_pending c jsonl_batch_default)
       else
         let bytes = take (max_read_bytes (jc_limits c)) (drop (unat (jc_offset c)) (of_bytes f));
             offset = sat_add (jc_offset c) (of_nat (length bytes));
             acc = rolling_digest h (jc_rolling_chunk_accumulator c) bytes;
             c1 = c\<lparr>jc_offset := offset, jc_rolling_chunk_accumulator := acc\<rparr>
         in case at_offset h f offset (jc_guard_key c1) acc of
              Inl e \<Rightarrow> (c1, Inl e)
            | Inr g \<Rightarrow> map_prod id Inr (cursor_take from_slice bytes (c1\<lparr>jc_generation_guard := g\<rparr>)))"

end
