(* ===== verification/Jsonl_Properties.thy ===== *)
theory Jsonl_Properties
  imports Jsonl
begin

text \<open>
  What the transcript reader promises: for a file that only grows, the records delivered are those of the
  complete lines, in order, each once, whatever the sizes of the reads and however often opening the file
  fails; and polling an unchanged file delivers all of them. A record that is too long can make the
  reader drop the record after it.
\<close>

section \<open>Complete lines\<close>

abbreviation nl_split :: "string \<Rightarrow> string list" where
  "nl_split \<equiv> split_when (\<lambda>b. b = NL)"

lemma split_when_snoc:
  "split_when P (s @ [c]) =
     (if P c then split_when P s @ [[]] else butlast (split_when P s) @ [last (split_when P s) @ [c]])"
proof (induction s)
  case (Cons a s)
  then show ?case by (cases "split_when P s") (auto simp: butlast_append split: list.split)
qed simp

lemma split_when_whole: "\<forall>c \<in> set s. \<not> P c \<Longrightarrow> split_when P s = [s]"
  by (induction s) simp_all

lemma last_split_clean: "c \<in> set (last (split_when P s)) \<Longrightarrow> \<not> P c"
  by (rule split_when_clean [OF last_in_set [OF split_when_not_Nil]])

lemma split_last_split [simp]: "split_when P (last (split_when P s)) = [last (split_when P s)]"
  by (rule split_when_whole) (use last_split_clean in blast)

lemma split_when_append:
  "split_when P (s @ t) = butlast (split_when P s) @ split_when P (last (split_when P s) @ t)"
proof (induction t rule: rev_induct)
  case (snoc c t)
  have "split_when P (last (split_when P s) @ t) \<noteq> []" by simp
  with snoc show ?case
    by (simp add: split_when_snoc butlast_append flip: append_assoc)
qed simp

lemma complete_end_split:
  "nl_split (take (complete_end s) s) = butlast (nl_split s) @ [[]] \<and>
   drop (complete_end s) s = last (nl_split s)"
proof (induction s rule: rev_induct)
  case (snoc c s)
  show ?case
  proof (cases "c = NL")
    case True
    then show ?thesis by (simp add: complete_end_def split_when_snoc)
  next
    case False
    then have e: "complete_end (s @ [c]) = complete_end s" by (simp add: complete_end_def)
    have "complete_end s \<le> length s"
      unfolding complete_end_def by (metis length_dropWhile_le length_rev)
    with snoc False show ?thesis by (simp add: e split_when_snoc)
  qed
qed (simp add: complete_end_def)

lemma byte_lines_complete:
  "byte_lines (take (complete_end s) s) = filter (\<lambda>l. l \<noteq> []) (butlast (nl_split s))"
  by (simp add: byte_lines_def complete_end_split)

text \<open>The records of a text: those of its complete lines that parse.\<close>

definition records_of :: "(string \<Rightarrow> json option) \<Rightarrow> string \<Rightarrow> json list" where
  "records_of p s = List.map_filter p (filter (\<lambda>l. l \<noteq> []) (butlast (nl_split s)))"

lemma map_filter_append [simp]: "List.map_filter p (xs @ ys) = List.map_filter p xs @ List.map_filter p ys"
  by (simp add: List.map_filter_def)

lemma records_of_append: "records_of p (s @ t) = records_of p s @ records_of p (last (nl_split s) @ t)"
  by (simp add: records_of_def split_when_append [of _ s t] butlast_append)

lemma records_of_prefix: "prefix s t \<Longrightarrow> prefix (records_of p s) (records_of p t)"
  unfolding prefix_def using records_of_append [of p s] by blast

definition lines_within :: "nat \<Rightarrow> string \<Rightarrow> bool" where
  "lines_within n s = list_all (\<lambda>l. length l \<le> n) (nl_split s)"

lemma lines_within_snoc: "lines_within n (s @ [c]) \<Longrightarrow> lines_within n s"
proof -
  assume a: "lines_within n (s @ [c])"
  have "nl_split s = butlast (nl_split s) @ [last (nl_split s)]" by simp
  then have "lines_within n s \<longleftrightarrow>
      list_all (\<lambda>l. length l \<le> n) (butlast (nl_split s)) \<and> length (last (nl_split s)) \<le> n"
    unfolding lines_within_def by (metis list.pred_inject list_all_append)
  with a show ?thesis
    by (auto simp: lines_within_def split_when_snoc split: if_splits)
qed

lemma lines_within_prefix: "prefix s t \<Longrightarrow> lines_within n t \<Longrightarrow> lines_within n s"
proof -
  have "lines_within n (s @ u) \<Longrightarrow> lines_within n s" for u
    by (induction u rule: rev_induct) (auto dest: lines_within_snoc simp flip: append_assoc)
  then show "prefix s t \<Longrightarrow> lines_within n t \<Longrightarrow> lines_within n s" by (auto simp: prefix_def)
qed

lemma lines_within_tail: "lines_within n (s @ t) \<Longrightarrow> lines_within n (last (nl_split s) @ t)"
  by (simp add: lines_within_def split_when_append [of _ s t])

section \<open>Appending keeps the guard\<close>

definition appended :: "opened_file \<Rightarrow> opened_file \<Rightarrow> bool" where
  "appended f f' =
     (of_dev f' = of_dev f \<and> of_ino f' = of_ino f \<and> of_mode f' = of_mode f
      \<and> prefix (of_bytes f) (of_bytes f'))"

lemma appended_refl [simp]: "appended f f"
  by (simp add: appended_def)

lemma read_exact_appended:
  "appended f f' \<Longrightarrow> read_exact_at f n q = Some b \<Longrightarrow> read_exact_at f' n q = Some b"
  by (auto simp: read_exact_at_def appended_def prefix_def split: if_splits)

lemma sample_matches_appended: "appended f f' \<Longrightarrow> sample_matches h f s \<Longrightarrow> sample_matches h f' s"
  by (auto simp: sample_matches_def split: option.splits dest: read_exact_appended)

lemma of_nat_le_u64: "a \<le> b \<Longrightarrow> b < 2 ^ 64 \<Longrightarrow> (of_nat a :: u64) \<le> of_nat b"
  by (simp add: word_le_nat_alt unat_of_nat)

lemma guard_matches_appended:
  assumes "appended f f'" "guard_matches h g f" "length (of_bytes f') < 2 ^ 64"
  shows "guard_matches h g f'"
proof -
  have "(of_nat (length (of_bytes f)) :: u64) \<le> of_nat (length (of_bytes f'))"
    using assms(1,3) by (intro of_nat_le_u64) (auto simp: appended_def prefix_length_le)
  with assms(1,2) sample_matches_appended [OF assms(1)] show ?thesis
    unfolding guard_matches_def Let_def by (auto simp: appended_def list_all_iff)
qed

lemma guard_samples_match:
  assumes "\<forall>q \<in> set qs. unat q + n \<le> length (of_bytes f)" "\<forall>s \<in> set acc. sample_matches h f s"
  shows "\<exists>ss. guard_samples h f n qs acc = Inr ss \<and> (\<forall>s \<in> set ss. sample_matches h f s)"
  using assms
proof (induction qs arbitrary: acc)
  case (Cons q qs)
  then show ?case by (simp add: read_exact_at_def sample_matches_def)
qed simp

lemma guard_positions_bound:
  assumes "q \<in> set (guard_positions offset region key)" "region \<le> offset"
  shows "unat q + unat region \<le> unat offset"
proof -
  let ?m = "offset - region"
  have m: "unat ?m + unat region = unat offset"
    using assms(2) by (simp add: unat_sub_if' word_le_nat_alt)
  have "unat (key mod sat_add ?m 1) \<le> unat ?m"
  proof -
    have pos: "0 < unat (sat_add ?m 1)" by (simp add: unat_sat_add)
    have "unat (key mod sat_add ?m 1) = unat key mod unat (sat_add ?m 1)" by (rule unat_mod)
    also have "\<dots> < unat (sat_add ?m 1)" using pos by simp
    finally show ?thesis by (simp add: unat_sat_add)
  qed
  moreover have "unat (?m div 2) \<le> unat ?m" by (simp add: unat_div)
  ultimately show ?thesis using assms(1) m by (auto simp: guard_positions_def Let_def)
qed

lemma at_offset_ok:
  assumes "unat offset \<le> length (of_bytes f)" "length (of_bytes f) < 2 ^ 64"
  shows "\<exists>g. at_offset h f offset key acc = Inr g \<and> (\<forall>x. g = Some x \<longrightarrow> guard_matches h x f)"
proof (cases "offset = 0")
  case False
  let ?r = "min REGION_BYTES offset"
  have "\<forall>q \<in> set (guard_positions offset ?r key). unat q + unat ?r \<le> length (of_bytes f)"
    using guard_positions_bound [of _ offset ?r key] assms(1) by fastforce
  from guard_samples_match [OF this, of "[]" h] obtain ss
    where "guard_samples h f (unat ?r) (guard_positions offset ?r key) [] = Inr ss"
      "\<forall>s \<in> set ss. sample_matches h f s" by auto
  moreover have "offset \<le> of_nat (length (of_bytes f))"
    using assms by (simp add: word_le_nat_alt unat_of_nat)
  moreover have "sample_matches h f (ss ! (k mod length ss))" if "i < length ss" for i k
  proof -
    have "k mod length ss < length ss" using that by (intro mod_less_divisor) linarith
    with calculation(2) show ?thesis by (meson nth_mem)
  qed
  ultimately show ?thesis
    using False by (simp add: at_offset_def Let_def guard_matches_def list_all_iff)
qed (simp add: at_offset_def)

section \<open>One poll\<close>

lemma fold_jsonl_line:
  assumes "\<not> jc_discarding c" "list_all (\<lambda>l. length l \<le> max_record_bytes (jc_limits c)) ls"
  shows "\<exists>m. fold (jsonl_line p) ls (c, b) =
    (c\<lparr>jc_pending := jc_pending c @ List.map_filter p ls\<rparr>, b\<lparr>jb_malformed := m\<rparr>)"
  using assms
proof (induction ls arbitrary: c b)
  case Nil
  have "b\<lparr>jb_malformed := jb_malformed b\<rparr> = b" by simp
  then show ?case by (intro exI [of _ "jb_malformed b"]) (simp add: List.map_filter_def)
next
  case (Cons l ls)
  have len: "length l \<le> max_record_bytes (jc_limits c)"
    and all: "list_all (\<lambda>l. length l \<le> max_record_bytes (jc_limits c)) ls"
    using Cons.prems(2) by simp_all
  show ?case
  proof (cases "p l")
    case None
    from Cons.IH [OF Cons.prems(1) all, of "b\<lparr>jb_malformed := jb_malformed b + 1\<rparr>"] obtain m
      where "fold (jsonl_line p) ls (c, b\<lparr>jb_malformed := jb_malformed b + 1\<rparr>) =
        (c\<lparr>jc_pending := jc_pending c @ List.map_filter p ls\<rparr>, b\<lparr>jb_malformed := m\<rparr>)" by auto
    moreover have "jsonl_line p l (c, b) = (c, b\<lparr>jb_malformed := jb_malformed b + 1\<rparr>)"
      using None len Cons.prems(1) by (simp add: jsonl_line_def)
    ultimately show ?thesis using None by (auto simp: map_filter_simps)
  next
    case (Some v)
    from Cons.IH [of "c\<lparr>jc_pending := jc_pending c @ [v]\<rparr>" b] Cons.prems(1) all obtain m
      where "fold (jsonl_line p) ls (c\<lparr>jc_pending := jc_pending c @ [v]\<rparr>, b) =
        (c\<lparr>jc_pending := jc_pending c @ v # List.map_filter p ls\<rparr>, b\<lparr>jb_malformed := m\<rparr>)" by auto
    moreover have "jsonl_line p l (c, b) = (c\<lparr>jc_pending := jc_pending c @ [v]\<rparr>, b)"
      using Some len Cons.prems(1) by (simp add: jsonl_line_def)
    ultimately show ?thesis using Some by (auto simp: map_filter_simps)
  qed
qed

lemma cursor_take_lines:
  assumes "\<not> jc_discarding c" "jc_pending c = []" "jc_partial c = last (nl_split s)"
    and "lines_within (max_record_bytes (jc_limits c)) (s @ bytes)"
  shows "\<exists>b c'. cursor_take p bytes c = (c', b) \<and>
    jb_records b @ jc_pending c' = records_of p (last (nl_split s) @ bytes) \<and>
    c' = c\<lparr>jc_partial := last (nl_split (s @ bytes)), jc_pending := jc_pending c'\<rparr>"
proof -
  let ?u = "last (nl_split s) @ bytes"
  have w: "lines_within (max_record_bytes (jc_limits c)) ?u" by (rule lines_within_tail [OF assms(4)])
  then have short: "list_all (\<lambda>l. length l \<le> max_record_bytes (jc_limits c))
      (byte_lines (take (complete_end ?u) ?u))"
    unfolding byte_lines_complete lines_within_def by (auto simp: list_all_iff dest: in_set_butlastD)
  have tail: "length (last (nl_split ?u)) \<le> max_record_bytes (jc_limits c)"
    using w last_in_set [of "nl_split ?u"] by (simp add: lines_within_def list_all_iff)
  have last: "last (nl_split ?u) = last (nl_split (s @ bytes))"
    by (simp add: split_when_append [of _ s bytes])
  let ?c = "c\<lparr>jc_partial := last (nl_split ?u)\<rparr>"
  from fold_jsonl_line [of ?c "byte_lines (take (complete_end ?u) ?u)" p
      "jsonl_batch_default\<lparr>jb_bytes_read := length bytes\<rparr>"] assms(1,2) short
  obtain m where "fold (jsonl_line p) (byte_lines (take (complete_end ?u) ?u))
      (?c, jsonl_batch_default\<lparr>jb_bytes_read := length bytes\<rparr>) =
      (?c\<lparr>jc_pending := records_of p ?u\<rparr>, jsonl_batch_default\<lparr>jb_bytes_read := length bytes, jb_malformed := m\<rparr>)"
    unfolding records_of_def byte_lines_complete by auto
  then show ?thesis
    using tail assms(3) complete_end_split [of ?u]
    by (simp add: cursor_take_def Let_def pop_pending_def last jsonl_batch_default_def)
qed

text \<open>The state of a cursor that has followed a growing file and delivered the given records.\<close>

definition following :: "hasher \<Rightarrow> (string \<Rightarrow> json option) \<Rightarrow> opened_file \<Rightarrow> json list \<Rightarrow> jsonl_cursor \<Rightarrow> bool" where
  "following h p f delivered c \<longleftrightarrow>
     (let consumed = take (unat (jc_offset c)) (of_bytes f)
      in jc_identity c = Some (of_dev f, of_ino f) \<and> unat (jc_offset c) \<le> length (of_bytes f)
         \<and> \<not> jc_discarding c \<and> jc_partial c = last (nl_split consumed)
         \<and> delivered @ jc_pending c = records_of p consumed
         \<and> (\<forall>g. jc_generation_guard c = Some g \<longrightarrow> guard_matches h g f))"

lemma following_appended:
  assumes "following h p f d c" "appended f f'" "length (of_bytes f') < 2 ^ 64"
  shows "following h p f' d c"
proof -
  have "take (unat (jc_offset c)) (of_bytes f') = take (unat (jc_offset c)) (of_bytes f)"
    using assms(1,2) by (auto simp: following_def appended_def prefix_def Let_def)
  moreover have "length (of_bytes f) \<le> length (of_bytes f')"
    using assms(2) by (simp add: appended_def prefix_length_le)
  ultimately show ?thesis
    using assms guard_matches_appended [OF assms(2) _ assms(3)]
    unfolding following_def Let_def by (auto simp: appended_def)
qed

lemma following_not_stale:
  assumes "following h p f d c" "length (of_bytes f) < 2 ^ 64"
  shows "\<not> cursor_stale h f c"
  using assms by (auto simp: following_def cursor_stale_def Let_def word_less_nat_alt unat_of_nat split: option.split)

definition poll_progress :: "opened_file \<Rightarrow> jsonl_cursor \<Rightarrow> jsonl_cursor \<Rightarrow> bool" where
  "poll_progress f c c' \<longleftrightarrow>
     (if jc_pending c \<noteq> []
      then jc_offset c' = jc_offset c \<and> jc_pending c' = drop (max_records (jc_limits c)) (jc_pending c)
      else unat (jc_offset c') = min (length (of_bytes f)) (unat (jc_offset c) + max_read_bytes (jc_limits c)))"

lemma poll_following:
  assumes fol: "following h p f d c" and size: "length (of_bytes f) < 2 ^ 64"
    and within: "lines_within (max_record_bytes (jc_limits c)) (of_bytes f)"
  shows "\<exists>c' b. read_new h p (Inr f) c = (c', Inr b) \<and> following h p f (d @ jb_records b) c' \<and>
    jc_limits c' = jc_limits c \<and> poll_progress f c c'"
proof (cases "jc_pending c = []")
  case False
  with fol following_not_stale [OF fol size] show ?thesis
    by (simp add: read_new_def pop_pending_def jsonl_batch_default_def Let_def following_def poll_progress_def)
next
  case True
  let ?o = "unat (jc_offset c)"
  let ?s = "take ?o (of_bytes f)"
  let ?bytes = "take (max_read_bytes (jc_limits c)) (drop ?o (of_bytes f))"
  let ?off = "sat_add (jc_offset c) (of_nat (length ?bytes))"
  have le: "?o \<le> length (of_bytes f)" using fol by (simp add: following_def Let_def)
  have off: "unat ?off = min (length (of_bytes f)) (?o + max_read_bytes (jc_limits c))"
    using size le by (simp add: unat_sat_add unat_of_nat)
  then have sb: "take (unat ?off) (of_bytes f) = ?s @ ?bytes"
    by (simp add: take_add min_def)
  obtain g where g: "at_offset h f ?off (jc_guard_key c) (rolling_digest h (jc_rolling_chunk_accumulator c) ?bytes) = Inr g"
    "\<forall>x. g = Some x \<longrightarrow> guard_matches h x f"
    using at_offset_ok [of ?off f h] off size by fastforce
  let ?c = "c\<lparr>jc_offset := ?off, jc_rolling_chunk_accumulator := rolling_digest h (jc_rolling_chunk_accumulator c) ?bytes,
    jc_generation_guard := g\<rparr>"
  have "lines_within (max_record_bytes (jc_limits ?c)) (?s @ ?bytes)"
    using lines_within_prefix [OF take_is_prefix within, of "unat ?off"] unfolding sb by simp
  from cursor_take_lines [OF _ _ _ this, of p] fol True obtain b c'
    where ct: "cursor_take p ?bytes ?c = (c', b)"
      "jb_records b @ jc_pending c' = records_of p (last (nl_split ?s) @ ?bytes)"
      "c' = ?c\<lparr>jc_partial := last (nl_split (?s @ ?bytes)), jc_pending := jc_pending c'\<rparr>"
    by (auto simp: following_def Let_def)
  have read: "read_new h p (Inr f) c = (c', Inr b)"
    using following_not_stale [OF fol size] True g(1) ct(1) by (simp add: read_new_def Let_def)
  have fields: "jc_offset c' = ?off" "jc_identity c' = jc_identity c" "jc_discarding c' = jc_discarding c"
    "jc_partial c' = last (nl_split (?s @ ?bytes))" "jc_generation_guard c' = g" "jc_limits c' = jc_limits c"
    by (subst ct(3), simp)+
  have "d @ jb_records b @ jc_pending c' = records_of p (?s @ ?bytes)"
    using fol True ct(2) by (simp add: following_def Let_def records_of_append [of p ?s])
  then have "following h p f (d @ jb_records b) c'"
    using fol g(2) off sb fields by (simp add: following_def Let_def)
  with read fields off True show ?thesis by (simp add: poll_progress_def)
qed

section \<open>Following a growing file\<close>

text \<open>A run of polls, each of which opens the file again or fails to; what they deliver together.\<close>

fun polls ::
  "hasher \<Rightarrow> (string \<Rightarrow> json option) \<Rightarrow> (string, opened_file) result list \<Rightarrow> jsonl_cursor
     \<Rightarrow> jsonl_cursor \<times> json list" where
  "polls h p [] c = (c, [])"
| "polls h p (x # xs) c =
     (let (c1, r) = read_new h p x c; (c2, rs) = polls h p xs c1
      in (c2, (case r of Inl _ \<Rightarrow> [] | Inr b \<Rightarrow> jb_records b) @ rs))"

fun growing :: "opened_file \<Rightarrow> (string, opened_file) result list \<Rightarrow> bool" where
  "growing f [] = True"
| "growing f (Inl e # xs) = growing f xs"
| "growing f (Inr g # xs) = (appended f g \<and> growing g xs)"

fun last_seen :: "opened_file \<Rightarrow> (string, opened_file) result list \<Rightarrow> opened_file" where
  "last_seen f [] = f"
| "last_seen f (Inl e # xs) = last_seen f xs"
| "last_seen f (Inr g # xs) = last_seen g xs"

lemma appended_trans: "appended f g \<Longrightarrow> appended g k \<Longrightarrow> appended f k"
  by (auto simp: appended_def intro: prefix_order.trans)

lemma growing_appended: "growing f xs \<Longrightarrow> appended f (last_seen f xs)"
  by (induction f xs rule: growing.induct) (auto intro: appended_trans)

lemma appended_within:
  assumes "appended f g" "length (of_bytes g) < 2 ^ 64 \<and> lines_within n (of_bytes g)"
  shows "length (of_bytes f) < 2 ^ 64 \<and> lines_within n (of_bytes f)"
  using assms lines_within_prefix prefix_length_le unfolding appended_def by (metis order.strict_trans1)

lemma polls_append:
  "snd (polls h p (xs @ ys) c) = snd (polls h p xs c) @ snd (polls h p ys (fst (polls h p xs c)))"
  by (induction xs arbitrary: c) (simp_all add: Let_def split_beta)

lemma read_failure [simp]: "read_new h p (Inl e) c = (c, Inl e)"
  by (simp add: read_new_def)

lemma polls_following:
  assumes "following h p f d c" "growing f xs"
    and "length (of_bytes (last_seen f xs)) < 2 ^ 64 \<and>
      lines_within (max_record_bytes (jc_limits c)) (of_bytes (last_seen f xs))"
  shows "following h p (last_seen f xs) (d @ snd (polls h p xs c)) (fst (polls h p xs c)) \<and>
    jc_limits (fst (polls h p xs c)) = jc_limits c"
  using assms
proof (induction f xs arbitrary: d c rule: growing.induct)
  case (3 f g xs)
  have g: "length (of_bytes g) < 2 ^ 64 \<and> lines_within (max_record_bytes (jc_limits c)) (of_bytes g)"
    by (rule appended_within [OF growing_appended [of g xs]]) (use 3(3,4) in simp_all)
  have "following h p g d c" using following_appended 3(2,3) g by auto
  from poll_following [OF this] g obtain c' b where step: "read_new h p (Inr g) c = (c', Inr b)"
    "following h p g (d @ jb_records b) c'" "jc_limits c' = jc_limits c" by blast
  with 3(1) [OF step(2)] 3(3,4) show ?case by (simp add: split_beta Let_def)
qed (simp_all add: split_beta Let_def)

lemma following_fresh:
  "following h p f [] (cursor_new path limits key\<lparr>jc_identity := Some (of_dev f, of_ino f)\<rparr>)"
  by (simp add: following_def cursor_new_def records_of_def List.map_filter_def)

lemma read_new_fresh:
  "read_new h p (Inr f) (cursor_new path limits key) =
   read_new h p (Inr f) (cursor_new path limits key\<lparr>jc_identity := Some (of_dev f, of_ino f)\<rparr>)"
proof -
  let ?c = "cursor_new path limits key\<lparr>jc_identity := Some (of_dev f, of_ino f)\<rparr>"
  have "cursor_stale h f (cursor_new path limits key)" by (simp add: cursor_stale_def cursor_new_def)
  moreover have "cursor_rewind (of_dev f, of_ino f) (cursor_new path limits key) = ?c"
    by (simp add: cursor_rewind_def cursor_new_def)
  moreover have "\<not> cursor_stale h f ?c" by (simp add: cursor_stale_def cursor_new_def)
  ultimately show ?thesis by (simp add: read_new_def)
qed

lemma polls_fresh:
  "growing f xs \<Longrightarrow> snd (polls h p xs (cursor_new path limits key)) =
   snd (polls h p xs (cursor_new path limits key\<lparr>jc_identity := Some (of_dev f, of_ino f)\<rparr>))"
  by (induction f xs rule: growing.induct)
    (auto simp: split_beta Let_def read_new_fresh appended_def)

lemma polls_from_fresh:
  fixes limits :: read_limits and path :: string and key :: u64
  defines "c \<equiv> \<lambda>f. cursor_new path limits key\<lparr>jc_identity := Some (of_dev f, of_ino f)\<rparr>"
  assumes "growing f xs"
    and "length (of_bytes (last_seen f xs)) < 2 ^ 64 \<and>
      lines_within (max_record_bytes limits) (of_bytes (last_seen f xs))"
  shows "following h p (last_seen f xs) (snd (polls h p xs (c f))) (fst (polls h p xs (c f)))"
proof -
  have "jc_limits (c f) = limits" by (simp add: c_def cursor_new_def)
  then show ?thesis
    using polls_following [of h p f "[]" "c f" xs] following_fresh assms unfolding c_def by simp
qed

lemma following_prefix: "following h p f d c \<Longrightarrow> prefix d (records_of p (of_bytes f))"
proof -
  assume "following h p f d c"
  then have "d @ jc_pending c = records_of p (take (unat (jc_offset c)) (of_bytes f))"
    by (simp add: following_def Let_def)
  then have "prefix d (records_of p (take (unat (jc_offset c)) (of_bytes f)))" by (metis prefixI)
  also have "prefix \<dots> (records_of p (of_bytes f))" by (rule records_of_prefix) (rule take_is_prefix)
  finally show ?thesis .
qed

text \<open>Polling a file that only grows, with any limits and with any polls that fail to open it,
  delivers an initial part of the records of its complete lines, in order and without repetition, as long as
  no line is longer than the record limit: no record is lost, torn or delivered twice at the boundary of a
  read, and the guard never takes an append for a rewrite.\<close>

theorem polls_deliver_in_order:
  assumes "growing f snapshots"
    and "length (of_bytes (last_seen f snapshots)) < 2 ^ 64"
    and "lines_within (max_record_bytes limits) (of_bytes (last_seen f snapshots))"
  shows "prefix (snd (polls h p snapshots (cursor_new path limits key)))
    (records_of p (of_bytes (last_seen f snapshots)))"
  using polls_from_fresh [OF assms(1)] assms(2,3) following_prefix polls_fresh [OF assms(1)] by metis

lemma polls_drain:
  assumes "following h p f d c" "length (of_bytes f) < 2 ^ 64"
    and "lines_within (max_record_bytes (jc_limits c)) (of_bytes f)"
    and "0 < max_read_bytes (jc_limits c)" "0 < max_records (jc_limits c)"
  shows "\<exists>n. d @ snd (polls h p (replicate n (Inr f)) c) = records_of p (of_bytes f)"
  using assms
proof (induction c arbitrary: d
    rule: wf_induct [OF wf_measures [of "[\<lambda>c. length (of_bytes f) - unat (jc_offset c), \<lambda>c. length (jc_pending c)]"]])
  case (1 c)
  show ?case
  proof (cases "jc_pending c = [] \<and> unat (jc_offset c) = length (of_bytes f)")
    case True
    with 1(2) show ?thesis by (intro exI [of _ 0]) (simp add: following_def Let_def)
  next
    case False
    obtain c' b where step: "read_new h p (Inr f) c = (c', Inr b)" "following h p f (d @ jb_records b) c'"
      "jc_limits c' = jc_limits c" "poll_progress f c c'" using poll_following [OF 1(2,3,4)] by blast
    have "unat (jc_offset c) \<le> length (of_bytes f)" using 1(2) by (simp add: following_def Let_def)
    then have "(c', c) \<in> measures [\<lambda>c. length (of_bytes f) - unat (jc_offset c), \<lambda>c. length (jc_pending c)]"
      using step(4) False 1(5,6) by (auto simp: poll_progress_def split: if_splits)
    from 1(1) [rule_format, OF this step(2)] 1(3-6) step(3) obtain n
      where "(d @ jb_records b) @ snd (polls h p (replicate n (Inr f)) c') = records_of p (of_bytes f)" by auto
    with step(1) show ?thesis by (intro exI [of _ "Suc n"]) (simp add: split_beta Let_def)
  qed
qed

lemma growing_replicate [simp]: "growing f (replicate n (Inr f))" "last_seen f (replicate n (Inr f)) = f"
  by (induction n) simp_all

text \<open>C37: Every record of a file without oversized lines arrives. For a file of less than \<open>2 ^ 64\<close> bytes in which no line
  is longer than \<open>max_record_bytes\<close>, and for a cursor whose limits on the bytes and the records of a read are
  positive, polling the unchanged file often enough delivers exactly the records of its complete lines, in order,
  and further polls deliver nothing more. The condition on the lines is needed: the record after an
  oversized line can be lost.\<close>

theorem polls_deliver_everything:
  assumes "length (of_bytes f) < 2 ^ 64" "lines_within (max_record_bytes limits) (of_bytes f)"
    and "0 < max_read_bytes limits" "0 < max_records limits"
  shows "\<exists>n. \<forall>m \<ge> n. snd (polls h p (replicate m (Inr f)) (cursor_new path limits key)) =
    records_of p (of_bytes f)"
proof -
  let ?c = "cursor_new path limits key\<lparr>jc_identity := Some (of_dev f, of_ino f)\<rparr>"
  have lim: "jc_limits ?c = limits" by (simp add: cursor_new_def)
  from polls_drain [OF following_fresh assms(1), of path limits key] assms(2-4) lim obtain n
    where n: "snd (polls h p (replicate n (Inr f)) ?c) = records_of p (of_bytes f)" by auto
  have "snd (polls h p (replicate m (Inr f)) ?c) = records_of p (of_bytes f)" if "n \<le> m" for m
  proof -
    have m: "replicate m (Inr f) = replicate n (Inr f :: (string, opened_file) result) @ replicate (m - n) (Inr f)"
      using that by (simp flip: replicate_add)
    have "prefix (snd (polls h p (replicate m (Inr f)) ?c)) (records_of p (of_bytes f))"
      using polls_from_fresh [of f "replicate m (Inr f)" limits h p path key] assms(1,2)
        following_prefix by fastforce
    moreover have "prefix (records_of p (of_bytes f)) (snd (polls h p (replicate m (Inr f)) ?c))"
      unfolding m polls_append n by simp
    ultimately show ?thesis by (rule prefix_order.antisym)
  qed
  moreover have "snd (polls h p (replicate m (Inr f)) (cursor_new path limits key)) =
      snd (polls h p (replicate m (Inr f)) ?c)" for m by (rule polls_fresh) simp
  ultimately show ?thesis by metis
qed

definition example_file :: "string \<Rightarrow> opened_file" where
  "example_file bytes = \<lparr>of_dev = 1, of_ino = 2, of_mode = 3, of_bytes = bytes\<rparr>"

definition example_parser :: "string \<Rightarrow> json option" where
  "example_parser line = (if line = ''null'' then Some JNull else None)"

theorem polls_deliver_in_order_witness:
  "prefix (snd (polls (\<lambda>_. 0) example_parser
      [Inr (example_file ''nu''), Inl ''busy'', Inr (example_file (''null'' @ [NL] @ ''x''))]
      (cursor_new [] \<lparr>max_read_bytes = 3, max_record_bytes = 4, max_records = 1\<rparr> 7)))
    (records_of example_parser (''null'' @ [NL] @ ''x''))"
  using polls_deliver_in_order [of "example_file ''nu''"
      "[Inr (example_file ''nu''), Inl ''busy'', Inr (example_file (''null'' @ [NL] @ ''x''))]"
      "\<lparr>max_read_bytes = 3, max_record_bytes = 4, max_records = 1\<rparr>" "\<lambda>_. 0" example_parser "[]" 7]
  by (simp add: example_file_def appended_def lines_within_def)

theorem polls_deliver_everything_witness:
  "\<exists>n. \<forall>m \<ge> n. snd (polls (\<lambda>_. 0) example_parser (replicate m (Inr (example_file (''null'' @ [NL]))))
      (cursor_new [] \<lparr>max_read_bytes = 3, max_record_bytes = 4, max_records = 1\<rparr> 7)) = [JNull]"
  using polls_deliver_everything [of "example_file (''null'' @ [NL])"
      "\<lparr>max_read_bytes = 3, max_record_bytes = 4, max_records = 1\<rparr>" "\<lambda>_. 0" example_parser "[]" 7]
  by (simp add: example_file_def lines_within_def records_of_def List.map_filter_def example_parser_def)

section \<open>After an oversized record\<close>

text \<open>A record that exceeds the limit while its newline is still unread takes the next record with it: the
  reader remembers that it is inside a record to be discarded, but the empty line that ends that record is
  skipped, so the first complete record after it, however short, is counted as oversized and not delivered.\<close>

theorem oversized_record_takes_next:
  assumes "jc_discarding c" "jc_partial c = []" "jc_pending c = []"
    and "NL \<notin> set r" "r \<noteq> []" "length r \<le> max_record_bytes (jc_limits c)" "p r = Some v"
  shows "jb_records (snd (cursor_take p (NL # r @ [NL]) c)) = [] \<and>
    jb_oversized (snd (cursor_take p (NL # r @ [NL]) c)) = 1 \<and>
    jc_pending (fst (cursor_take p (NL # r @ [NL]) c)) = []"
proof -
  have "complete_end (NL # r @ [NL]) = length (NL # r @ [NL])" by (simp add: complete_end_def)
  moreover have "nl_split (r @ [NL]) = [r, []]"
    using assms(4) split_when_whole [of r "\<lambda>b. b = NL"] by (auto simp: split_when_snoc)
  ultimately show ?thesis
    using assms by (simp add: cursor_take_def byte_lines_def jsonl_line_def pop_pending_def Let_def jsonl_batch_default_def)
qed

theorem oversized_record_takes_next_witness:
  "jb_records (snd (cursor_take example_parser (NL # ''null'' @ [NL])
     (cursor_new [] \<lparr>max_read_bytes = 6, max_record_bytes = 4, max_records = 1\<rparr> 7\<lparr>jc_discarding := True\<rparr>))) = []"
  using oversized_record_takes_next [of
      "cursor_new [] \<lparr>max_read_bytes = 6, max_record_bytes = 4, max_records = 1\<rparr> 7\<lparr>jc_discarding := True\<rparr>"
      "''null''" example_parser JNull]
  by (simp add: cursor_new_def example_parser_def)

end
