(* ===== verification/Process.thy ===== *)
theory Process
  imports Text Model_Identity
begin

text \<open>
  Process discovery and lifecycle (\<open>src/src/process/mod.rs\<close>, \<open>src/src/process/scoring.rs\<close>): which process
  of a pane is the agent, from the ancestry of the invoking process or from the processes on the
  terminal, scored against what is known of the pane; and the monitor that decides whether a watched
  process is alive, replaced or gone. A \<open>ProcessInspector\<close> is a record of its two operations, as they
  answer during one call; SHA-256 in hexadecimal is a parameter. Scores are small, so an \<open>i32\<close> is an
  integer here.
\<close>

section \<open>Data\<close>

datatype agent_kind = Claude | Codex | Manifest

record process_record =
  pr_pid :: u32
  pr_parent_pid :: u32
  pr_start_time :: u64
  pr_executable :: "string option"
  pr_argv_digest :: "string option"
  pr_uid :: "u32 option"
  pr_process_group_id :: "u32 option"
  pr_session_leader_id :: "u32 option"
  pr_tty :: "string option"

definition synthetic :: "u32 \<Rightarrow> u32 \<Rightarrow> u64 \<Rightarrow> string \<Rightarrow> process_record" where
  "synthetic pid parent start exe =
     \<lparr>pr_pid = pid, pr_parent_pid = parent, pr_start_time = start, pr_executable = Some exe,
      pr_argv_digest = None, pr_uid = None, pr_process_group_id = None, pr_session_leader_id = None,
      pr_tty = None\<rparr>"

definition with_argv :: "(string \<Rightarrow> string) \<Rightarrow> string list \<Rightarrow> process_record \<Rightarrow> process_record" where
  "with_argv sha argv r =
     r\<lparr>pr_argv_digest := Some (sha (concat (map (\<lambda>arg. le_bytes 8 (length arg) @ arg) argv)))\<rparr>"

definition record_identity :: "process_record \<Rightarrow> process_identity" where
  "record_identity r =
     (process_identity_new (pr_pid r) (pr_start_time r))
       \<lparr>pi_executable := pr_executable r, pi_argv_digest := pr_argv_digest r, pi_uid := pr_uid r,
        pi_process_group_id := pr_process_group_id r, pi_session_leader_id := pr_session_leader_id r,
        pi_tty := pr_tty r\<rparr>"

datatype process_error =
    Disappeared u32
  | Malformed u32 string
  | Inspection string
  | IncompleteEnumeration string
  | Ambiguous "u32 list"
  | NoConfidentCandidate nat

record inspector =
  inspect :: "u32 \<Rightarrow> (process_error, process_record) result"
  processes_on_tty :: "string \<Rightarrow> (process_error, process_record list) result"

record candidate_hints =
  ch_tty :: "string option"
  ch_process_group_id :: "u32 option"
  ch_session_leader_id :: "u32 option"
  ch_uid :: "u32 option"
  ch_executable_hint :: "string option"

definition candidate_hints_default :: candidate_hints where
  "candidate_hints_default =
     \<lparr>ch_tty = None, ch_process_group_id = None, ch_session_leader_id = None, ch_uid = None,
      ch_executable_hint = None\<rparr>"

record resolved_process =
  rp_identity :: process_identity
  rp_agent :: agent_kind
  rp_score :: int
  rp_reasons :: "string list"

section \<open>Scoring\<close>

definition MINIMUM_CONFIDENCE :: int where
  "MINIMUM_CONFIDENCE = 10"

definition identify_agent :: "string \<Rightarrow> agent_kind option" where
  "identify_agent executable =
     (let name = to_ascii_lowercase (after_last (CHR ''/'') executable) in
      if name \<in> {''claude'', ''claude-code''} \<or> starts_with name ''claude-'' then Some Claude
      else if name \<in> {''codex'', ''codex-cli''} \<or> starts_with name ''codex-'' then Some Codex
      else None)"

text \<open>The running totals of \<open>score\<close>: points, correlations and reasons.\<close>

type_synonym tally = "int \<times> nat \<times> string list"

definition correlate :: "string \<Rightarrow> 'a option \<Rightarrow> 'a option \<Rightarrow> int \<Rightarrow> tally \<Rightarrow> tally option" where
  "correlate label actual expected points = (\<lambda>(total, correlations, reasons).
     case (actual, expected) of
       (Some a, Some e) \<Rightarrow>
         (if a \<noteq> e then None
          else Some (total + points, correlations + 1,
            reasons @ [label @ '' matches pane (+'' @ decimal (nat points) @ '')'']))
     | _ \<Rightarrow> Some (total, correlations, reasons))"

definition correlate_executable :: "process_record \<Rightarrow> candidate_hints \<Rightarrow> tally \<Rightarrow> tally option" where
  "correlate_executable process hints = (\<lambda>(total, correlations, reasons).
     case (pr_executable process, ch_executable_hint hints) of
       (Some executable, Some hint) \<Rightarrow>
         (if after_last (CHR ''/'') executable \<noteq> hint then None
          else Some (total + 2, correlations + 1, reasons @ [''pane executable hint (+2)'']))
     | _ \<Rightarrow> Some (total, correlations, reasons))"

definition distance_points :: "nat option \<Rightarrow> tally \<Rightarrow> tally" where
  "distance_points distance = (\<lambda>(total, correlations, reasons).
     case distance of None \<Rightarrow> (total, correlations, reasons)
     | Some d \<Rightarrow>
         let points = 6 - int (min d 4) in
         (total + points, correlations,
          reasons @ [''agent ancestor distance '' @ decimal d @ '' (+'' @ decimal (nat points) @ '')'']))"

definition score :: "process_record \<Rightarrow> candidate_hints \<Rightarrow> nat option \<Rightarrow> (int \<times> string list) option" where
  "score process hints distance =
     Option.bind (correlate ''tty'' (pr_tty process) (ch_tty hints) 4
         (distance_points distance (8, 0, [''known agent executable (+8)'']))) (\<lambda>t1.
     Option.bind (correlate ''process group'' (pr_process_group_id process) (ch_process_group_id hints) 2 t1) (\<lambda>t2.
     Option.bind (correlate ''session'' (pr_session_leader_id process) (ch_session_leader_id hints) 2 t2) (\<lambda>t3.
     Option.bind (correlate ''uid'' (pr_uid process) (ch_uid hints) 2 t3) (\<lambda>t4.
     Option.bind (correlate_executable process hints t4) (\<lambda>(total, correlations, reasons).
     if 0 < correlations then Some (total, reasons) else None)))))"

section \<open>Resolution\<close>

definition MAX_ANCESTORS :: nat where
  "MAX_ANCESTORS = 64"

fun ancestry_loop :: "nat \<Rightarrow> inspector \<Rightarrow> u32 \<Rightarrow> process_record list \<Rightarrow> process_record list" where
  "ancestry_loop 0 insp pid result = result"
| "ancestry_loop (Suc n) insp pid result =
     (case inspect insp pid of Inl _ \<Rightarrow> result
      | Inr process \<Rightarrow>
          let parent = pr_parent_pid process; result' = result @ [process] in
          if parent \<le> 1 \<or> (\<exists>seen \<in> set result'. pr_pid seen = parent) then result'
          else ancestry_loop n insp parent result')"

definition ancestry :: "inspector \<Rightarrow> u32 \<Rightarrow> process_record list" where
  "ancestry insp child_pid = ancestry_loop MAX_ANCESTORS insp child_pid []"

type_synonym process_resolver = "string list"

definition agent_for :: "process_resolver \<Rightarrow> process_record \<Rightarrow> agent_kind option" where
  "agent_for manifest_names process =
     (case pr_executable process of None \<Rightarrow> None
      | Some executable \<Rightarrow>
          (case identify_agent executable of Some agent \<Rightarrow> Some agent
           | None \<Rightarrow>
               if after_last (CHR ''/'') executable \<in> set manifest_names then Some Manifest else None))"

definition candidate ::
  "process_record \<Rightarrow> agent_kind \<Rightarrow> candidate_hints \<Rightarrow> nat option \<Rightarrow> resolved_process option" where
  "candidate process agent hints distance =
     map_option (\<lambda>(s, reasons).
       \<lparr>rp_identity = record_identity process, rp_agent = agent, rp_score = s, rp_reasons = reasons\<rparr>)
       (score process hints distance)"

definition candidate_for ::
  "process_resolver \<Rightarrow> candidate_hints \<Rightarrow> nat option \<Rightarrow> process_record \<Rightarrow> resolved_process option" where
  "candidate_for names hints distance process =
     Option.bind (agent_for names process) (\<lambda>agent. candidate process agent hints distance)"

text \<open>The sort is stable and by decreasing score.\<close>

definition select_candidate :: "resolved_process list \<Rightarrow> (process_error, resolved_process) result" where
  "select_candidate candidates =
     (case sort_key (\<lambda>c. - rp_score c) candidates of
        [] \<Rightarrow> Inl (NoConfidentCandidate 0)
      | best # others \<Rightarrow>
          if rp_score best < MINIMUM_CONFIDENCE then Inl (NoConfidentCandidate (length (best # others)))
          else if (case others of [] \<Rightarrow> False | next # _ \<Rightarrow> rp_score next = rp_score best)
          then Inl (Ambiguous (map (\<lambda>c. pi_pid (rp_identity c))
            (takeWhile (\<lambda>c. rp_score c = rp_score best) (best # others))))
          else Inr best)"

definition ancestry_candidates ::
  "process_resolver \<Rightarrow> candidate_hints \<Rightarrow> process_record list \<Rightarrow> resolved_process list" where
  "ancestry_candidates names hints ancestors =
     List.map_filter (\<lambda>(distance, process). candidate_for names hints (Some distance) process)
       (drop 1 (enumerate 0 ancestors))"

definition tty_candidates ::
  "process_resolver \<Rightarrow> inspector \<Rightarrow> candidate_hints \<Rightarrow> (process_error, resolved_process list) result" where
  "tty_candidates names insp hints =
     (case ch_tty hints of None \<Rightarrow> Inr []
      | Some tty \<Rightarrow> rbind (processes_on_tty insp tty) (\<lambda>processes.
          Inr (List.map_filter (candidate_for names hints None) processes)))"

definition ancestry_digest_input :: "process_record list \<Rightarrow> string" where
  "ancestry_digest_input ancestors =
     concat (map (\<lambda>p. le_bytes 4 (unat (pr_pid p)) @ le_bytes 8 (unat (pr_start_time p))) ancestors)"

definition resolve ::
  "(string \<Rightarrow> string) \<Rightarrow> process_resolver \<Rightarrow> inspector \<Rightarrow> u32 \<Rightarrow> candidate_hints
     \<Rightarrow> (process_error, resolved_process) result" where
  "resolve sha names insp child_pid hints =
     (let ancestors = ancestry insp child_pid;
          candidates = ancestry_candidates names hints ancestors
      in rbind (if candidates = [] then tty_candidates names insp hints else Inr candidates) (\<lambda>candidates.
         rbind (select_candidate candidates) (\<lambda>selected.
         Inr (if ancestors \<noteq> []
           then selected\<lparr>rp_identity := (rp_identity selected)
             \<lparr>pi_parent_digest := Some (sha (ancestry_digest_input ancestors))\<rparr>\<rparr>
           else selected))))"

section \<open>The lifecycle monitor\<close>

datatype lifecycle_decision = Alive | Grace | ReexecAccepted process_identity | Terminate

record lifecycle_monitor =
  lm_identity :: process_identity
  lm_grace_ms :: u64
  lm_missing_since :: "u64 option"

definition lifecycle_monitor_new :: "process_identity \<Rightarrow> lifecycle_monitor" where
  "lifecycle_monitor_new identity = \<lparr>lm_identity = identity, lm_grace_ms = 0, lm_missing_since = None\<rparr>"

definition with_reexec_grace :: "process_identity \<Rightarrow> u64 \<Rightarrow> lifecycle_monitor" where
  "with_reexec_grace identity grace =
     \<lparr>lm_identity = identity, lm_grace_ms = grace, lm_missing_since = None\<rparr>"

definition same_process :: "process_identity \<Rightarrow> process_record \<Rightarrow> bool" where
  "same_process identity process =
     (pi_pid identity = pr_pid process \<and> pi_start_time identity = pr_start_time process
      \<and> pi_executable identity = pr_executable process)"

definition continuity_matches :: "process_identity \<Rightarrow> process_record \<Rightarrow> bool" where
  "continuity_matches identity process =
     (let pairs = [(pi_process_group_id identity, pr_process_group_id process),
                   (pi_session_leader_id identity, pr_session_leader_id process)]
      in \<not> list_ex (\<lambda>(left, right). left \<noteq> None \<and> right \<noteq> None \<and> left \<noteq> right) pairs
         \<and> list_ex (\<lambda>(left, right). left \<noteq> None \<and> left = right) pairs)"

definition strong_reexec_match :: "process_identity \<Rightarrow> process_record \<Rightarrow> bool" where
  "strong_reexec_match identity process =
     (let original_agent = Option.bind (pi_executable identity) identify_agent;
          replacement_agent = Option.bind (pr_executable process) identify_agent
      in pi_tty identity \<noteq> None \<and> pi_tty identity = pr_tty process
         \<and> pi_uid identity \<noteq> None \<and> pi_uid identity = pr_uid process
         \<and> continuity_matches identity process
         \<and> original_agent \<noteq> None \<and> original_agent = replacement_agent)"

definition observe_missing ::
  "inspector \<Rightarrow> u64 \<Rightarrow> lifecycle_monitor \<Rightarrow> lifecycle_monitor \<times> lifecycle_decision" where
  "observe_missing insp now m =
     (let missing_since = (case lm_missing_since m of Some t \<Rightarrow> t | None \<Rightarrow> now);
          m1 = m\<lparr>lm_missing_since := Some missing_since\<rparr>
      in if lm_grace_ms m < sat_sub now missing_since then (m1, Terminate)
         else case pi_tty (lm_identity m) of None \<Rightarrow> (m1, Grace)
         | Some tty \<Rightarrow>
             (case processes_on_tty insp tty of Inl _ \<Rightarrow> (m1, Grace)
              | Inr processes \<Rightarrow>
                  (case filter (strong_reexec_match (lm_identity m)) processes of
                     [p] \<Rightarrow> (m1, ReexecAccepted (record_identity p))
                   | _ \<Rightarrow> (m1, Grace))))"

definition monitor_observe ::
  "inspector \<Rightarrow> u64 \<Rightarrow> lifecycle_monitor \<Rightarrow> lifecycle_monitor \<times> lifecycle_decision" where
  "monitor_observe insp now m =
     (case inspect insp (pi_pid (lm_identity m)) of
        Inr process \<Rightarrow> (m, if same_process (lm_identity m) process then Alive else Terminate)
      | Inl (Disappeared _) \<Rightarrow> if 0 < lm_grace_ms m then observe_missing insp now m else (m, Terminate)
      | Inl _ \<Rightarrow> (m, Terminate))"

definition commit_reexec :: "process_identity \<Rightarrow> lifecycle_monitor \<Rightarrow> lifecycle_monitor" where
  "commit_reexec identity m = m\<lparr>lm_identity := identity, lm_missing_since := None\<rparr>"

end
