(* ===== verification/Process_Properties.thy ===== *)
theory Process_Properties
  imports Process "HOL-Library.Multiset"
begin

text \<open>
  Discovery selects a process only when it is the single best one and contradicts nothing that is known of
  the pane; the ancestry walk is bounded and visits no process twice; a replacement of a watched process is
  accepted only when it is the one strong match; the grace for a missing process is bounded.
\<close>

section \<open>Scores\<close>

definition hint_agrees :: "'a option \<Rightarrow> 'a option \<Rightarrow> bool" where
  "hint_agrees actual expected = (actual = None \<or> expected = None \<or> actual = expected)"

definition both_known :: "'a option \<Rightarrow> 'a option \<Rightarrow> bool" where
  "both_known actual expected = (actual \<noteq> None \<and> actual = expected)"

abbreviation executable_name :: "process_record \<Rightarrow> string option" where
  "executable_name p \<equiv> map_option (after_last (CHR ''/'')) (pr_executable p)"

definition hints_agree :: "process_record \<Rightarrow> candidate_hints \<Rightarrow> bool" where
  "hints_agree p h =
     (hint_agrees (pr_tty p) (ch_tty h) \<and> hint_agrees (pr_process_group_id p) (ch_process_group_id h)
      \<and> hint_agrees (pr_session_leader_id p) (ch_session_leader_id h) \<and> hint_agrees (pr_uid p) (ch_uid h)
      \<and> hint_agrees (executable_name p) (ch_executable_hint h))"

definition some_hint_matches :: "process_record \<Rightarrow> candidate_hints \<Rightarrow> bool" where
  "some_hint_matches p h =
     (both_known (pr_tty p) (ch_tty h) \<or> both_known (pr_process_group_id p) (ch_process_group_id h)
      \<or> both_known (pr_session_leader_id p) (ch_session_leader_id h) \<or> both_known (pr_uid p) (ch_uid h)
      \<or> both_known (executable_name p) (ch_executable_hint h))"

text \<open>The points of one correlation, when it does not fail.\<close>

definition points_if :: "bool \<Rightarrow> int \<Rightarrow> int" where
  "points_if b n = (if b then n else 0)"

lemma correlate_Some:
  "correlate l a e n (t, k, rs) = Some (t', k', rs') \<Longrightarrow>
   hint_agrees a e \<and> t' = t + points_if (both_known a e) n \<and> k' = k + (if both_known a e then 1 else 0)"
  by (auto simp: correlate_def hint_agrees_def both_known_def points_if_def split: option.splits if_splits)

lemma correlate_executable_Some:
  "correlate_executable p h (t, k, rs) = Some (t', k', rs') \<Longrightarrow>
   hint_agrees (executable_name p) (ch_executable_hint h) \<and>
   t' = t + points_if (both_known (executable_name p) (ch_executable_hint h)) 2 \<and>
   k' = k + (if both_known (executable_name p) (ch_executable_hint h) then 1 else 0)"
  by (auto simp: correlate_executable_def hint_agrees_def both_known_def points_if_def split: option.splits if_splits)

lemma distance_points_Some:
  "\<exists>d rs'. distance_points x (t, k, rs) = (t + d, k, rs') \<and> 0 \<le> d \<and> d \<le> 6"
  by (cases x) (auto simp: distance_points_def Let_def)

lemma score_Some:
  assumes "score p h x = Some (t, rs)"
  shows "hints_agree p h \<and> some_hint_matches p h \<and> 10 \<le> t \<and> t \<le> 26"
proof -
  obtain d rs0 where d: "distance_points x (8, 0, [''known agent executable (+8)'']) = (8 + d, 0, rs0)"
    "0 \<le> d" "d \<le> 6" using distance_points_Some by metis
  from assms obtain t1 k1 r1 t2 k2 r2 t3 k3 r3 t4 k4 r4 k5 where
    s: "correlate ''tty'' (pr_tty p) (ch_tty h) 4 (8 + d, 0, rs0) = Some (t1, k1, r1)"
      "correlate ''process group'' (pr_process_group_id p) (ch_process_group_id h) 2 (t1, k1, r1) = Some (t2, k2, r2)"
      "correlate ''session'' (pr_session_leader_id p) (ch_session_leader_id h) 2 (t2, k2, r2) = Some (t3, k3, r3)"
      "correlate ''uid'' (pr_uid p) (ch_uid h) 2 (t3, k3, r3) = Some (t4, k4, r4)"
      "correlate_executable p h (t4, k4, r4) = Some (t, k5, rs)" "0 < k5"
    unfolding score_def d(1) by (auto simp: bind_eq_Some_conv split: if_splits prod.splits)
  note c = correlate_Some [OF s(1)] correlate_Some [OF s(2)] correlate_Some [OF s(3)] correlate_Some [OF s(4)]
    correlate_executable_Some [OF s(5)]
  have agree: "hints_agree p h" using c by (simp add: hints_agree_def)
  have match: "some_hint_matches p h" using c s(6) by (auto simp: some_hint_matches_def split: if_splits)
  have "t = 8 + d + points_if (both_known (pr_tty p) (ch_tty h)) 4
      + points_if (both_known (pr_process_group_id p) (ch_process_group_id h)) 2
      + points_if (both_known (pr_session_leader_id p) (ch_session_leader_id h)) 2
      + points_if (both_known (pr_uid p) (ch_uid h)) 2
      + points_if (both_known (executable_name p) (ch_executable_hint h)) 2" using c by simp
  moreover from this match d(2,3) have "10 \<le> t \<and> t \<le> 26"
    unfolding some_hint_matches_def points_if_def by (auto split: if_splits)
  ultimately show ?thesis using agree match by simp
qed

section \<open>Selection\<close>

lemma sorted_head:
  assumes "sort_key f cs = b # os"
  shows "b \<in> set cs" "\<forall>c \<in> set os. f b \<le> f c" "mset cs = add_mset b (mset os)"
proof -
  have "mset (sort_key f cs) = mset cs" by simp
  with assms show m: "mset cs = add_mset b (mset os)" by simp
  then show "b \<in> set cs" by (metis set_mset_mset union_single_eq_member)
  show "\<forall>c \<in> set os. f b \<le> f c" using sorted_sort_key [of f cs] assms by simp
qed

definition sole_best :: "resolved_process \<Rightarrow> resolved_process list \<Rightarrow> bool" where
  "sole_best s cs \<longleftrightarrow>
     (\<exists>xs ys. cs = xs @ s # ys \<and> (\<forall>c \<in> set xs \<union> set ys. rp_score c < rp_score s))"

lemma select_candidate_sound:
  assumes "select_candidate cs = Inr s"
  shows "sole_best s cs \<and> MINIMUM_CONFIDENCE \<le> rp_score s"
proof -
  obtain os where so: "sort_key (\<lambda>c. - rp_score c) cs = s # os" and low: "\<not> rp_score s < MINIMUM_CONFIDENCE"
    and nxt: "\<not> (case os of [] \<Rightarrow> False | n # _ \<Rightarrow> rp_score n = rp_score s)"
    using assms by (auto simp: select_candidate_def split: list.splits if_splits)
  have srt: "sorted (map (\<lambda>c. - rp_score c) (s # os))"
    using sorted_sort_key [of "\<lambda>c. - rp_score c" cs] so by simp
  have less: "\<forall>c \<in> set os. rp_score c < rp_score s"
  proof (cases os)
    case (Cons n ns)
    with nxt srt show ?thesis by (auto simp: order_less_le)
  qed simp
  obtain xs ys where cs: "cs = xs @ s # ys" using sorted_head(1) [OF so] by (meson split_list)
  then have "mset os = mset (xs @ ys)" using sorted_head(3) [OF so] by simp
  then have "set os = set xs \<union> set ys" by (metis set_append set_mset_mset)
  with less low cs show ?thesis by (auto simp: sole_best_def)
qed

lemma select_candidate_complete:
  assumes "sole_best s cs" "MINIMUM_CONFIDENCE \<le> rp_score s"
  shows "select_candidate cs = Inr s"
proof -
  obtain xs ys where cs: "cs = xs @ s # ys" and less: "\<forall>c \<in> set xs \<union> set ys. rp_score c < rp_score s"
    using assms(1) by (auto simp: sole_best_def)
  obtain b os where so: "sort_key (\<lambda>c. - rp_score c) cs = b # os"
    by (cases "sort_key (\<lambda>c. - rp_score c) cs") (use cs in \<open>auto dest: arg_cong [of _ _ length]\<close>)
  have "b = s"
  proof (rule ccontr)
    assume "b \<noteq> s"
    with sorted_head(1) [OF so] less have l: "rp_score b < rp_score s" by (auto simp: cs)
    have "s \<in> set (b # os)" using so cs by (metis in_set_conv_decomp set_sort)
    with \<open>b \<noteq> s\<close> sorted_head(2) [OF so] l show False by auto
  qed
  with sorted_head(3) [OF so] cs have "mset os = mset (xs @ ys)" by simp
  then have "set os = set xs \<union> set ys" by (metis set_append set_mset_mset)
  with less have "\<forall>c \<in> set os. rp_score c < rp_score s" by blast
  with so \<open>b = s\<close> assms(2) show ?thesis
    by (cases os) (auto simp: select_candidate_def)
qed

text \<open>A candidate is selected exactly when it reaches the minimum confidence and every other candidate
  scores strictly less, wherever it stands in the list.\<close>

theorem select_candidate_iff:
  "select_candidate cs = Inr s \<longleftrightarrow> sole_best s cs \<and> MINIMUM_CONFIDENCE \<le> rp_score s"
  using select_candidate_sound select_candidate_complete by blast

section \<open>Resolution\<close>

lemma map_filter_in: "y \<in> set (List.map_filter f xs) \<longleftrightarrow> (\<exists>x \<in> set xs. f x = Some y)"
  by (force simp: List.map_filter_def)

lemma candidate_for_Some:
  assumes "candidate_for names h d p = Some c"
  shows "agent_for names p = Some (rp_agent c) \<and> rp_identity c = record_identity p \<and> hints_agree p h
    \<and> some_hint_matches p h \<and> 10 \<le> rp_score c \<and> rp_score c \<le> 26"
  using assms score_Some by (auto simp: candidate_for_def candidate_def bind_eq_Some_conv)

definition resolution_candidates ::
  "process_resolver \<Rightarrow> inspector \<Rightarrow> u32 \<Rightarrow> candidate_hints \<Rightarrow> (process_error, resolved_process list) result" where
  "resolution_candidates names insp child h =
     (let cs = ancestry_candidates names h (ancestry insp child)
      in if cs = [] then tty_candidates names insp h else Inr cs)"

definition examined :: "inspector \<Rightarrow> u32 \<Rightarrow> candidate_hints \<Rightarrow> process_record \<Rightarrow> bool" where
  "examined insp child h p \<longleftrightarrow>
     p \<in> set (drop 1 (ancestry insp child)) \<or>
     (\<exists>tty ps. ch_tty h = Some tty \<and> processes_on_tty insp tty = Inr ps \<and> p \<in> set ps)"

lemma resolution_candidate_origin:
  assumes "resolution_candidates names insp child h = Inr cs" "c \<in> set cs"
  shows "\<exists>p d. examined insp child h p \<and> candidate_for names h d p = Some c"
proof (cases "ancestry_candidates names h (ancestry insp child) = []")
  case True
  with assms show ?thesis
    by (fastforce simp: resolution_candidates_def tty_candidates_def examined_def map_filter_in
        result_simps split: option.splits)
next
  case False
  with assms have "c \<in> set (ancestry_candidates names h (ancestry insp child))"
    by (simp add: resolution_candidates_def)
  then obtain d p where dp: "(d, p) \<in> set (drop 1 (enumerate 0 (ancestry insp child)))"
    "candidate_for names h (Some d) p = Some c"
    by (auto simp: ancestry_candidates_def map_filter_in)
  from dp(1) have "p \<in> set (map snd (drop 1 (enumerate 0 (ancestry insp child))))" by force
  then have "p \<in> set (drop 1 (ancestry insp child))" by (simp flip: drop_map)
  with dp(2) show ?thesis by (auto simp: examined_def)
qed

text \<open>A resolved process is a known agent among the examined processes, agrees with everything that
  is known of the pane and matches at least one fact of it, and is the only best candidate. Its identity is the
  one read from the system, with the digest of the ancestry added.\<close>

theorem resolved_process_is_unambiguous:
  assumes "resolve sha names insp child h = Inr r"
  shows "\<exists>cs c p d. resolution_candidates names insp child h = Inr cs \<and> sole_best c cs \<and>
    examined insp child h p \<and> candidate_for names h d p = Some c \<and>
    agent_for names p = Some (rp_agent r) \<and> hints_agree p h \<and> some_hint_matches p h \<and>
    (\<exists>parent. rp_identity r = (record_identity p)\<lparr>pi_parent_digest := parent\<rparr>)"
proof -
  from assms obtain cs c where cs: "resolution_candidates names insp child h = Inr cs"
    and sel: "select_candidate cs = Inr c"
    and r: "r = (if ancestry insp child \<noteq> [] then c\<lparr>rp_identity := (rp_identity c)
      \<lparr>pi_parent_digest := Some (sha (ancestry_digest_input (ancestry insp child)))\<rparr>\<rparr> else c)"
    by (auto simp: resolve_def resolution_candidates_def result_simps Let_def)
  have best: "sole_best c cs" using select_candidate_sound [OF sel] by simp
  then have "c \<in> set cs" by (auto simp: sole_best_def)
  from resolution_candidate_origin [OF cs this] obtain p d
    where p: "examined insp child h p" "candidate_for names h d p = Some c" by blast
  note f = candidate_for_Some [OF p(2)]
  have "rp_identity r = (record_identity p)\<lparr>pi_parent_digest := pi_parent_digest (rp_identity r)\<rparr>"
    using f r by (auto simp: record_identity_def process_identity_new_def)
  moreover have "rp_agent r = rp_agent c" using r by simp
  ultimately show ?thesis using cs best p f by metis
qed

definition example_inspector :: inspector where
  "example_inspector =
     \<lparr>inspect = (\<lambda>pid. if pid = 20 then Inr (synthetic 20 10 5 ''/bin/sh'')
        else if pid = 10 then Inr ((synthetic 10 1 4 ''/usr/bin/claude'')\<lparr>pr_uid := Some 7\<rparr>)
        else Inl (Disappeared pid)),
      processes_on_tty = (\<lambda>_. Inr [])\<rparr>"

theorem resolved_process_is_unambiguous_witness:
  "\<exists>p r. resolve (\<lambda>s. s) [] example_inspector 20 (candidate_hints_default\<lparr>ch_uid := Some 7\<rparr>) = Inr r \<and>
     agent_for [] p = Some (rp_agent r) \<and> hints_agree p (candidate_hints_default\<lparr>ch_uid := Some 7\<rparr>)"
proof -
  let ?h = "candidate_hints_default\<lparr>ch_uid := Some 7\<rparr>"
  have "length (ancestry_candidates [] ?h (ancestry example_inspector 20)) = 1 \<and>
      10 \<le> rp_score (hd (ancestry_candidates [] ?h (ancestry example_inspector 20)))" by code_simp
  then obtain c where "ancestry_candidates [] ?h (ancestry example_inspector 20) = [c]" "10 \<le> rp_score c"
    by (auto simp: length_Suc_conv)
  then have "is_ok (resolve (\<lambda>s. s) [] example_inspector 20 ?h)"
    by (simp add: resolve_def select_candidate_def MINIMUM_CONFIDENCE_def Let_def)
  then obtain r where "resolve (\<lambda>s. s) [] example_inspector 20 ?h = Inr r" by (auto simp: is_ok_iff)
  with resolved_process_is_unambiguous [OF this] show ?thesis by blast
qed

section \<open>The ancestry\<close>

fun parent_chain :: "u32 \<Rightarrow> process_record list \<Rightarrow> bool" where
  "parent_chain pid [] = True"
| "parent_chain pid (p # ps) = (pr_pid p = pid \<and> parent_chain (pr_parent_pid p) ps)"

lemma parent_chain_snoc:
  "parent_chain c (ps @ [p]) \<longleftrightarrow> parent_chain c ps \<and> pr_pid p = (if ps = [] then c else pr_parent_pid (last ps))"
  by (induction ps arbitrary: c) auto

lemma ancestry_loop_chain:
  assumes "\<forall>q r. inspect insp q = Inr r \<longrightarrow> pr_pid r = q"
    and "parent_chain c ps" "distinct (map pr_pid ps)" "pid \<notin> set (map pr_pid ps)"
    and "pid = (if ps = [] then c else pr_parent_pid (last ps))"
  shows "parent_chain c (ancestry_loop n insp pid ps) \<and> distinct (map pr_pid (ancestry_loop n insp pid ps)) \<and>
    length (ancestry_loop n insp pid ps) \<le> length ps + n"
  using assms(2-)
proof (induction n arbitrary: pid ps)
  case (Suc n)
  show ?case
  proof (cases "inspect insp pid")
    case (Inr p)
    then have pid: "pr_pid p = pid" using assms(1) by blast
    have chain: "parent_chain c (ps @ [p])" "distinct (map pr_pid (ps @ [p]))"
      using Suc.prems pid by (simp_all add: parent_chain_snoc)
    show ?thesis
    proof (cases "pr_parent_pid p \<le> 1 \<or> (\<exists>seen \<in> set (ps @ [p]). pr_pid seen = pr_parent_pid p)")
      case True
      with chain Inr show ?thesis by (simp add: Let_def)
    next
      case False
      then have "pr_parent_pid p \<notin> set (map pr_pid (ps @ [p]))" by force
      from Suc.IH [OF chain this] Inr False show ?thesis by (simp add: Let_def)
    qed
  qed (use Suc.prems in simp)
qed simp

text \<open>
  What a client of a \<open>ProcessInspector\<close> relies on: it answers for the process it was asked for, and lists
  processes of the terminal it was asked for.
\<close>

locale honest_inspector =
  fixes insp :: inspector
  assumes inspect_pid: "inspect insp q = Inr r \<Longrightarrow> pr_pid r = q"
    and on_tty: "processes_on_tty insp tty = Inr ps \<Longrightarrow> p \<in> set ps \<Longrightarrow> pr_tty p = Some tty"
begin

lemma ancestry_chain:
  "parent_chain child (ancestry insp child) \<and> distinct (map pr_pid (ancestry insp child)) \<and>
    length (ancestry insp child) \<le> 64"
  using ancestry_loop_chain [of insp child "[]" child MAX_ANCESTORS] inspect_pid
  by (simp add: ancestry_def MAX_ANCESTORS_def)

lemma observed_alive:
  assumes "monitor_observe insp now m = (m', Alive)"
  shows "\<exists>p. inspect insp (pi_pid (lm_identity m)) = Inr p \<and> pr_start_time p = pi_start_time (lm_identity m) \<and>
    pr_executable p = pi_executable (lm_identity m)"
  using assms by (auto simp: monitor_observe_def observe_missing_def same_process_def Let_def
      split: sum.splits process_error.splits if_splits option.splits list.splits)

lemma resolved_on_tty:
  assumes "ch_tty h = Some tty" "ancestry_candidates names h (ancestry insp child) = []"
    and "resolve sha names insp child h = Inr r"
  shows "pi_tty (rp_identity r) = Some tty"
proof -
  from assms obtain ps where ps: "processes_on_tty insp tty = Inr ps"
    and sel: "\<exists>c. select_candidate (List.map_filter (candidate_for names h None) ps) = Inr c \<and>
      pi_tty (rp_identity r) = pi_tty (rp_identity c)"
    by (auto simp: resolve_def tty_candidates_def result_simps Let_def)
  then obtain c where c: "select_candidate (List.map_filter (candidate_for names h None) ps) = Inr c"
    "pi_tty (rp_identity r) = pi_tty (rp_identity c)" by blast
  from select_candidate_sound [OF c(1)] have "c \<in> set (List.map_filter (candidate_for names h None) ps)"
    by (auto simp: sole_best_def)
  then obtain p where p: "p \<in> set ps" "candidate_for names h None p = Some c" by (auto simp: map_filter_in)
  from on_tty [OF ps p(1)] candidate_for_Some [OF p(2)] c(2) show ?thesis
    by (simp add: record_identity_def)
qed

end

section \<open>The lifecycle monitor\<close>

text \<open>A replacement is accepted only when the watched process has disappeared, the grace has not run
  out, and the replacement is the one process on the same terminal with the same owner, a matching group
  or session and the same kind of agent.\<close>

theorem reexec_needs_unique_match:
  assumes "monitor_observe insp now m = (m', ReexecAccepted identity)"
  shows "\<exists>q tty ps p since. inspect insp (pi_pid (lm_identity m)) = Inl (Disappeared q) \<and>
    lm_missing_since m' = Some since \<and> unat now - unat since \<le> unat (lm_grace_ms m) \<and>
    pi_tty (lm_identity m) = Some tty \<and> processes_on_tty insp tty = Inr ps \<and>
    filter (strong_reexec_match (lm_identity m)) ps = [p] \<and> identity = record_identity p \<and>
    pi_tty identity = Some tty \<and> pi_uid identity = pi_uid (lm_identity m) \<and>
    Option.bind (pi_executable identity) identify_agent = Option.bind (pi_executable (lm_identity m)) identify_agent"
proof -
  from assms obtain q where q: "inspect insp (pi_pid (lm_identity m)) = Inl (Disappeared q)"
    and om: "observe_missing insp now m = (m', ReexecAccepted identity)"
    by (auto simp: monitor_observe_def split: sum.splits process_error.splits if_splits)
  define since where "since = (case lm_missing_since m of Some t \<Rightarrow> t | None \<Rightarrow> now)"
  from om obtain tty ps p where o: "pi_tty (lm_identity m) = Some tty" "processes_on_tty insp tty = Inr ps"
      "filter (strong_reexec_match (lm_identity m)) ps = [p]" "identity = record_identity p"
      "lm_missing_since m' = Some since" "\<not> lm_grace_ms m < sat_sub now since"
    by (auto simp: observe_missing_def Let_def since_def [symmetric] split: if_splits option.splits sum.splits list.splits)
  have "strong_reexec_match (lm_identity m) p"
    using o(3) by (metis list.set_intros(1) mem_Collect_eq set_filter)
  then have "pi_tty (lm_identity m) = pr_tty p" "pi_uid (lm_identity m) = pr_uid p"
    "Option.bind (pi_executable (lm_identity m)) identify_agent = Option.bind (pr_executable p) identify_agent"
    by (simp_all add: strong_reexec_match_def Let_def)
  moreover have "unat now - unat since \<le> unat (lm_grace_ms m)"
    using o(6) by (simp add: word_less_nat_alt)
  ultimately have "pi_tty identity = Some tty \<and> pi_uid identity = pi_uid (lm_identity m) \<and>
    Option.bind (pi_executable identity) identify_agent = Option.bind (pi_executable (lm_identity m)) identify_agent"
    "unat now - unat since \<le> unat (lm_grace_ms m)"
    using o(1,4) by (simp_all add: record_identity_def)
  with q o(1-5) show ?thesis by metis
qed

definition example_agent :: process_record where
  "example_agent = (synthetic 30 1 9 ''/opt/claude'')
     \<lparr>pr_uid := Some 7, pr_tty := Some ''dev:136:1'', pr_process_group_id := Some 30\<rparr>"

definition reexec_inspector :: inspector where
  "reexec_inspector =
     \<lparr>inspect = (\<lambda>pid. Inl (Disappeared pid)),
      processes_on_tty = (\<lambda>_. Inr [example_agent\<lparr>pr_pid := 31\<rparr>])\<rparr>"

theorem reexec_needs_unique_match_witness:
  "\<exists>m' identity p.
     monitor_observe reexec_inspector 100 (with_reexec_grace (record_identity example_agent) 2000) =
       (m', ReexecAccepted identity) \<and> identity = record_identity p"
proof -
  let ?m = "with_reexec_grace (record_identity example_agent) 2000"
  have "snd (monitor_observe reexec_inspector 100 ?m) =
      ReexecAccepted (record_identity (example_agent\<lparr>pr_pid := 31\<rparr>))" by code_simp
  then obtain m' where
    "monitor_observe reexec_inspector 100 ?m = (m', ReexecAccepted (record_identity (example_agent\<lparr>pr_pid := 31\<rparr>)))"
    by (metis prod.collapse)
  from reexec_needs_unique_match [OF this] this show ?thesis by blast
qed

text \<open>A run of observations, at the times and with the inspectors given.\<close>

fun observe_run :: "(inspector \<times> u64) list \<Rightarrow> lifecycle_monitor \<Rightarrow> lifecycle_monitor" where
  "observe_run [] m = m"
| "observe_run ((insp, now) # xs) m = observe_run xs (fst (monitor_observe insp now m))"

lemma observe_frame:
  "lm_identity (fst (monitor_observe insp now m)) = lm_identity m \<and>
   lm_grace_ms (fst (monitor_observe insp now m)) = lm_grace_ms m \<and>
   (\<forall>t. lm_missing_since m = Some t \<longrightarrow> lm_missing_since (fst (monitor_observe insp now m)) = Some t)"
  by (simp add: monitor_observe_def observe_missing_def Let_def split: sum.split process_error.split option.split list.split)

lemma observe_run_frame:
  "lm_identity (observe_run xs m) = lm_identity m \<and> lm_grace_ms (observe_run xs m) = lm_grace_ms m \<and>
   (\<forall>t. lm_missing_since m = Some t \<longrightarrow> lm_missing_since (observe_run xs m) = Some t)"
  by (induction xs m rule: observe_run.induct) (simp_all add: observe_frame)

text \<open>The grace of a missing process is counted from the first time it was missing: whatever is observed
  afterwards, even that the process is alive again, the monitor gives up at the next observation that finds it
  missing once the grace has passed since then.\<close>

theorem grace_counts_from_first_absence:
  assumes "inspect first (pi_pid (lm_identity m)) = Inl (Disappeared q)"
    and "lm_missing_since m = None" "0 < lm_grace_ms m"
    and "inspect later (pi_pid (lm_identity m)) = Inl (Disappeared q')"
    and "unat start + unat (lm_grace_ms m) < unat now"
  shows "snd (monitor_observe later now (observe_run xs (fst (monitor_observe first start m)))) = Terminate"
proof -
  let ?m = "fst (monitor_observe first start m)"
  have "lm_missing_since ?m = Some start"
    using assms(1-3)
    by (simp add: monitor_observe_def observe_missing_def Let_def split: option.split list.split sum.split)
  then have s: "lm_missing_since (observe_run xs ?m) = Some start" "lm_grace_ms (observe_run xs ?m) = lm_grace_ms m"
    "lm_identity (observe_run xs ?m) = lm_identity m" by (simp_all add: observe_run_frame observe_frame)
  have "lm_grace_ms m < sat_sub now start" using assms(5) by (simp add: word_less_nat_alt)
  with s assms(3,4) show ?thesis by (simp add: monitor_observe_def observe_missing_def Let_def)
qed

theorem grace_counts_from_first_absence_witness:
  "snd (monitor_observe reexec_inspector 5000 (observe_run [(reexec_inspector\<lparr>inspect := \<lambda>_. Inr example_agent\<rparr>, 200)]
     (fst (monitor_observe reexec_inspector 100 (with_reexec_grace (record_identity example_agent) 2000))))) = Terminate"
  by (rule grace_counts_from_first_absence) (simp_all add: with_reexec_grace_def reexec_inspector_def)

end
