(* ===== verification/Inspector.thy ===== *)
theory Inspector
  imports Process_Properties
begin

text \<open>
  The process inspectors of Linux and macOS (\<open>src/src/process/linux.rs\<close>, \<open>src/src/process/macos.rs\<close>): the
  parsers of \<open>/proc\<close> and of \<open>ps\<close>, and the reads around them that detect a process that ended or whose number
  was reused meanwhile. What the system answers to the reads of one inspection, in their order, is a
  record; a file of \<open>/proc\<close> is missing, unreadable, or its bytes. SHA-256 in hexadecimal is a parameter.
\<close>

unbundle bit_operations_syntax

section \<open>Parsing \<open>/proc\<close>\<close>

definition MAX_PROC_FILE_BYTES :: nat where
  "MAX_PROC_FILE_BYTES = 64 * 1024"

definition MAX_PROC_ENTRIES :: nat where
  "MAX_PROC_ENTRIES = 32 * 1024"

record parsed_proc_stat =
  ps_parent_pid :: u32
  ps_process_group_id :: u32
  ps_session_leader_id :: u32
  ps_tty :: "string option"
  ps_start_time :: u64

definition malformed :: "u32 \<Rightarrow> string \<Rightarrow> process_error" where
  "malformed pid reason = Malformed pid reason"

definition bounded_utf8 :: "u32 \<Rightarrow> string \<Rightarrow> (process_error, string) result" where
  "bounded_utf8 pid bytes =
     (if MAX_PROC_FILE_BYTES < length bytes then Inl (malformed pid ''proc field exceeds size limit'')
      else if utf8_valid bytes then Inr bytes
      else Inl (malformed pid ''proc field is not UTF-8''))"

definition parse_field :: "u32 \<Rightarrow> (string \<Rightarrow> 'a option) \<Rightarrow> string \<Rightarrow> string \<Rightarrow> (process_error, 'a) result" where
  "parse_field pid parse value_text name = ok_or (malformed pid (''invalid '' @ name)) (parse value_text)"

definition parse_u32 :: "string \<Rightarrow> u32 option" where
  "parse_u32 s = map_option of_nat (parse_unsigned 32 s)"

definition parse_u64 :: "string \<Rightarrow> u64 option" where
  "parse_u64 s = map_option of_nat (parse_unsigned 64 s)"

definition canonical_device :: "u64 \<Rightarrow> string" where
  "canonical_device device =
     (let major = (drop_bit 8 device AND 0xfff) OR (drop_bit 32 device AND 0xfffff000);
          minor = (device AND 0xff) OR (drop_bit 12 device AND 0xffffff00)
      in ''dev:'' @ decimal (unat major) @ '':'' @ decimal (unat minor))"

definition canonical_tty :: "int \<Rightarrow> string option" where
  "canonical_tty device = (if device \<le> 0 then None else Some (canonical_device (of_int device)))"

definition parse_stat_fields :: "u32 \<Rightarrow> string list \<Rightarrow> (process_error, parsed_proc_stat) result" where
  "parse_stat_fields pid flds =
     (if length flds \<le> 19 then Inl (malformed pid ''truncated stat fields'')
      else
        rbind (parse_field pid parse_u32 (flds ! 1) ''parent PID'') (\<lambda>parent.
        rbind (parse_field pid parse_u32 (flds ! 2) ''process group'') (\<lambda>pgid.
        rbind (parse_field pid parse_u32 (flds ! 3) ''session leader'') (\<lambda>session.
        rbind (parse_field pid (parse_signed 64) (flds ! 4) ''controlling tty'') (\<lambda>tty.
        rbind (parse_field pid parse_u64 (flds ! 19) ''start time'') (\<lambda>start.
        Inr \<lparr>ps_parent_pid = parent, ps_process_group_id = pgid, ps_session_leader_id = session,
             ps_tty = canonical_tty tty, ps_start_time = start\<rparr>))))))"

definition parse_proc_stat :: "u32 \<Rightarrow> string \<Rightarrow> (process_error, parsed_proc_stat) result" where
  "parse_proc_stat pid bytes =
     rbind (bounded_utf8 pid bytes) (\<lambda>input.
     rbind (ok_or (malformed pid ''missing command terminator'') (rfind2 (CHR '')'') (CHR '' '') input)) (\<lambda>close.
     parse_stat_fields pid (split_ascii_whitespace (drop (close + 2) input))))"

fun find_map :: "('a \<Rightarrow> 'b option) \<Rightarrow> 'a list \<Rightarrow> 'b option" where
  "find_map f [] = None"
| "find_map f (x # xs) = (case f x of Some y \<Rightarrow> Some y | None \<Rightarrow> find_map f xs)"

definition first_of :: "'a list \<Rightarrow> 'a option" where
  "first_of xs = (case xs of [] \<Rightarrow> None | x # _ \<Rightarrow> Some x)"

definition parse_status_uid :: "u32 \<Rightarrow> string \<Rightarrow> (process_error, u32) result" where
  "parse_status_uid pid bytes =
     rbind (bounded_utf8 pid bytes) (\<lambda>input.
     rbind (ok_or (malformed pid ''missing real UID'')
       (Option.bind (find_map (strip_prefix ''Uid:'') (str_lines input))
         (\<lambda>flds. first_of (split_ascii_whitespace flds)))) (\<lambda>field.
     parse_field pid parse_u32 field ''real UID''))"

section \<open>Reading a process on Linux\<close>

datatype file_read = NotFound | IoError string | Bytes string

definition read_bounded :: "u32 \<Rightarrow> file_read \<Rightarrow> (process_error, string) result" where
  "read_bounded pid r =
     (case r of NotFound \<Rightarrow> Inl (Disappeared pid) | IoError e \<Rightarrow> Inl (Inspection e)
      | Bytes contents \<Rightarrow>
          let bytes = take (MAX_PROC_FILE_BYTES + 1) contents in
          if MAX_PROC_FILE_BYTES < length bytes then Inl (malformed pid ''proc file exceeds size limit'')
          else Inr bytes)"

record proc_reads =
  rd_stat :: file_read
  rd_status :: file_read
  rd_exe :: "string option"
  rd_cmdline :: file_read
  rd_final_stat :: file_read

definition read_process ::
  "(string \<Rightarrow> string) \<Rightarrow> u32 \<Rightarrow> proc_reads \<Rightarrow> (process_error, process_record) result" where
  "read_process sha pid rd =
     rbind (read_bounded pid (rd_stat rd)) (\<lambda>stat.
     rbind (parse_proc_stat pid stat) (\<lambda>parsed.
     rbind (read_bounded pid (rd_status rd)) (\<lambda>status.
     rbind (parse_status_uid pid status) (\<lambda>uid.
     let executable = map_option from_utf8_lossy (rd_exe rd);
         argv_digest = (case read_bounded pid (rd_cmdline rd) of
           Inl _ \<Rightarrow> None | Inr bytes \<Rightarrow> if bytes = [] then None else Some (sha bytes))
     in
     rbind (read_bounded pid (rd_final_stat rd)) (\<lambda>final_stat.
     rbind (parse_proc_stat pid final_stat) (\<lambda>final_identity.
     if ps_start_time final_identity \<noteq> ps_start_time parsed then Inl (Disappeared pid)
     else Inr
       \<lparr>pr_pid = pid, pr_parent_pid = ps_parent_pid parsed, pr_start_time = ps_start_time parsed,
        pr_executable = executable, pr_argv_digest = argv_digest, pr_uid = Some uid,
        pr_process_group_id = Some (ps_process_group_id parsed),
        pr_session_leader_id = Some (ps_session_leader_id parsed), pr_tty = ps_tty parsed\<rparr>))))))"

fun collect_proc_pid_names_from :: "nat \<Rightarrow> (string, string) result list \<Rightarrow> (process_error, u32 list) result" where
  "collect_proc_pid_names_from index [] = Inr []"
| "collect_proc_pid_names_from index (name # names) =
     (if MAX_PROC_ENTRIES \<le> index
      then Inl (IncompleteEnumeration (''proc entry limit '' @ decimal MAX_PROC_ENTRIES @ '' exceeded''))
      else case name of
        Inl e \<Rightarrow> Inl (IncompleteEnumeration (''proc directory entry failed: '' @ e))
      | Inr n \<Rightarrow> rbind (collect_proc_pid_names_from (Suc index) names) (\<lambda>pids.
          Inr (case parse_u32 n of Some pid \<Rightarrow> pid # pids | None \<Rightarrow> pids)))"

definition collect_proc_pid_names :: "(string, string) result list \<Rightarrow> (process_error, u32 list) result" where
  "collect_proc_pid_names names = collect_proc_pid_names_from 0 names"

text \<open>The loop over the processes keeps those on the terminal, skips those that ended and fails on any other
  error; both inspectors have it.\<close>

fun keep_on_tty ::
  "(u32 \<Rightarrow> (process_error, process_record) result) \<Rightarrow> string \<Rightarrow> u32 list
     \<Rightarrow> (process_error, process_record list) result" where
  "keep_on_tty read tty [] = Inr []"
| "keep_on_tty read tty (pid # pids) =
     (case read pid of
        Inr process \<Rightarrow> rbind (keep_on_tty read tty pids) (\<lambda>ps.
          Inr (if pr_tty process = Some tty then process # ps else ps))
      | Inl (Disappeared _) \<Rightarrow> keep_on_tty read tty pids
      | Inl e \<Rightarrow> Inl e)"

record proc_fs =
  pf_dir :: "(string, (string, string) result list) result"
  pf_reads :: "u32 \<Rightarrow> proc_reads"

definition linux_processes_on_tty ::
  "(string \<Rightarrow> string) \<Rightarrow> proc_fs \<Rightarrow> string \<Rightarrow> (process_error, process_record list) result" where
  "linux_processes_on_tty sha fs tty =
     rbind (map_err Inspection (pf_dir fs)) (\<lambda>entries.
     rbind (collect_proc_pid_names (map (map_sum id from_utf8_lossy) entries)) (\<lambda>pids.
     keep_on_tty (\<lambda>pid. read_process sha pid (pf_reads fs pid)) tty pids))"

definition linux_inspector :: "(string \<Rightarrow> string) \<Rightarrow> proc_fs \<Rightarrow> inspector" where
  "linux_inspector sha fs =
     \<lparr>inspect = (\<lambda>pid. read_process sha pid (pf_reads fs pid)),
      processes_on_tty = linux_processes_on_tty sha fs\<rparr>"

section \<open>Reading a process on macOS\<close>

definition MAX_PS_OUTPUT_BYTES :: nat where
  "MAX_PS_OUTPUT_BYTES = 4 * 1024 * 1024"

definition parse_next ::
  "(string \<Rightarrow> 'a option) \<Rightarrow> u32 \<Rightarrow> string \<Rightarrow> string list \<Rightarrow> (process_error, 'a \<times> string list) result" where
  "parse_next parse pid name flds =
     (case flds of [] \<Rightarrow> Inl (Malformed pid (''invalid '' @ name))
      | field # others \<Rightarrow>
          (case parse field of None \<Rightarrow> Inl (Malformed pid (''invalid '' @ name)) | Some v \<Rightarrow> Inr (v, others)))"

definition normalize_tty :: "string \<Rightarrow> string" where
  "normalize_tty tty = (if starts_with tty ''/'' then tty else ''/dev/'' @ tty)"

definition parse_ps_record :: "string \<Rightarrow> u64 \<Rightarrow> (process_error, process_record) result" where
  "parse_ps_record bytes start =
     (if MAX_PS_OUTPUT_BYTES < length bytes then Inl (Inspection ''ps record exceeds size limit'')
      else if \<not> utf8_valid bytes then Inl (Inspection ''ps returned non-UTF-8 metadata'')
      else
        rbind (parse_next parse_u32 0 ''pid'' (split_ascii_whitespace bytes)) (\<lambda>(pid, flds).
        rbind (parse_next parse_u32 pid ''parent pid'' flds) (\<lambda>(parent, flds).
        rbind (parse_next parse_u32 pid ''process group'' flds) (\<lambda>(pgid, flds).
        rbind (parse_next parse_u32 pid ''session'' flds) (\<lambda>(session, flds).
        rbind (parse_next parse_u32 pid ''uid'' flds) (\<lambda>(uid, flds).
        Inr
          \<lparr>pr_pid = pid, pr_parent_pid = parent, pr_start_time = start,
           pr_executable = first_of (drop 1 flds), pr_argv_digest = None, pr_uid = Some uid,
           pr_process_group_id = Some pgid, pr_session_leader_id = Some session,
           pr_tty = (case first_of flds of None \<Rightarrow> None
             | Some tty \<Rightarrow> if tty = ''??'' then None else Some (normalize_tty tty))\<rparr>))))))"

record mac_reads =
  mr_before :: "(process_error, u64) result"
  mr_ps :: "(process_error, string) result"
  mr_after :: "(process_error, u64) result"

definition verified_record :: "u32 \<Rightarrow> mac_reads \<Rightarrow> (process_error, process_record) result" where
  "verified_record pid rd =
     rbind (mr_before rd) (\<lambda>before.
     case mr_ps rd of
       Inl _ \<Rightarrow>
         (case mr_after rd of
            Inl (Disappeared _) \<Rightarrow> Inl (Disappeared pid)
          | Inr after \<Rightarrow>
              if after \<noteq> before then Inl (Disappeared pid)
              else Inl (Inspection (''ps metadata command failed for PID '' @ decimal (unat pid)
                     @ '' while identity remained stable''))
          | Inl e \<Rightarrow> Inl e)
     | Inr bytes \<Rightarrow>
         if MAX_PS_OUTPUT_BYTES < length bytes then Inl (Inspection ''ps output exceeds size limit'')
         else rbind (parse_ps_record bytes before) (\<lambda>r.
           if pr_pid r \<noteq> pid then Inl (Disappeared pid)
           else rbind (mr_after rd) (\<lambda>after.
             if after \<noteq> before then Inl (Disappeared pid) else Inr r)))"

record mac_source =
  ms_list_pids :: "(process_error, u32 list) result"
  ms_reads :: "u32 \<Rightarrow> mac_reads"

definition mac_inspector :: "mac_source \<Rightarrow> inspector" where
  "mac_inspector src =
     \<lparr>inspect = (\<lambda>pid. verified_record pid (ms_reads src pid)),
      processes_on_tty = (\<lambda>tty. rbind (ms_list_pids src) (\<lambda>pids.
        keep_on_tty (\<lambda>pid. verified_record pid (ms_reads src pid)) tty pids))\<rparr>"

end
