(* ===== verification/Inspector_Properties.thy ===== *)
theory Inspector_Properties
  imports Inspector
begin

text \<open>
  Both inspectors answer for the process they were asked for, with a start time that was the same before
  and after the reads, so discovery and monitoring rest on consistent records; and no command name can
  forge the fields of \<open>/proc/<pid>/stat\<close>.
\<close>

section \<open>The command name in \<open>stat\<close>\<close>

lemma rfind2_absent: "a \<notin> set s \<Longrightarrow> rfind2 a b s = None"
  by (induction a b s rule: rfind2.induct) auto

lemma rfind2_last:
  assumes "a \<notin> set s" "a \<noteq> b"
  shows "rfind2 a b (p @ a # b # s) = Some (length p)"
proof (induction p)
  case Nil
  have "rfind2 a b (b # s) = None" using assms by (intro rfind2_absent) simp
  then show ?case by simp
next
  case (Cons x p)
  then show ?case by (cases p) simp_all
qed

lemma split_when_cons_sep:
  "\<forall>c \<in> set g. \<not> P c \<Longrightarrow> P x \<Longrightarrow> split_when P (g @ x # s) = g # split_when P s"
  by (induction g) simp_all

lemma split_when_sep_free: "\<forall>c \<in> set s. \<not> P c \<Longrightarrow> split_when P s = [s]"
  by (induction s) simp_all

definition plain_fields :: "string list \<Rightarrow> bool" where
  "plain_fields fs = list_all (\<lambda>g. g \<noteq> [] \<and> list_all (\<lambda>c. \<not> is_ascii_space c \<and> c \<noteq> CHR '')'') g) fs"

lemma split_join_fields:
  "plain_fields fs \<Longrightarrow> split_ascii_whitespace (str_join '' '' fs) = fs"
proof (induction "'' ''" fs rule: str_join.induct)
  case (2 g)
  then show ?case
    using split_when_sep_free [of g is_ascii_space]
    by (simp add: plain_fields_def split_ascii_whitespace_def list_all_iff)
next
  case (3 g h gs)
  have "split_when is_ascii_space (g @ CHR '' '' # str_join '' '' (h # gs)) =
      g # split_when is_ascii_space (str_join '' '' (h # gs))"
    by (rule split_when_cons_sep) (use 3 in \<open>simp_all add: plain_fields_def list_all_iff is_ascii_space_def\<close>)
  with 3 show ?case by (simp add: plain_fields_def split_ascii_whitespace_def)
qed (simp add: split_ascii_whitespace_def)

lemma join_fields_set: "c \<in> set (str_join s fs) \<Longrightarrow> c \<in> set s \<or> (\<exists>g \<in> set fs. c \<in> set g)"
  by (induction s fs rule: str_join.induct) auto

definition stat_line :: "u32 \<Rightarrow> string \<Rightarrow> string list \<Rightarrow> string" where
  "stat_line pid comm fs = decimal (unat pid) @ '' ('' @ comm @ '') '' @ str_join '' '' fs"

text \<open>The fields read from a line of \<open>/proc/<pid>/stat\<close> do not depend on the command name: whatever bytes the
  process chose for it, spaces, parentheses and digits included, the parent, the group, the session, the
  terminal and the start time come from the fields that follow it.\<close>

theorem command_name_cannot_forge_stat:
  assumes "plain_fields fs" "utf8_valid (stat_line pid comm fs)" "length (stat_line pid comm fs) \<le> MAX_PROC_FILE_BYTES"
  shows "parse_proc_stat pid (stat_line pid comm fs) = parse_stat_fields pid fs"
proof -
  let ?p = "decimal (unat pid) @ '' ('' @ comm"
  have line: "stat_line pid comm fs = ?p @ CHR '')'' # CHR '' '' # str_join '' '' fs"
    by (simp add: stat_line_def)
  have "CHR '')'' \<notin> set (str_join '' '' fs)"
    using assms(1) join_fields_set [of "CHR '')''" "'' ''" fs] by (auto simp: plain_fields_def list_all_iff)
  then have "rfind2 (CHR '')'') (CHR '' '') (stat_line pid comm fs) = Some (length ?p)"
    unfolding line by (rule rfind2_last) simp
  moreover have "drop (length ?p + 2) (stat_line pid comm fs) = str_join '' '' fs"
    unfolding line drop_append by simp
  ultimately show ?thesis
    using assms by (simp add: parse_proc_stat_def bounded_utf8_def split_join_fields)
qed

definition example_fields :: "string list" where
  "example_fields = [''S'', ''7'', ''8'', ''9'', ''34817''] @ replicate 14 ''0'' @ [''123'', ''1'']"

theorem command_name_cannot_forge_stat_witness:
  "parse_proc_stat 42 (stat_line 42 ''x) S 1 1 1 1 '' example_fields) = parse_stat_fields 42 example_fields \<and>
   is_ok (parse_stat_fields 42 example_fields)"
proof
  have "utf8_valid (stat_line 42 ''x) S 1 1 1 1 '' example_fields)" by code_simp
  moreover have "length (stat_line 42 ''x) S 1 1 1 1 '' example_fields) \<le> 100" by code_simp
  moreover have "plain_fields example_fields" by code_simp
  ultimately show "parse_proc_stat 42 (stat_line 42 ''x) S 1 1 1 1 '' example_fields) = parse_stat_fields 42 example_fields"
    by (intro command_name_cannot_forge_stat) (simp_all add: MAX_PROC_FILE_BYTES_def)
  show "is_ok (parse_stat_fields 42 example_fields)"
    by (simp add: parse_stat_fields_def example_fields_def parse_field_def parse_u32_def parse_u64_def parse_unsigned_def
        parse_signed_def parse_digits_def strip_sign_def starts_with_def is_ascii_digit_def nth_append)
qed

section \<open>Consistent records\<close>

lemma keep_on_tty_sound:
  "keep_on_tty read tty pids = Inr ps \<Longrightarrow> p \<in> set ps \<Longrightarrow> pr_tty p = Some tty"
proof (induction pids arbitrary: ps)
  case (Cons pid pids)
  then show ?case by (auto simp: result_simps split: sum.splits process_error.splits if_splits)
qed simp

lemma read_process_pid: "read_process sha pid rd = Inr r \<Longrightarrow> pr_pid r = pid"
  by (auto simp: read_process_def result_simps Let_def split: if_splits)

lemma verified_record_Inr:
  assumes "verified_record pid rd = Inr r"
  shows "pr_pid r = pid \<and> mr_before rd = Inr (pr_start_time r) \<and> mr_after rd = Inr (pr_start_time r)"
proof (cases "mr_ps rd")
  case (Inl e)
  show ?thesis
  proof (cases "mr_after rd")
    case (Inl e')
    with \<open>mr_ps rd = Inl e\<close> assms show ?thesis
      by (cases e') (auto simp: verified_record_def result_simps)
  next
    case (Inr t)
    with Inl assms show ?thesis by (auto simp: verified_record_def result_simps split: if_splits)
  qed
next
  case (Inr bytes)
  with assms obtain t where "mr_before rd = Inr t" "parse_ps_record bytes t = Inr r" "pr_pid r = pid" "mr_after rd = Inr t"
    by (auto simp: verified_record_def result_simps split: if_splits)
  moreover from this(2) have "pr_start_time r = t"
    by (auto simp: parse_ps_record_def result_simps split: if_splits)
  ultimately show ?thesis by simp
qed

lemma verified_record_pid: "verified_record pid rd = Inr r \<Longrightarrow> pr_pid r = pid"
  by (simp add: verified_record_Inr)

definition stat_start_time :: "u32 \<Rightarrow> file_read \<Rightarrow> u64 option" where
  "stat_start_time pid rd =
     (case rbind (read_bounded pid rd) (parse_proc_stat pid) of Inl _ \<Rightarrow> None | Inr s \<Rightarrow> Some (ps_start_time s))"

lemma read_process_Inr:
  "read_process sha pid rd = Inr r \<Longrightarrow> pr_pid r = pid \<and>
   stat_start_time pid (rd_stat rd) = Some (pr_start_time r) \<and>
   stat_start_time pid (rd_final_stat rd) = Some (pr_start_time r)"
  by (auto simp: read_process_def stat_start_time_def result_simps Let_def split: if_splits)

text \<open>An inspection yields a record only when the process had the start time of the record both before and
  after everything else was read, so the owner, the terminal and the executable in it are not those of a
  process that reused the number; a reuse is reported as a disappearance.\<close>

theorem inspected_record_is_consistent:
  "(\<forall>r. inspect (linux_inspector sha fs) pid = Inr r \<longrightarrow>
     pr_pid r = pid \<and> stat_start_time pid (rd_stat (pf_reads fs pid)) = Some (pr_start_time r) \<and>
     stat_start_time pid (rd_final_stat (pf_reads fs pid)) = Some (pr_start_time r)) \<and>
   (\<forall>r. inspect (mac_inspector src) pid = Inr r \<longrightarrow>
     pr_pid r = pid \<and> mr_before (ms_reads src pid) = Inr (pr_start_time r) \<and>
     mr_after (ms_reads src pid) = Inr (pr_start_time r))"
  by (simp add: linux_inspector_def mac_inspector_def read_process_Inr verified_record_Inr)

interpretation linux: honest_inspector "linux_inspector sha fs" for sha fs
  by unfold_locales
    (auto simp: linux_inspector_def linux_processes_on_tty_def result_simps read_process_pid dest: keep_on_tty_sound)

interpretation mac: honest_inspector "mac_inspector src" for src
  by unfold_locales (auto simp: mac_inspector_def result_simps verified_record_pid dest: keep_on_tty_sound)

definition bounded_chain :: "inspector \<Rightarrow> u32 \<Rightarrow> bool" where
  "bounded_chain insp child =
     (parent_chain child (ancestry insp child) \<and> distinct (map pr_pid (ancestry insp child))
      \<and> length (ancestry insp child) \<le> 64)"

text \<open>On Linux and on macOS the walk over the ancestors of a process follows parent links, meets no process
  twice and ends after at most 64 steps, whatever the system reports.\<close>

theorem ancestry_is_bounded_chain:
  "bounded_chain (linux_inspector sha fs) child \<and> bounded_chain (mac_inspector src) child"
  using linux.ancestry_chain [of child sha fs] mac.ancestry_chain [of child src] by (simp add: bounded_chain_def)

definition example_mac_source :: mac_source where
  "example_mac_source =
     \<lparr>ms_list_pids = Inr [], ms_reads = (\<lambda>pid.
       \<lparr>mr_before = Inr 77, mr_ps = Inr ''9 1 9 9 501 ttys001 /usr/local/bin/codex'', mr_after = Inr 77\<rparr>)\<rparr>"

theorem inspected_record_is_consistent_witness:
  "\<exists>r. inspect (mac_inspector example_mac_source) 9 = Inr r \<and> pr_start_time r = 77"
proof -
  have "verified_record 9 (ms_reads example_mac_source 9) = Inr r \<Longrightarrow> pr_start_time r = 77" for r
    using inspected_record_is_consistent [of _ _ 9 example_mac_source]
    by (auto simp: mac_inspector_def example_mac_source_def)
  moreover have "utf8_valid ''9 1 9 9 501 ttys001 /usr/local/bin/codex''"
    "split_ascii_whitespace ''9 1 9 9 501 ttys001 /usr/local/bin/codex'' =
       [''9'', ''1'', ''9'', ''9'', ''501'', ''ttys001'', ''/usr/local/bin/codex'']" by code_simp+
  then have "is_ok (verified_record 9 (ms_reads example_mac_source 9))"
    by (simp add: verified_record_def example_mac_source_def MAX_PS_OUTPUT_BYTES_def parse_ps_record_def
        parse_next_def parse_u32_def parse_unsigned_def parse_digits_def strip_sign_def is_ascii_digit_def)
  ultimately show ?thesis by (auto simp: mac_inspector_def is_ok_iff)
qed

end
