(* ===== verification/Scheduler.thy ===== *)
theory Scheduler
  imports Registry_Properties Process_Properties
begin

text \<open>
  The scheduler and the process lifecycle monitor of the daemon (\<open>src/src/daemon/scheduler.rs\<close>,
  \<open>src/src/daemon/lifecycle.rs\<close>). The scheduler is a task that receives events from a channel; a step of
  it takes what the receiver yields: an event, the expiry of the idle timeout when one runs, or the
  closing of the channel. The monitor pass walks the registered watchers, retargets those whose process was
  replaced and ends those whose process is gone.
\<close>

section \<open>The scheduler\<close>

record watcher_schedule =
  wsch_id :: string
  wsch_paused :: bool

datatype scheduler_event =
    Register string | Pause string | Resume string | Stop string | Shutdown | Snapshot

record scheduler =
  sch_idle_grace :: duration
  sch_stay_resident :: bool

text \<open>The local state of \<open>run\<close>: the watchers with their paused flag, the answers sent so far, and whether the
  loop has returned.\<close>

record scheduler_state =
  ss_watchers :: "bool btree"
  ss_replies :: "watcher_schedule list list"
  ss_stopped :: bool

definition scheduler_start :: scheduler_state where
  "scheduler_start = \<lparr>ss_watchers = [], ss_replies = [], ss_stopped = False\<rparr>"

definition set_paused :: "string \<Rightarrow> bool \<Rightarrow> bool btree \<Rightarrow> bool btree" where
  "set_paused wid paused ws = (case bt_get ws wid of None \<Rightarrow> ws | Some _ \<Rightarrow> bt_insert wid paused ws)"

fun scheduler_handle :: "scheduler_event \<Rightarrow> scheduler_state \<Rightarrow> scheduler_state" where
  "scheduler_handle (Register wid) s = s\<lparr>ss_watchers := bt_insert wid False (ss_watchers s)\<rparr>"
| "scheduler_handle (Pause wid) s = s\<lparr>ss_watchers := set_paused wid True (ss_watchers s)\<rparr>"
| "scheduler_handle (Resume wid) s = s\<lparr>ss_watchers := set_paused wid False (ss_watchers s)\<rparr>"
| "scheduler_handle (Stop wid) s = s\<lparr>ss_watchers := bt_remove wid (ss_watchers s)\<rparr>"
| "scheduler_handle Snapshot s =
     s\<lparr>ss_replies := ss_replies s @ [map (\<lambda>(wid, paused). \<lparr>wsch_id = wid, wsch_paused = paused\<rparr>) (ss_watchers s)]\<rparr>"
| "scheduler_handle Shutdown s = s\<lparr>ss_stopped := True\<rparr>"

definition idle_timeout_armed :: "scheduler \<Rightarrow> scheduler_state \<Rightarrow> bool" where
  "idle_timeout_armed c s = (ss_watchers s = [] \<and> \<not> sch_stay_resident c)"

datatype received = Received scheduler_event | TimedOut | Closed

inductive scheduler_step :: "scheduler \<Rightarrow> scheduler_state \<Rightarrow> received \<Rightarrow> scheduler_state \<Rightarrow> bool" for c where
  event: "\<not> ss_stopped s \<Longrightarrow> scheduler_step c s (Received e) (scheduler_handle e s)"
| timeout: "\<not> ss_stopped s \<Longrightarrow> idle_timeout_armed c s \<Longrightarrow> scheduler_step c s TimedOut (s\<lparr>ss_stopped := True\<rparr>)"
| closed: "\<not> ss_stopped s \<Longrightarrow> scheduler_step c s Closed (s\<lparr>ss_stopped := True\<rparr>)"

inductive_cases scheduler_stepE: "scheduler_step c s x s'"

inductive scheduler_run :: "scheduler \<Rightarrow> scheduler_state \<Rightarrow> received list \<Rightarrow> scheduler_state \<Rightarrow> bool" for c where
  halt: "scheduler_run c s [] s"
| more: "scheduler_step c s x t \<Longrightarrow> scheduler_run c t xs u \<Longrightarrow> scheduler_run c s (x # xs) u"

inductive_cases scheduler_runE: "scheduler_run c s xs u"

section \<open>The lifecycle monitor\<close>

definition PROCESS_REEXEC_GRACE_MS :: u64 where
  "PROCESS_REEXEC_GRACE_MS = 2000"

fun lifecycle_ended :: "watcher_lifecycle \<Rightarrow> bool" where
  "lifecycle_ended (Stopped _) = True"
| "lifecycle_ended TargetTerminated = True"
| "lifecycle_ended _ = False"

fun lifecycle_paused :: "watcher_lifecycle \<Rightarrow> bool" where
  "lifecycle_paused Paused = True"
| "lifecycle_paused (HumanRequired _) = True"
| "lifecycle_paused _ = False"

type_synonym monitor_pass = "registry \<times> scheduler_event list \<times> lifecycle_monitor btree"

definition monitor_for :: "lifecycle_monitor btree \<Rightarrow> watcher_state \<Rightarrow> lifecycle_monitor" where
  "monitor_for monitors w =
     (case bt_get monitors (watcher_id w) of Some m \<Rightarrow> m
      | None \<Rightarrow> with_reexec_grace (ti_process (ws_target w)) PROCESS_REEXEC_GRACE_MS)"

text \<open>One round of the loop. Sending to the scheduler may fail; the failure is ignored.\<close>

definition monitor_watcher :: "inspector \<Rightarrow> u64 \<Rightarrow> watcher_state \<Rightarrow> monitor_pass \<Rightarrow> monitor_pass" where
  "monitor_watcher insp now w = (\<lambda>(r, sent, monitors).
     let wid = watcher_id w in
     if lifecycle_ended (ws_lifecycle w) then (r, sent, bt_remove wid monitors)
     else
       (case monitor_observe insp now (monitor_for monitors w) of (m, decision) \<Rightarrow>
         let monitors1 = bt_insert wid m monitors in
         (case decision of
            Alive \<Rightarrow> (r, sent, monitors1)
          | Grace \<Rightarrow> (r, sent, monitors1)
          | ReexecAccepted identity \<Rightarrow>
              (case retarget_process wid identity now r of
                 (Inr _, r1) \<Rightarrow> (r1, sent, bt_insert wid (commit_reexec identity m) monitors1)
               | (Inl _, r1) \<Rightarrow> (r1, sent, monitors1))
          | Terminate \<Rightarrow>
              (case registry_transition wid TargetTerminated now r of
                 (Inr _, r1) \<Rightarrow> (r1, sent @ [Stop wid], bt_remove wid monitors1)
               | (Inl _, r1) \<Rightarrow> (r1, sent, monitors1)))))"

definition monitor_process_lifecycles ::
  "inspector \<Rightarrow> u64 \<Rightarrow> registry \<Rightarrow> lifecycle_monitor btree \<Rightarrow> monitor_pass" where
  "monitor_process_lifecycles insp now r monitors =
     fold (monitor_watcher insp now) (bt_values (reg_watchers r)) (r, [], monitors)"

text \<open>The events sent to a new scheduler, in order.\<close>

definition registration_events :: "watcher_state \<Rightarrow> scheduler_event list" where
  "registration_events w =
     (if lifecycle_ended (ws_lifecycle w) then []
      else Register (watcher_id w) #
        (if lifecycle_paused (ws_lifecycle w) then [Pause (watcher_id w)] else []))"

definition scheduler_from_registry :: "registry \<Rightarrow> scheduler_event list" where
  "scheduler_from_registry r = concat (map registration_events (bt_values (reg_watchers r)))"

definition has_active_watchers :: "registry \<Rightarrow> bool" where
  "has_active_watchers r = list_ex (\<lambda>w. \<not> lifecycle_ended (ws_lifecycle w)) (bt_values (reg_watchers r))"

section \<open>Scheduled watchers\<close>

text \<open>Where a watcher stands after some events: the specification looks only at its own events.\<close>

fun concerns :: "string \<Rightarrow> scheduler_event \<Rightarrow> bool option \<Rightarrow> bool option" where
  "concerns wid (Register x) st = (if x = wid then Some False else st)"
| "concerns wid (Pause x) st = (if x = wid \<and> st \<noteq> None then Some True else st)"
| "concerns wid (Resume x) st = (if x = wid \<and> st \<noteq> None then Some False else st)"
| "concerns wid (Stop x) st = (if x = wid then None else st)"
| "concerns wid _ st = st"

abbreviation scheduled :: "scheduler_state \<Rightarrow> string \<Rightarrow> bool option" where
  "scheduled s wid \<equiv> bt_get (ss_watchers s) wid"

lemma handle_concerns: "scheduled (scheduler_handle e s) wid = concerns wid e (scheduled s wid)"
  by (cases e) (auto simp: set_paused_def bt.get_put bt.get_del split: option.split)

lemma fold_handle_concerns:
  "scheduled (fold scheduler_handle es s) wid = fold (concerns wid) es (scheduled s wid)"
  by (induction es arbitrary: s) (simp_all add: handle_concerns)

fun events_of :: "received list \<Rightarrow> scheduler_event list" where
  "events_of [] = []"
| "events_of (Received e # xs) = e # events_of xs"
| "events_of (_ # xs) = events_of xs"

lemma scheduler_run_watchers:
  "scheduler_run c s xs u \<Longrightarrow> scheduled u wid = fold (concerns wid) (events_of xs) (scheduled s wid)"
proof (induction rule: scheduler_run.induct)
  case (more s x t xs u)
  then show ?case by (auto simp: handle_concerns elim: scheduler_stepE)
qed simp

lemma scheduler_stops:
  "scheduler_run c s xs u \<Longrightarrow> \<not> ss_stopped s \<Longrightarrow> ss_stopped u \<Longrightarrow>
   \<exists>ys. xs = ys @ [Received Shutdown] \<or> xs = ys @ [Closed] \<or> xs = ys @ [TimedOut] \<and> idle_timeout_armed c u"
proof (induction rule: scheduler_run.induct)
  case (more s x t xs u)
  show ?case
  proof (cases "ss_stopped t")
    case True
    then have "xs = [] \<and> u = t" using more.hyps(2) by (auto elim: scheduler_runE scheduler_stepE)
    moreover have "x = Received Shutdown \<or> x = Closed \<or> x = TimedOut \<and> idle_timeout_armed c t"
      using more.hyps(1) True more.prems(1)
    proof cases
      case (event e)
      then show ?thesis using True more.prems(1) by (cases e) auto
    qed (auto simp: idle_timeout_armed_def)
    ultimately show ?thesis by auto
  next
    case False
    with more.IH more.prems(2) show ?thesis by (metis append_Cons)
  qed
qed simp

lemma handle_running: "e \<noteq> Shutdown \<Longrightarrow> ss_stopped (scheduler_handle e s) = ss_stopped s"
  by (cases e) simp_all

lemma scheduler_run_events:
  "\<not> ss_stopped s \<Longrightarrow> Shutdown \<notin> set es \<Longrightarrow>
   scheduler_run c s (map Received es) (fold scheduler_handle es s) \<and> \<not> ss_stopped (fold scheduler_handle es s)"
proof (induction es arbitrary: s)
  case (Cons e es)
  have "e \<noteq> Shutdown" using Cons.prems(2) by auto
  then have "\<not> ss_stopped (scheduler_handle e s)" using Cons.prems(1) by (simp add: handle_running)
  from Cons.IH [OF this] Cons.prems(2) show ?case
    by (simp add: scheduler_run.more [OF scheduler_step.event [OF Cons.prems(1)]])
qed (simp add: scheduler_run.halt)

lemma scheduler_run_snoc: "scheduler_run c s xs t \<Longrightarrow> scheduler_step c t x u \<Longrightarrow> scheduler_run c s (xs @ [x]) u"
proof (induction rule: scheduler_run.induct)
  case (halt s)
  then show ?case using scheduler_run.more scheduler_run.halt by fastforce
next
  case (more s x t xs u)
  then show ?case using scheduler_run.more by fastforce
qed

text \<open>C34: The scheduler is the pure function of its events that the specification gives for each watcher: a watcher
  is scheduled exactly since its last registration unless it was stopped afterwards, and paused by its last
  pause or resume; and it returns only on a shutdown, on the closing of its channel, or when the idle grace
  passes with no watcher left and it need not stay resident.\<close>

theorem scheduler_meets_specification:
  assumes "scheduler_run c scheduler_start xs u"
  shows "scheduled u wid = fold (concerns wid) (events_of xs) None \<and>
    (ss_stopped u \<longrightarrow> last xs \<in> {Received Shutdown, Closed} \<or>
      last xs = TimedOut \<and> ss_watchers u = [] \<and> \<not> sch_stay_resident c)"
proof -
  have "scheduled u wid = fold (concerns wid) (events_of xs) None"
    using scheduler_run_watchers [OF assms] by (simp add: scheduler_start_def)
  moreover have "last xs \<in> {Received Shutdown, Closed} \<or>
      last xs = TimedOut \<and> ss_watchers u = [] \<and> \<not> sch_stay_resident c" if "ss_stopped u"
    using scheduler_stops [OF assms _ that] by (auto simp: scheduler_start_def idle_timeout_armed_def)
  ultimately show ?thesis by blast
qed

theorem scheduler_meets_specification_witness:
  "\<exists>u. scheduler_run \<lparr>sch_idle_grace = 5, sch_stay_resident = False\<rparr> scheduler_start
      [Received (Register ''w''), Received (Pause ''w''), Received (Stop ''w''), TimedOut] u \<and>
     scheduled u ''w'' = None \<and> ss_stopped u"
proof -
  let ?c = "\<lparr>sch_idle_grace = 5, sch_stay_resident = False\<rparr>"
  let ?es = "[Register ''w'', Pause ''w'', Stop ''w'']"
  let ?s = "fold scheduler_handle ?es scheduler_start"
  have run: "scheduler_run ?c scheduler_start (map Received ?es) ?s" "\<not> ss_stopped ?s"
    using scheduler_run_events [of scheduler_start ?es ?c] by (simp_all add: scheduler_start_def)
  have "idle_timeout_armed ?c ?s"
    by (simp add: idle_timeout_armed_def scheduler_start_def set_paused_def bt_remove.simps)
  from scheduler_run_snoc [OF run(1) scheduler_step.timeout [OF run(2) this]]
  have "scheduler_run ?c scheduler_start (map Received ?es @ [TimedOut]) (?s\<lparr>ss_stopped := True\<rparr>)" .
  from scheduler_meets_specification [OF this, of "''w''"] this show ?thesis by auto
qed

end
