(* ===== verification/Lifecycle.thy ===== *)
theory Lifecycle
  imports Scheduler
begin

text \<open>
  What a pass of the lifecycle monitor does to the registry and to the scheduler: every watcher is treated
  alone, exactly by the decision of its own monitor; a watcher ends only when its process is gone, and the
  scheduler is told exactly of the watchers that ended.
\<close>

section \<open>One watcher\<close>

text \<open>A change is certain to be written when the coming writes succeed and the revision can advance.\<close>

definition changeable :: "registry \<Rightarrow> watcher_state \<Rightarrow> bool" where
  "changeable r w \<longleftrightarrow> js_healthy (reg_store r) \<and> ws_revision w < - 1"

lemma js_write_stays_healthy: "js_write v s = (x, s') \<Longrightarrow> js_healthy s \<Longrightarrow> js_healthy s'"
  using js_write_healthy [of s v] by auto

lemma change_watcher_applies:
  assumes "bt_get (reg_watchers r) wid = Some w" "changeable r w" "ws_revision (f w) = ws_revision w"
  shows "is_ok (fst (change_watcher wid f now r))"
proof -
  have "chk_add (ws_revision w) 1 = Some (ws_revision w + 1)"
    using assms(2) by (simp add: changeable_def chk_add_Some_iff word_less_nat_alt unat_word_ariths unat_max_word)
  moreover have "\<exists>s. js_write v (reg_store r) = (Inr (), s)" for v
    using js_write_healthy [of "reg_store r" v] assms(2) by (auto simp: changeable_def)
  ultimately show ?thesis
    using assms(1,3)
    by (auto simp: change_watcher_def update_watcher_def next_revision_def replace_watchers_def persist_watchers_def
        split: prod.splits sum.splits) (metis Inr_Inl_False fst_conv)+
qed

lemma change_watcher_entry:
  assumes "change_watcher wid f now r = (res, r')"
  shows "\<forall>k. k \<noteq> wid \<longrightarrow> bt_get (reg_watchers r') k = bt_get (reg_watchers r) k"
    and "\<And>w. bt_get (reg_watchers r) wid = Some w \<Longrightarrow> ws_revision (f w) = ws_revision w \<Longrightarrow>
      (\<exists>e. res = Inl e) \<and> \<not> changeable r w \<and> bt_get (reg_watchers r') wid = Some w \<or>
      res = Inr () \<and>
      bt_get (reg_watchers r') wid = Some ((f w)\<lparr>ws_revision := ws_revision w + 1, updated_at_unix_ms := now\<rparr>)"
    and "js_healthy (reg_store r) \<Longrightarrow> js_healthy (reg_store r')"
proof -
  from assms have u: "update_watcher wid (\<lambda>w. Inr (f w, ())) now r = (res, r')" by (simp add: change_watcher_def)
  show "\<forall>k. k \<noteq> wid \<longrightarrow> bt_get (reg_watchers r') k = bt_get (reg_watchers r) k"
    using u by (cases rule: update_watcher_cases) (auto simp: wrote_def untouched_map_def bt.get_put)
  have succ: "rv = v + 1" if "unat rv = Suc (unat v)" for rv v :: u64
    using arg_cong [OF that, of "of_nat :: nat \<Rightarrow> u64"] by simp
  show "(\<exists>e. res = Inl e) \<and> \<not> changeable r w \<and> bt_get (reg_watchers r') wid = Some w \<or>
      res = Inr () \<and>
      bt_get (reg_watchers r') wid = Some ((f w)\<lparr>ws_revision := ws_revision w + 1, updated_at_unix_ms := now\<rparr>)"
    if w: "bt_get (reg_watchers r) wid = Some w" "ws_revision (f w) = ws_revision w" for w
    using u
  proof (cases rule: update_watcher_cases)
    case (stored v w1 x rv)
    with w have "rv = ws_revision w + 1" by (auto intro: succ)
    with stored w show ?thesis by (auto simp: wrote_def)
  next
    case (failed e)
    with change_watcher_applies [where f = f and now = now, OF w(1) _ w(2)] assms w show ?thesis by (auto simp: untouched_map_def)
  qed
  show "js_healthy (reg_store r')" if "js_healthy (reg_store r)"
    using u that
    by (cases rule: update_watcher_cases) (auto simp: wrote_def untouched_map_def dest: js_write_stays_healthy)
qed

lemma transition_change:
  "registry_transition wid lc now r = (res, r') \<Longrightarrow>
   \<exists>r1. change_watcher wid (\<lambda>w. w\<lparr>ws_lifecycle := lc\<rparr>) now r = (res, r1) \<and> reg_watchers r' = reg_watchers r1 \<and>
     reg_store r' = reg_store r1"
  by (auto simp: registry_transition_def split: prod.splits sum.splits)

text \<open>What a round leaves of the entry of its watcher and of the events it sends: what the monitor decided, and
  nothing at all only if nothing was decided, or if the write of the change can fail (\<open>\<not> ok\<close>).\<close>

definition decided ::
  "bool \<Rightarrow> inspector \<Rightarrow> u64 \<Rightarrow> lifecycle_monitor btree \<Rightarrow> watcher_state \<Rightarrow> watcher_state \<Rightarrow> scheduler_event list \<Rightarrow> bool" where
  "decided ok insp now monitors w w' sent \<longleftrightarrow>
     (if lifecycle_ended (ws_lifecycle w) then w' = w \<and> sent = []
      else case snd (monitor_observe insp now (monitor_for monitors w)) of
        Alive \<Rightarrow> w' = w \<and> sent = []
      | Grace \<Rightarrow> w' = w \<and> sent = []
      | ReexecAccepted p \<Rightarrow> sent = [] \<and>
          (w' = w\<lparr>ws_target := with_process p (ws_target w), ws_revision := ws_revision w + 1, updated_at_unix_ms := now\<rparr>
           \<or> \<not> ok \<and> w' = w)
      | Terminate \<Rightarrow>
          w' = w\<lparr>ws_lifecycle := TargetTerminated, ws_revision := ws_revision w + 1, updated_at_unix_ms := now\<rparr>
            \<and> sent = [Stop (watcher_id w)]
          \<or> \<not> ok \<and> w' = w \<and> sent = [])"

lemma monitor_watcher_entry:
  assumes "monitor_watcher insp now w (r, sent, ms) = (r', sent', ms')"
    and "bt_get (reg_watchers r) (watcher_id w) = Some w"
  shows "(\<forall>k. k \<noteq> watcher_id w \<longrightarrow> bt_get (reg_watchers r') k = bt_get (reg_watchers r) k \<and> bt_get ms' k = bt_get ms k) \<and>
    (js_healthy (reg_store r) \<longrightarrow> js_healthy (reg_store r')) \<and>
    (\<exists>w' es. bt_get (reg_watchers r') (watcher_id w) = Some w' \<and> sent' = sent @ es \<and>
       decided (changeable r w) insp now ms w w' es)"
proof (cases "lifecycle_ended (ws_lifecycle w)")
  case True
  with assms show ?thesis by (auto simp: monitor_watcher_def decided_def bt.get_del)
next
  case False
  obtain m d where md: "monitor_observe insp now (monitor_for ms w) = (m, d)" by fastforce
  show ?thesis
  proof (cases d)
    case (ReexecAccepted p)
    obtain res r1 where rt: "retarget_process (watcher_id w) p now r = (res, r1)" by fastforce
    note e = change_watcher_entry [OF rt [unfolded retarget_process_def]]
    from e(2) [OF assms(2)] e(1,3) False md ReexecAccepted rt assms(1) show ?thesis
      by (cases res) (auto simp: monitor_watcher_def Let_def decided_def bt.get_put)
  next
    case Terminate
    obtain res r1 where rt: "registry_transition (watcher_id w) TargetTerminated now r = (res, r1)" by fastforce
    from transition_change [OF rt] obtain r2 where
      c: "change_watcher (watcher_id w) (\<lambda>w. w\<lparr>ws_lifecycle := TargetTerminated\<rparr>) now r = (res, r2)"
        "reg_watchers r1 = reg_watchers r2" "reg_store r1 = reg_store r2" by blast
    note e = change_watcher_entry [OF c(1)]
    from e(2) [OF assms(2)] e(1,3) c(2,3) False md Terminate rt assms(1) show ?thesis
      by (cases res) (auto simp: monitor_watcher_def Let_def decided_def bt.get_put bt.get_del)
  qed (use False md assms in \<open>auto simp: monitor_watcher_def Let_def decided_def bt.get_put\<close>)
qed

section \<open>A pass\<close>

lemma monitor_for_cong: "bt_get ms (watcher_id w) = bt_get ms' (watcher_id w) \<Longrightarrow> monitor_for ms w = monitor_for ms' w"
  by (simp add: monitor_for_def)

definition own_stops :: "string \<Rightarrow> scheduler_event list \<Rightarrow> scheduler_event list" where
  "own_stops wid = filter (\<lambda>e. e = Stop wid)"

lemma decided_stops: "decided ok insp now ms w w' es \<Longrightarrow> set es \<subseteq> {Stop (watcher_id w)}"
  by (auto simp: decided_def split: lifecycle_decision.splits if_splits)

lemma own_stops_decided:
  "decided ok insp now ms w w' es \<Longrightarrow> own_stops wid es = (if watcher_id w = wid then es else [])"
  using decided_stops [of ok insp now ms w w' es] by (auto simp: own_stops_def filter_empty_conv intro!: filter_True)

lemma pass_entries:
  assumes "distinct (map watcher_id ws)" "\<forall>w \<in> set ws. bt_get (reg_watchers r) (watcher_id w) = Some w"
    and "fold (monitor_watcher insp now) ws (r, sent, ms) = (r', sent', ms')"
  shows "(\<forall>k. k \<notin> watcher_id ` set ws \<longrightarrow>
      bt_get (reg_watchers r') k = bt_get (reg_watchers r) k \<and> own_stops k sent' = own_stops k sent) \<and>
    (\<forall>w \<in> set ws. \<exists>w' es. bt_get (reg_watchers r') (watcher_id w) = Some w' \<and> decided (changeable r w) insp now ms w w' es \<and>
      own_stops (watcher_id w) sent' = own_stops (watcher_id w) sent @ es)"
  using assms
proof (induction ws arbitrary: r sent ms)
  case (Cons w ws)
  obtain r1 sent1 ms1 where st: "monitor_watcher insp now w (r, sent, ms) = (r1, sent1, ms1)"
    by (metis prod_cases3)
  have "bt_get (reg_watchers r) (watcher_id w) = Some w" using Cons.prems(2) by simp
  from monitor_watcher_entry [OF st this] obtain w' es where
    others: "\<forall>k. k \<noteq> watcher_id w \<longrightarrow> bt_get (reg_watchers r1) k = bt_get (reg_watchers r) k \<and> bt_get ms1 k = bt_get ms k"
    and health: "js_healthy (reg_store r) \<longrightarrow> js_healthy (reg_store r1)"
    and own: "bt_get (reg_watchers r1) (watcher_id w) = Some w'" "sent1 = sent @ es" "decided (changeable r w) insp now ms w w' es"
    by blast
  have ne: "watcher_id v \<noteq> watcher_id w" if "v \<in> set ws" for v
  proof -
    have "watcher_id w \<notin> watcher_id ` set ws" using Cons.prems(1) by simp
    with that show ?thesis by (metis imageI)
  qed
  have stops: "own_stops k sent1 = own_stops k sent @ (if k = watcher_id w then es else [])" for k
    using own_stops_decided [OF own(3), of k] own(2) by (auto simp: own_stops_def)
  have ds: "distinct (map watcher_id ws)" using Cons.prems(1) by simp
  have en: "\<forall>v \<in> set ws. bt_get (reg_watchers r1) (watcher_id v) = Some v"
    using Cons.prems(2) others ne by simp
  have fo: "fold (monitor_watcher insp now) ws (r1, sent1, ms1) = (r', sent', ms')"
    using Cons.prems(3) st by simp
  note IH = Cons.IH [OF ds en fo]
  have "decided (changeable r v) insp now ms v v' xs" if "v \<in> set ws" "decided (changeable r1 v) insp now ms1 v v' xs" for v v' xs
  proof -
    have "changeable r v \<longrightarrow> changeable r1 v" using health by (simp add: changeable_def)
    with that others ne monitor_for_cong [of ms1 v ms] show ?thesis
      by (auto simp: decided_def split: lifecycle_decision.splits if_splits)
  qed
  with IH have rest: "\<forall>v \<in> set ws. \<exists>v' xs. bt_get (reg_watchers r') (watcher_id v) = Some v' \<and> decided (changeable r v) insp now ms v v' xs \<and>
      own_stops (watcher_id v) sent' = own_stops (watcher_id v) sent @ xs"
    using stops ne by fastforce
  have "watcher_id w \<notin> watcher_id ` set ws" using Cons.prems(1) by simp
  with IH own stops have here: "\<exists>w' es. bt_get (reg_watchers r') (watcher_id w) = Some w' \<and> decided (changeable r w) insp now ms w w' es \<and>
      own_stops (watcher_id w) sent' = own_stops (watcher_id w) sent @ es" by fastforce
  from IH others stops rest here show ?case by auto
qed simp

lemma ids_ok_values:
  assumes "ids_ok r"
  shows "distinct (map watcher_id (bt_values (reg_watchers r)))"
    "\<forall>w \<in> set (bt_values (reg_watchers r)). bt_get (reg_watchers r) (watcher_id w) = Some w"
    "bt_get (reg_watchers r) k = Some w \<Longrightarrow> w \<in> set (bt_values (reg_watchers r)) \<and> watcher_id w = k"
proof -
  have "map watcher_id (bt_values (reg_watchers r)) = map fst (reg_watchers r)"
    using assms by (auto simp: ids_ok_def)
  then show "distinct (map watcher_id (bt_values (reg_watchers r)))"
    using assms bt_wf_distinct [of "reg_watchers r"] unfolding ids_ok_def by argo
  show "\<forall>w \<in> set (bt_values (reg_watchers r)). bt_get (reg_watchers r) (watcher_id w) = Some w"
    using assms by (auto simp: ids_ok_def bt.get_entries)
  show "w \<in> set (bt_values (reg_watchers r)) \<and> watcher_id w = k" if "bt_get (reg_watchers r) k = Some w"
    using assms that by (force simp: ids_ok_def bt.get_entries)
qed

text \<open>C35: A pass of the monitor treats every watcher exactly as the decision of its own monitor says. A watcher whose
  process is given up is written as terminated, with the next revision, and the scheduler is told to stop it, once;
  a watcher whose process was replaced is written with the accepted process; an ended watcher, and one whose process
  is alive or within its grace period, is left as it was and nothing is sent. Only where the write of the change can
  fail (a failing file system, or a revision at its maximum) may a decided change be missing, and then the
  scheduler is told nothing either.\<close>

theorem monitor_pass_follows_decisions:
  assumes "ids_ok r" "bt_get (reg_watchers r) wid = Some w"
    and "monitor_process_lifecycles insp now r monitors = (r', sent, monitors')"
  shows "\<exists>w'. bt_get (reg_watchers r') wid = Some w' \<and>
    decided (changeable r w) insp now monitors w w' (own_stops wid sent)"
proof -
  have "own_stops wid [] = []" by (simp add: own_stops_def)
  with pass_entries [OF ids_ok_values(1,2) [OF assms(1)] assms(3) [unfolded monitor_process_lifecycles_def]]
    ids_ok_values(3) [OF assms(1,2)] show ?thesis by fastforce
qed

text \<open>A process identifier that now belongs to another process: the watcher must end.\<close>

definition reused_inspector :: inspector where
  "reused_inspector = \<lparr>inspect = (\<lambda>pid. Inr (synthetic pid 1 77 ''/bin/sh'')), processes_on_tty = (\<lambda>_. Inr [])\<rparr>"

lemma reused_decision:
  "snd (monitor_observe reused_inspector 5 (monitor_for [] example_watcher)) = Terminate"
  by code_simp

theorem monitor_pass_follows_decisions_witness:
  "\<exists>r' sent ms' w'. monitor_process_lifecycles reused_inspector 5 example_registry [] = (r', sent, ms') \<and>
     bt_get (reg_watchers r') ''w'' = Some w' \<and> ws_lifecycle w' = TargetTerminated \<and> own_stops ''w'' sent = [Stop ''w'']"
proof -
  have w: "bt_get (reg_watchers example_registry) ''w'' = Some example_watcher" by (simp add: example_registry_def)
  have ok: "changeable example_registry example_watcher" "\<not> lifecycle_ended (ws_lifecycle example_watcher)"
      "watcher_id example_watcher = ''w''"
    by (simp_all add: changeable_def js_healthy_def example_registry_def example_watcher_def watcher_state_new_def
        word_less_nat_alt unat_max_word)
  obtain r' sent ms' where run: "monitor_process_lifecycles reused_inspector 5 example_registry [] = (r', sent, ms')"
    by (metis prod_cases3)
  from monitor_pass_follows_decisions [OF example_registry_ids w run] ok reused_decision run show ?thesis
    by (auto simp: decided_def)
qed

definition active :: "registry \<Rightarrow> string \<Rightarrow> bool" where
  "active r wid = (case bt_get (reg_watchers r) wid of None \<Rightarrow> False | Some w \<Rightarrow> \<not> lifecycle_ended (ws_lifecycle w))"

lemma fold_own_stops:
  assumes "\<forall>e \<in> set es. \<exists>x. e = Stop x"
  shows "fold (concerns wid) es st = (if own_stops wid es = [] then st else None)"
  using assms by (induction es arbitrary: st) (auto simp: own_stops_def)

lemma monitor_watcher_stops:
  assumes "\<forall>e \<in> set sent. \<exists>x. e = Stop x"
  shows "\<forall>e \<in> set (fst (snd (monitor_watcher insp now w (r, sent, ms)))). \<exists>x. e = Stop x"
  using assms by (simp add: monitor_watcher_def Let_def split: prod.split sum.split lifecycle_decision.split)

lemma pass_stops:
  "\<forall>e \<in> set sent. \<exists>x. e = Stop x \<Longrightarrow> fold (monitor_watcher insp now) ws (r, sent, ms) = (r', sent', ms') \<Longrightarrow>
   \<forall>e \<in> set sent'. \<exists>x. e = Stop x"
proof (induction ws arbitrary: r sent ms)
  case (Cons w ws)
  obtain r1 sent1 ms1 where st: "monitor_watcher insp now w (r, sent, ms) = (r1, sent1, ms1)"
    by (metis prod_cases3)
  with monitor_watcher_stops [OF Cons.prems(1), of insp now w r ms] have "\<forall>e \<in> set sent1. \<exists>x. e = Stop x" by simp
  from Cons.IH [OF this] Cons.prems(2) st show ?case by simp
qed simp

text \<open>The scheduler keeps mirroring the registry: when it schedules exactly the watchers that have not ended, and
  the events of a monitor pass are handled, it again schedules exactly the watchers that have not ended.\<close>

theorem monitor_pass_keeps_scheduler_in_step:
  assumes "ids_ok r" "\<forall>wid. scheduled s wid \<noteq> None \<longleftrightarrow> active r wid"
    and "monitor_process_lifecycles insp now r monitors = (r', sent, monitors')"
  shows "scheduled (fold scheduler_handle sent s) wid \<noteq> None \<longleftrightarrow> active r' wid"
proof -
  note pass = assms(3) [unfolded monitor_process_lifecycles_def]
  have st: "\<forall>e \<in> set sent. \<exists>x. e = Stop x" by (rule pass_stops [OF _ pass]) simp
  note entries = pass_entries [OF ids_ok_values(1,2) [OF assms(1)] pass]
  have sch: "scheduled (fold scheduler_handle sent s) wid =
      (if own_stops wid sent = [] then scheduled s wid else None)"
    by (simp add: fold_handle_concerns fold_own_stops [OF st])
  show ?thesis
  proof (cases "bt_get (reg_watchers r) wid")
    case None
    then have "wid \<notin> watcher_id ` set (bt_values (reg_watchers r))"
      using ids_ok_values(2) [OF assms(1)] by force
    with entries have "bt_get (reg_watchers r') wid = None" "own_stops wid sent = []"
      using None by (simp_all add: own_stops_def)
    with sch assms(2) None show ?thesis by (simp add: active_def)
  next
    case (Some w)
    with entries ids_ok_values(3) [OF assms(1) Some] obtain w' es where
      w': "bt_get (reg_watchers r') wid = Some w'" "decided (changeable r w) insp now monitors w w' es" "own_stops wid sent = es"
      by (fastforce simp: own_stops_def)
    from w'(2) show ?thesis
      using sch w'(1,3) assms(2) Some
      by (auto simp: decided_def active_def split: lifecycle_decision.splits if_splits)
  qed
qed

theorem monitor_pass_keeps_scheduler_in_step_witness:
  "\<exists>r' sent ms'. monitor_process_lifecycles reused_inspector 5 example_registry [] = (r', sent, ms') \<and>
     (scheduled (fold scheduler_handle sent (scheduler_handle (Register ''w'') scheduler_start)) ''w'' \<noteq> None \<longleftrightarrow>
      active r' ''w'')"
proof -
  have "\<forall>wid. scheduled (scheduler_handle (Register ''w'') scheduler_start) wid \<noteq> None \<longleftrightarrow> active example_registry wid"
    by (auto simp: scheduler_start_def active_def example_registry_def example_watcher_def watcher_state_new_def)
  from monitor_pass_keeps_scheduler_in_step [OF example_registry_ids this] show ?thesis by (metis prod_cases3)
qed

text \<open>A new scheduler that has handled the events generated from the registry schedules exactly the watchers that
  have not ended, paused when the watcher is paused or waits for a human.\<close>

theorem new_scheduler_mirrors_registry:
  assumes "ids_ok r"
  shows "scheduled (fold scheduler_handle (scheduler_from_registry r) scheduler_start) wid =
    (case bt_get (reg_watchers r) wid of None \<Rightarrow> None
     | Some w \<Rightarrow> if lifecycle_ended (ws_lifecycle w) then None else Some (lifecycle_paused (ws_lifecycle w)))"
proof -
  have step: "fold (concerns wid) (registration_events v) st =
      (if watcher_id v = wid \<and> \<not> lifecycle_ended (ws_lifecycle v) then Some (lifecycle_paused (ws_lifecycle v)) else st)"
    for v st by (simp add: registration_events_def)
  have foreign: "fold (concerns wid) (concat (map registration_events ws)) st = st"
    if "wid \<notin> watcher_id ` set ws" for ws st
    using that by (induction ws) (auto simp: step)
  have own: "fold (concerns wid) (concat (map registration_events ws)) st =
      (if lifecycle_ended (ws_lifecycle w) then st else Some (lifecycle_paused (ws_lifecycle w)))"
    if "distinct (map watcher_id ws)" "w \<in> set ws" "watcher_id w = wid" for ws w st
    using that
  proof (induction ws arbitrary: st)
    case (Cons v ws)
    show ?case
    proof (cases "v = w")
      case True
      with Cons.prems foreign [of ws] show ?thesis by (simp add: step)
    next
      case False
      with Cons.prems have "w \<in> set ws" "watcher_id v \<noteq> wid" by force+
      with Cons show ?thesis by (simp add: step)
    qed
  qed simp
  show ?thesis
  proof (cases "bt_get (reg_watchers r) wid")
    case None
    then have "wid \<notin> watcher_id ` set (bt_values (reg_watchers r))"
      using ids_ok_values(2) [OF assms] by force
    with foreign [of "bt_values (reg_watchers r)" None] None show ?thesis
      by (simp add: fold_handle_concerns scheduler_from_registry_def scheduler_start_def)
  next
    case (Some w)
    with own [OF ids_ok_values(1) [OF assms], of w] ids_ok_values(3) [OF assms Some] show ?thesis
      by (simp add: fold_handle_concerns scheduler_from_registry_def scheduler_start_def)
  qed
qed

theorem new_scheduler_mirrors_registry_witness:
  "scheduled (fold scheduler_handle (scheduler_from_registry example_registry) scheduler_start) ''w'' = Some False"
  using new_scheduler_mirrors_registry [OF example_registry_ids, of "''w''"]
  by (simp add: example_registry_def example_watcher_def watcher_state_new_def)

end
