(* ===== verification/Strict_Json.thy ===== *)
theory Strict_Json
  imports Text
begin

text \<open>
  The JSON parser of the planner broker (\<open>src/src/planner/schema.rs\<close>), which rejects duplicate object keys
  at any depth. The parser's state is the input that is left. The recursion is bounded by fuel, and running out
  of it is a result of its own (\<open>OutOfFuel\<close>), which the entry point's fuel of twice the input length
  and two never meets. Decoding a string literal and a number, which \<open>serde_json\<close> does once their
  extent is known, are parameters.
\<close>

section \<open>Results\<close>

datatype 'a parsed = OutOfFuel | Rejected string | Parsed 'a string

fun pbind :: "'a parsed \<Rightarrow> ('a \<Rightarrow> string \<Rightarrow> 'b parsed) \<Rightarrow> 'b parsed" where
  "pbind OutOfFuel f = OutOfFuel"
| "pbind (Rejected e) f = Rejected e"
| "pbind (Parsed x s) f = f x s"

lemma pbind_Parsed_iff: "pbind m f = Parsed y t \<longleftrightarrow> (\<exists>x s. m = Parsed x s \<and> f x s = Parsed y t)"
  by (cases m) auto

lemma pbind_OutOfFuel_iff: "pbind m f = OutOfFuel \<longleftrightarrow> m = OutOfFuel \<or> (\<exists>x s. m = Parsed x s \<and> f x s = OutOfFuel)"
  by (cases m) auto

record decoders =
  decode_string :: "string \<Rightarrow> (string, string) result"
  decode_number :: "string \<Rightarrow> (string, json) result"

section \<open>The parser\<close>

text \<open>\<open>u8::is_ascii_whitespace\<close>, and the cursor operations.\<close>

definition skip_ws :: "string \<Rightarrow> string" where
  "skip_ws s = dropWhile is_ascii_space s"

definition peek :: "string \<Rightarrow> char option" where
  "peek s = (case s of [] \<Rightarrow> None | b # _ \<Rightarrow> Some b)"

definition bump :: "string \<Rightarrow> char parsed" where
  "bump s = (case s of [] \<Rightarrow> Rejected ''unexpected end of JSON'' | b # t \<Rightarrow> Parsed b t)"

text \<open>\<open>other as char\<close>: a byte above the ASCII range is the scalar value of that number, two bytes of UTF-8.\<close>

definition latin1_char :: "char \<Rightarrow> string" where
  "latin1_char b =
     (let x = byte_of b in if x < 128 then [b] else map char_of [192 + x div 64, 128 + x mod 64 :: nat])"

fun parse_literal :: "string \<Rightarrow> json \<Rightarrow> string \<Rightarrow> json parsed" where
  "parse_literal [] v s = Parsed v s"
| "parse_literal (b # expected) v s =
     pbind (bump s) (\<lambda>c t. if c \<noteq> b then Rejected ''invalid JSON literal'' else parse_literal expected v t)"

fun four_digits :: "nat \<Rightarrow> string \<Rightarrow> unit parsed" where
  "four_digits 0 s = Parsed () s"
| "four_digits (Suc n) s =
     pbind (bump s) (\<lambda>d t. if \<not> is_ascii_hexdigit d then Rejected ''invalid unicode escape'' else four_digits n t)"

text \<open>The extent of a string literal after its opening quote: the rest of the input after the closing one.\<close>

fun scan_string :: "nat \<Rightarrow> string \<Rightarrow> unit parsed" where
  "scan_string 0 s = OutOfFuel"
| "scan_string (Suc n) s =
     pbind (bump s) (\<lambda>b t.
       if b = CHR 0x22 then Parsed () t
       else if b = CHR 0x5C then
         pbind (bump t) (\<lambda>e u.
           if e = CHR ''u'' then pbind (four_digits 4 u) (\<lambda>_ w. scan_string n w) else scan_string n u)
       else if byte_of b < 32 then Rejected ''control character in string''
       else scan_string n t)"

definition parse_string :: "decoders \<Rightarrow> string \<Rightarrow> string parsed" where
  "parse_string d s =
     pbind (bump s) (\<lambda>b t.
       if b \<noteq> CHR 0x22 then Rejected ''expected string''
       else pbind (scan_string (Suc (length t)) t) (\<lambda>_ u.
         let literal = take (length s - length u) s in
         if \<not> utf8_valid literal then Rejected ''invalid utf-8 string''
         else case decode_string d literal of Inl e \<Rightarrow> Rejected e | Inr v \<Rightarrow> Parsed v u))"

definition digits :: "string \<Rightarrow> string" where
  "digits s = dropWhile is_ascii_digit s"

definition at_digit :: "string \<Rightarrow> bool" where
  "at_digit s = (s \<noteq> [] \<and> is_ascii_digit (hd s))"

definition number_sign :: "string \<Rightarrow> string" where
  "number_sign s = (if peek s = Some (CHR ''-'') then tl s else s)"

definition number_integer :: "string \<Rightarrow> unit parsed" where
  "number_integer s =
     (if peek s = Some (CHR ''0'') then Parsed () (tl s)
      else if at_digit s then Parsed () (digits s) else Rejected ''invalid number'')"

definition number_fraction :: "string \<Rightarrow> unit parsed" where
  "number_fraction s =
     (if peek s = Some (CHR ''.'')
      then (if \<not> at_digit (tl s) then Rejected ''invalid number'' else Parsed () (digits (tl s)))
      else Parsed () s)"

definition number_exponent :: "string \<Rightarrow> unit parsed" where
  "number_exponent s =
     (if peek s \<in> {Some (CHR ''e''), Some (CHR ''E'')}
      then let t = (if peek (tl s) \<in> {Some (CHR ''+''), Some (CHR ''-'')} then tl (tl s) else tl s) in
        if \<not> at_digit t then Rejected ''invalid exponent'' else Parsed () (digits t)
      else Parsed () s)"

definition parse_number :: "decoders \<Rightarrow> string \<Rightarrow> json parsed" where
  "parse_number d s =
     pbind (number_integer (number_sign s)) (\<lambda>_ t.
     pbind (number_fraction t) (\<lambda>_ u.
     pbind (number_exponent u) (\<lambda>_ w.
     case decode_number d (take (length s - length w) s) of
       Inl e \<Rightarrow> Rejected e | Inr v \<Rightarrow> Parsed v w)))"

text \<open>\<open>parse_object\<close> and \<open>parse_array\<close> are entered after their opening byte was seen, which they consume; the
  loops over members and items are functions of their own.\<close>

fun parse_value :: "decoders \<Rightarrow> nat \<Rightarrow> string \<Rightarrow> json parsed"
  and parse_members :: "decoders \<Rightarrow> nat \<Rightarrow> json btree \<Rightarrow> string \<Rightarrow> json parsed"
  and parse_items :: "decoders \<Rightarrow> nat \<Rightarrow> json list \<Rightarrow> string \<Rightarrow> json parsed" where
  "parse_value d 0 s0 = OutOfFuel"
| "parse_value d (Suc n) s0 =
     (let s = skip_ws s0 in
      case peek s of
        None \<Rightarrow> Rejected ''empty JSON''
      | Some b \<Rightarrow>
          if b = CHR 0x7B then
            let t = skip_ws (tl s) in
            if peek t = Some (CHR 0x7D) then Parsed (JObject []) (tl t) else parse_members d n [] t
          else if b = CHR 0x5B then
            let t = skip_ws (tl s) in
            if peek t = Some (CHR 0x5D) then Parsed (JArray []) (tl t) else parse_items d n [] t
          else if b = CHR 0x22 then pbind (parse_string d s) (\<lambda>v t. Parsed (JString v) t)
          else if b = CHR ''t'' then parse_literal ''true'' (JBool True) s
          else if b = CHR ''f'' then parse_literal ''false'' (JBool False) s
          else if b = CHR ''n'' then parse_literal ''null'' JNull s
          else if b = CHR ''-'' \<or> is_ascii_digit b then parse_number d s
          else Rejected (''unexpected JSON byte '' @ latin1_char b))"
| "parse_members d 0 m s0 = OutOfFuel"
| "parse_members d (Suc n) m s0 =
     (let s = skip_ws s0 in
      if peek s \<noteq> Some (CHR 0x22) then Rejected ''object key must be a string''
      else pbind (parse_string d s) (\<lambda>key t.
        if bt_contains m key then Rejected (''duplicate key: '' @ key)
        else pbind (bump (skip_ws t)) (\<lambda>colon u.
          if colon \<noteq> CHR '':'' then Rejected ''expected ':' after object key''
          else pbind (parse_value d n u) (\<lambda>v w.
            let m1 = bt_insert key v m in
            pbind (bump (skip_ws w)) (\<lambda>sep x.
              if sep = CHR '','' then parse_members d n m1 x
              else if sep = CHR 0x7D then Parsed (JObject m1) x
              else Rejected ''expected ',' or '}' in object'')))))"
| "parse_items d 0 items s = OutOfFuel"
| "parse_items d (Suc n) items s =
     pbind (parse_value d n s) (\<lambda>v t.
       pbind (bump (skip_ws t)) (\<lambda>sep u.
         if sep = CHR '','' then parse_items d n (items @ [v]) u
         else if sep = CHR 0x5D then Parsed (JArray (items @ [v])) u
         else Rejected ''expected ',' or ']' in array''))"

definition parse_rejecting_duplicates :: "decoders \<Rightarrow> string \<Rightarrow> (string, json) result option" where
  "parse_rejecting_duplicates d input =
     (case parse_value d (2 * length input + 2) input of
        OutOfFuel \<Rightarrow> None
      | Rejected e \<Rightarrow> Some (Inl e)
      | Parsed v s \<Rightarrow> Some (if skip_ws s \<noteq> [] then Inl ''trailing data after JSON value'' else Inr v))"

section \<open>Every parse ends\<close>

text \<open>A parse that returns, leaving at least \<open>k\<close> bytes less when it succeeds.\<close>

definition ends :: "nat \<Rightarrow> string \<Rightarrow> 'a parsed \<Rightarrow> bool" where
  "ends k s m \<longleftrightarrow> m \<noteq> OutOfFuel \<and> (\<forall>v t. m = Parsed v t \<longrightarrow> length t + k \<le> length s)"

lemma ends_simps [simp]:
  "ends k s (Rejected e)" "ends k s (Parsed v t) \<longleftrightarrow> length t + k \<le> length s" "\<not> ends k s OutOfFuel"
  by (auto simp: ends_def)

lemma ends_bind:
  assumes "ends k s m" "\<And>x t. m = Parsed x t \<Longrightarrow> length t + k \<le> length s \<Longrightarrow> ends j t (f x t)" "i \<le> k + j"
  shows "ends i s (pbind m f)"
proof (cases m)
  case (Parsed x t)
  with assms(1) have "length t + k \<le> length s" by simp
  with assms(2) [OF Parsed] assms(3) Parsed show ?thesis by (fastforce simp: ends_def)
qed (use assms in simp_all)

lemma ends_if: "(P \<Longrightarrow> ends k s a) \<Longrightarrow> (\<not> P \<Longrightarrow> ends k s b) \<Longrightarrow> ends k s (if P then a else b)"
  by simp

lemma ends_weaken: "ends k s m \<Longrightarrow> length s + j \<le> length u + k \<Longrightarrow> ends j u m"
  by (fastforce simp: ends_def)

lemma length_skip_ws [simp]: "length (skip_ws s) \<le> length s"
  by (simp add: skip_ws_def length_dropWhile_le)

lemma ends_bump: "ends 1 s (bump s)"
  by (cases s) (simp_all add: bump_def)

lemma ends_bump_ws: "ends 1 s (bump (skip_ws s))"
  using ends_bump [of "skip_ws s"] by (rule ends_weaken) simp

lemma ends_literal: "ends (length e) s (parse_literal e v s)"
proof (induction e arbitrary: s)
  case (Cons b e)
  show ?case unfolding parse_literal.simps
    by (rule ends_bind [OF ends_bump, where j = "length e"]) (use Cons in simp_all)
qed simp

lemma ends_four_digits: "ends n s (four_digits n s)"
proof (induction n arbitrary: s)
  case (Suc n)
  show ?case unfolding four_digits.simps
    by (rule ends_bind [OF ends_bump, where j = n]) (use Suc in simp_all)
qed simp

lemma ends_scan_string: "length s < n \<Longrightarrow> ends 1 s (scan_string n s)"
proof (induction n arbitrary: s)
  case (Suc n)
  have IH: "ends 0 t (scan_string n t)" if "length t < n" for t
    using Suc.IH [OF that] by (rule ends_weaken) simp
  show ?case unfolding scan_string.simps
  proof (rule ends_bind [OF ends_bump, where j = 0])
    fix b :: char and t :: string assume t: "length t + 1 \<le> length s"
    have esc: "ends 0 t (pbind (bump t) (\<lambda>e u.
        if e = CHR ''u'' then pbind (four_digits 4 u) (\<lambda>_ w. scan_string n w) else scan_string n u))"
    proof (rule ends_bind [OF ends_bump, where j = 0])
      fix e :: char and u :: string assume u: "length u + 1 \<le> length t"
      have "ends 0 u (pbind (four_digits 4 u) (\<lambda>_ w. scan_string n w))"
        by (rule ends_bind [OF ends_four_digits, where j = 0]) (use t u Suc.prems IH in auto)
      with IH [of u] t u Suc.prems show
        "ends 0 u (if e = CHR ''u'' then pbind (four_digits 4 u) (\<lambda>_ w. scan_string n w) else scan_string n u)"
        by auto
    qed simp
    with IH [of t] t Suc.prems show "ends 0 t
        (if b = CHR 0x22 then Parsed () t
         else if b = CHR 0x5C then pbind (bump t) (\<lambda>e u.
           if e = CHR ''u'' then pbind (four_digits 4 u) (\<lambda>_ w. scan_string n w) else scan_string n u)
         else if byte_of b < 32 then Rejected ''control character in string''
         else scan_string n t)" by simp
  qed simp
qed simp

lemma ends_parse_string: "ends 2 s (parse_string d s)"
  unfolding parse_string_def
proof (rule ends_bind [OF ends_bump, where j = 1])
  fix b :: char and t :: string
  have "ends 1 t (pbind (scan_string (Suc (length t)) t) (\<lambda>_ u.
      let literal = take (length s - length u) s in
      if \<not> utf8_valid literal then Rejected ''invalid utf-8 string''
      else case decode_string d literal of Inl e \<Rightarrow> Rejected e | Inr v \<Rightarrow> Parsed v u))"
    by (rule ends_bind [OF ends_scan_string, where j = 0]) (simp_all add: Let_def split: sum.split)
  then show "ends 1 t (if b \<noteq> CHR 0x22 then Rejected ''expected string''
      else pbind (scan_string (Suc (length t)) t) (\<lambda>_ u.
        let literal = take (length s - length u) s in
        if \<not> utf8_valid literal then Rejected ''invalid utf-8 string''
        else case decode_string d literal of Inl e \<Rightarrow> Rejected e | Inr v \<Rightarrow> Parsed v u))" by simp
qed simp

lemma digits_ends: "at_digit s \<Longrightarrow> length (digits s) < length s"
  by (cases s) (auto simp: at_digit_def digits_def le_imp_less_Suc length_dropWhile_le)

lemma ends_number_parts:
  "ends 1 s (number_integer s)" "ends 0 s (number_fraction s)" "ends 0 s (number_exponent s)"
proof -
  show "ends 1 s (number_integer s)"
    using digits_ends [of s] by (cases s) (auto simp: number_integer_def peek_def)
  show "ends 0 s (number_fraction s)"
    using digits_ends [of "tl s"] by (auto simp: number_fraction_def)
  show "ends 0 s (number_exponent s)"
    using digits_ends [of "tl s"] digits_ends [of "tl (tl s)"] by (auto simp: number_exponent_def Let_def)
qed

lemma ends_parse_number: "ends 1 s (parse_number d s)"
  unfolding parse_number_def
proof (rule ends_bind [where j = 0])
  show "ends 1 s (number_integer (number_sign s))"
    using ends_number_parts(1) by (rule ends_weaken) (simp add: number_sign_def)
  fix x :: unit and t :: string
  show "ends 0 t (pbind (number_fraction t) (\<lambda>_ u. pbind (number_exponent u) (\<lambda>_ w.
      case decode_number d (take (length s - length w) s) of Inl e \<Rightarrow> Rejected e | Inr v \<Rightarrow> Parsed v w)))"
    by (rule ends_bind [OF ends_number_parts(2), where j = 0],
        rule ends_bind [OF ends_number_parts(3), where j = 0]) (simp_all split: sum.split)
qed simp

lemma ends_members_step:
  assumes v: "\<And>t. 2 * length t < n \<Longrightarrow> ends 1 t (parse_value d n t)"
    and m: "\<And>t m. 2 * length t < n \<Longrightarrow> ends 1 t (parse_members d n m t)"
    and len: "2 * length s < Suc n"
  shows "ends 1 s (parse_members d (Suc n) m s)"
proof -
  have last: "ends 0 w (pbind (bump (skip_ws w)) (\<lambda>sep x.
      if sep = CHR '','' then parse_members d n m1 x
      else if sep = CHR 0x7D then Parsed (JObject m1) x else Rejected ''expected ',' or '}' in object''))"
    if "length w + 4 \<le> length s" for w m1
  proof (rule ends_bind [OF ends_bump_ws, where j = 0])
    fix sep :: char and x :: string assume "length x + 1 \<le> length w"
    then have "ends 1 x (parse_members d n m1 x)" using m that len by simp
    then have "ends 0 x (parse_members d n m1 x)" by (rule ends_weaken) simp
    then show "ends 0 x (if sep = CHR '','' then parse_members d n m1 x
      else if sep = CHR 0x7D then Parsed (JObject m1) x else Rejected ''expected ',' or '}' in object'')" by simp
  qed simp
  have val: "ends 0 u (pbind (parse_value d n u) (\<lambda>v w. let m1 = bt_insert key v m in
      pbind (bump (skip_ws w)) (\<lambda>sep x.
      if sep = CHR '','' then parse_members d n m1 x
      else if sep = CHR 0x7D then Parsed (JObject m1) x else Rejected ''expected ',' or '}' in object'')))"
    if "length u + 3 \<le> length s" for u key
    by (rule ends_bind [OF v, where j = 0]) (use that len last in \<open>simp_all add: Let_def\<close>)
  have colon: "ends 0 t (pbind (bump (skip_ws t)) (\<lambda>colon u.
      if colon \<noteq> CHR '':'' then Rejected ''expected ':' after object key''
      else pbind (parse_value d n u) (\<lambda>v w. let m1 = bt_insert key v m in
      pbind (bump (skip_ws w)) (\<lambda>sep x.
      if sep = CHR '','' then parse_members d n m1 x
      else if sep = CHR 0x7D then Parsed (JObject m1) x else Rejected ''expected ',' or '}' in object''))))"
    if "length t + 2 \<le> length s" for t key
    by (rule ends_bind [OF ends_bump_ws, where j = 0]) (use that val in simp_all)
  have str: "ends 2 s (parse_string d (skip_ws s))"
    using ends_parse_string by (rule ends_weaken) simp
  show ?thesis
    unfolding parse_members.simps Let_def
    by (cases "peek (skip_ws s) \<noteq> Some (CHR 0x22)", simp, simp only: if_False,
        rule ends_bind [OF str, where j = 0]) (use colon [unfolded Let_def] in simp_all)
qed

lemma ends_items_step:
  assumes v: "\<And>t. 2 * length t < n \<Longrightarrow> ends 1 t (parse_value d n t)"
    and i: "\<And>t items. 2 * length t + 1 < n \<Longrightarrow> ends 1 t (parse_items d n items t)"
    and len: "2 * length s + 1 < Suc n"
  shows "ends 1 s (parse_items d (Suc n) items s)"
proof -
  have last: "ends 0 t (pbind (bump (skip_ws t)) (\<lambda>sep u.
      if sep = CHR '','' then parse_items d n items1 u
      else if sep = CHR 0x5D then Parsed (JArray items1) u else Rejected ''expected ',' or ']' in array''))"
    if "length t + 1 \<le> length s" for t items1
  proof (rule ends_bind [OF ends_bump_ws, where j = 0])
    fix sep :: char and u :: string assume "length u + 1 \<le> length t"
    then have "ends 1 u (parse_items d n items1 u)" using i that len by simp
    then have "ends 0 u (parse_items d n items1 u)" by (rule ends_weaken) simp
    then show "ends 0 u (if sep = CHR '','' then parse_items d n items1 u
      else if sep = CHR 0x5D then Parsed (JArray items1) u else Rejected ''expected ',' or ']' in array'')" by simp
  qed simp
  show ?thesis unfolding parse_items.simps
    by (rule ends_bind [OF v, where j = 0]) (use len last in simp_all)
qed

lemma ends_value_step:
  assumes m: "\<And>t m. 2 * length t < n \<Longrightarrow> ends 1 t (parse_members d n m t)"
    and i: "\<And>t items. 2 * length t + 1 < n \<Longrightarrow> ends 1 t (parse_items d n items t)"
    and len: "2 * length s0 < Suc n"
  shows "ends 1 s0 (parse_value d (Suc n) s0)"
proof (cases "skip_ws s0")
  case Nil
  then show ?thesis by (simp add: peek_def)
next
  case (Cons b r)
  let ?s = "b # r"
  have ls: "length ?s \<le> length s0" using length_skip_ws [of s0] by (simp add: Cons)
  let ?t = "skip_ws r"
  have lt: "length ?t + 1 \<le> length s0" using length_skip_ws [of r] ls by (simp del: length_skip_ws)
  have obj: "ends 1 s0 (parse_members d n [] ?t)" "ends 1 s0 (parse_items d n [] ?t)"
    using m [of ?t "[]"] i [of ?t "[]"] lt len by (auto elim: ends_weaken)
  have str: "ends 1 s0 (pbind (parse_string d ?s) (\<lambda>v t. Parsed (JString v) t))"
    by (rule ends_bind [OF ends_weaken [OF ends_parse_string], where k = 1 and j = 0]) (use ls in simp_all)
  have lit: "ends 1 s0 (parse_literal e v ?s)" if "e \<noteq> []" for e v
    using ends_literal by (rule ends_weaken) (use that ls in \<open>cases e, auto\<close>)
  have num: "ends 1 s0 (parse_number d ?s)" using ends_parse_number by (rule ends_weaken) (use ls in simp)
  have empty: "ends 1 s0 (Parsed v (tl ?t))" for v :: json using lt by simp
  show ?thesis
    unfolding parse_value.simps Let_def Cons peek_def list.case option.case list.sel
    by (intro ends_if obj str lit num empty ends_simps(1)) simp_all
qed

lemma ends_parse:
  "(2 * length s < n \<longrightarrow> ends 1 s (parse_value d n s)) \<and>
   (2 * length s < n \<longrightarrow> ends 1 s (parse_members d n m s)) \<and>
   (2 * length s + 1 < n \<longrightarrow> ends 1 s (parse_items d n items s))"
proof (induction n arbitrary: s m items)
  case (Suc n)
  then show ?case using ends_value_step [of n d] ends_members_step [of n d] ends_items_step [of n d] by blast
qed simp

text \<open>The strict parser returns on every input: with the fuel of its entry point the recursion never runs out, so
  each input is accepted with a value or rejected with a reason.\<close>

theorem strict_parser_returns: "\<exists>r. parse_rejecting_duplicates d input = Some r"
proof -
  have "ends 1 input (parse_value d (2 * length input + 2) input)" using ends_parse [of input "2 * length input + 2" d] by (simp del: parse_value.simps)
  then show ?thesis
    by (cases "parse_value d (2 * length input + 2) input")
      (simp_all add: parse_rejecting_duplicates_def del: parse_value.simps)
qed

end
