(* ===== verification/Strict_Json_Properties.thy ===== *)
theory Strict_Json_Properties
  imports Strict_Json
begin

text \<open>
  The strict parser against the grammar of JSON. A relation says which texts spell a value: all of JSON, with
  numbers, escapes, UTF-8 and whitespace, objects with their members in the order of the text and with repeated
  keys. Every such text is read back, with the members of objects in key order, exactly when no object in the
  value, at any depth, has a key twice; otherwise the parse is rejected with a duplicate key as the reason. Keys
  are compared after decoding, as the code does; the two decoders of \<open>serde_json\<close> are parameters, and a literal
  they refuse spells nothing.
\<close>

section \<open>Literals\<close>

definition spaces :: "string \<Rightarrow> bool" where
  "spaces w = list_all is_ascii_space w"

definition quoted :: "string \<Rightarrow> string" where
  "quoted s = CHR 0x22 # s @ [CHR 0x22]"

text \<open>What may stand between the quotes: no raw quote and no raw control byte, a backslash only before another byte,
  and before the letter u only with four hexadecimal digits after it.\<close>

function string_body :: "string \<Rightarrow> bool" where
  "string_body [] = True"
| "string_body (c # s) =
     (if c = CHR 0x22 then False
      else if c = CHR 0x5C then
        (case s of [] \<Rightarrow> False
         | e # u \<Rightarrow>
             if e = CHR ''u'' then 4 \<le> length u \<and> list_all is_ascii_hexdigit (take 4 u) \<and> string_body (drop 4 u)
             else string_body u)
      else 32 \<le> byte_of c \<and> string_body s)"
  by pat_completeness auto
termination by (relation "measure length") auto

definition some_digits :: "string \<Rightarrow> bool" where
  "some_digits s \<longleftrightarrow> s \<noteq> [] \<and> list_all is_ascii_digit s"

text \<open>A number: a sign, an integer without leading zeros, a fraction and an exponent, all but the integer optional.\<close>

definition integer_part :: "string \<Rightarrow> bool" where
  "integer_part s \<longleftrightarrow> s = ''0'' \<or> some_digits s \<and> hd s \<noteq> CHR ''0''"

definition fraction_part :: "string \<Rightarrow> bool" where
  "fraction_part s \<longleftrightarrow> s = [] \<or> hd s = CHR ''.'' \<and> some_digits (tl s)"

definition exponent_part :: "string \<Rightarrow> bool" where
  "exponent_part s \<longleftrightarrow> s = [] \<or> (\<exists>e sign ds. s = e # sign @ ds \<and> e \<in> {CHR ''e'', CHR ''E''} \<and>
     sign \<in> {[], ''+'', ''-''} \<and> some_digits ds)"

definition number_literal :: "string \<Rightarrow> bool" where
  "number_literal l \<longleftrightarrow> (\<exists>sign i f e. l = sign @ i @ f @ e \<and> sign \<in> {[], ''-''} \<and>
     integer_part i \<and> fraction_part f \<and> exponent_part e)"

section \<open>Texts\<close>

text \<open>Which texts spell a value, the items of an array up to its closing bracket, and the members of an object up to
  its closing brace.\<close>

inductive spells :: "decoders \<Rightarrow> json \<Rightarrow> string \<Rightarrow> bool"
  and spells_items :: "decoders \<Rightarrow> json list \<Rightarrow> string \<Rightarrow> bool"
  and spells_members :: "decoders \<Rightarrow> (string \<times> json) list \<Rightarrow> string \<Rightarrow> bool"
  for d :: decoders where
  spell_null: "spaces w \<Longrightarrow> spells d JNull (w @ ''null'')"
| spell_true: "spaces w \<Longrightarrow> spells d (JBool True) (w @ ''true'')"
| spell_false: "spaces w \<Longrightarrow> spells d (JBool False) (w @ ''false'')"
| spell_number: "spaces w \<Longrightarrow> number_literal l \<Longrightarrow> decode_number d l = Inr (JNumber x) \<Longrightarrow> spells d (JNumber x) (w @ l)"
| spell_string: "spaces w \<Longrightarrow> string_body b \<Longrightarrow> utf8_valid (quoted b) \<Longrightarrow> decode_string d (quoted b) = Inr v \<Longrightarrow>
    spells d (JString v) (w @ quoted b)"
| spell_empty_array: "spaces w \<Longrightarrow> spaces w' \<Longrightarrow> spells d (JArray []) (w @ CHR 0x5B # w' @ [CHR 0x5D])"
| spell_array: "spaces w \<Longrightarrow> spells_items d xs s \<Longrightarrow> spells d (JArray xs) (w @ CHR 0x5B # s)"
| spell_empty_object: "spaces w \<Longrightarrow> spaces w' \<Longrightarrow> spells d (JObject []) (w @ CHR 0x7B # w' @ [CHR 0x7D])"
| spell_object: "spaces w \<Longrightarrow> spells_members d m s \<Longrightarrow> spells d (JObject m) (w @ CHR 0x7B # s)"
| spell_last_item: "spells d x s \<Longrightarrow> spaces w \<Longrightarrow> spells_items d [x] (s @ w @ [CHR 0x5D])"
| spell_item: "spells d x s \<Longrightarrow> spaces w \<Longrightarrow> spells_items d xs u \<Longrightarrow> spells_items d (x # xs) (s @ w @ CHR '','' # u)"
| spell_last_member: "spaces w1 \<Longrightarrow> string_body b \<Longrightarrow> utf8_valid (quoted b) \<Longrightarrow> decode_string d (quoted b) = Inr k \<Longrightarrow>
    spaces w2 \<Longrightarrow> spells d v s \<Longrightarrow> spaces w3 \<Longrightarrow>
    spells_members d [(k, v)] (w1 @ quoted b @ w2 @ CHR '':'' # s @ w3 @ [CHR 0x7D])"
| spell_member: "spaces w1 \<Longrightarrow> string_body b \<Longrightarrow> utf8_valid (quoted b) \<Longrightarrow> decode_string d (quoted b) = Inr k \<Longrightarrow>
    spaces w2 \<Longrightarrow> spells d v s \<Longrightarrow> spaces w3 \<Longrightarrow> spells_members d m u \<Longrightarrow>
    spells_members d ((k, v) # m) (w1 @ quoted b @ w2 @ CHR '':'' # s @ w3 @ CHR '','' # u)"

fun unique_keys :: "json \<Rightarrow> bool" where
  "unique_keys (JArray xs) = list_all unique_keys xs"
| "unique_keys (JObject m) = (distinct (map fst m) \<and> list_all (\<lambda>(k, v). unique_keys v) m)"
| "unique_keys _ = True"

fun in_key_order :: "json \<Rightarrow> json" where
  "in_key_order (JArray xs) = JArray (map in_key_order xs)"
| "in_key_order (JObject m) = JObject (bt_from_list (map (\<lambda>(k, v). (k, in_key_order v)) m))"
| "in_key_order v = v"

section \<open>Whitespace\<close>

lemma bump_Cons [simp]: "bump (c # s) = Parsed c s"
  by (simp add: bump_def)

lemma peek_Cons [simp]: "peek (c # s) = Some c"
  by (simp add: peek_def)

lemma skip_ws_other: "c \<notin> {CHR 0x09, CHR 0x0A, CHR 0x0C, CHR 0x0D, CHR 0x20} \<Longrightarrow> skip_ws (c # s) = c # s"
proof -
  assume c: "c \<notin> {CHR 0x09, CHR 0x0A, CHR 0x0C, CHR 0x0D, CHR 0x20}"
  have "is_ascii_space c \<longleftrightarrow> c \<in> {CHR 0x09, CHR 0x0A, CHR 0x0C, CHR 0x0D, CHR 0x20}"
    unfolding is_ascii_space_def by (cases c) (auto simp: of_char_def)
  with c show ?thesis by (simp add: skip_ws_def)
qed

lemma skip_spaces [simp]: "spaces w \<Longrightarrow> skip_ws (w @ s) = skip_ws s"
  by (simp add: skip_ws_def spaces_def list_all_iff)

lemma skip_all_spaces [simp]: "spaces w \<Longrightarrow> skip_ws w = []"
  by (simp add: skip_ws_def spaces_def list_all_iff)

lemma skip_ws_nonspace: "\<not> is_ascii_space c \<Longrightarrow> skip_ws (c # s) = c # s"
  by (simp add: skip_ws_def)

lemma skip_skip [simp]: "skip_ws (skip_ws s) = skip_ws s"
  by (simp add: skip_ws_def)

lemma skip_quoted [simp]: "skip_ws (quoted k @ t) = quoted k @ t"
  by (simp add: quoted_def skip_ws_other)

lemma skip_punctuation [simp]:
  "skip_ws (CHR '','' # s) = CHR '','' # s" "skip_ws (CHR '':'' # s) = CHR '':'' # s"
  "skip_ws (CHR 0x5D # s) = CHR 0x5D # s" "skip_ws (CHR 0x7D # s) = CHR 0x7D # s"
  "skip_ws (CHR 0x5B # s) = CHR 0x5B # s" "skip_ws (CHR 0x7B # s) = CHR 0x7B # s"
  by (simp_all add: skip_ws_other)

lemma skip_ws_append: "skip_ws s = c # r \<Longrightarrow> skip_ws (s @ t) = c # r @ t"
  by (induction s) (auto simp: skip_ws_def split: if_splits)

lemma parse_value_ws: "parse_value d n (skip_ws s) = parse_value d n s"
  by (cases n) (simp_all add: Let_def)

lemma parse_items_ws: "parse_items d n items (skip_ws s) = parse_items d n items s"
  by (cases n) (simp_all add: parse_value_ws del: parse_value.simps)

lemma parse_members_ws: "parse_members d n m (skip_ws s) = parse_members d n m s"
  by (cases n) (simp_all add: Let_def del: parse_value.simps)

section \<open>Scanning literals\<close>

lemma four_hexdigits:
  "k \<le> length u \<Longrightarrow> list_all is_ascii_hexdigit (take k u) \<Longrightarrow> four_digits k (u @ t) = Parsed () (drop k u @ t)"
proof (induction k arbitrary: u)
  case (Suc k)
  then obtain c v where "u = c # v" by (cases u) auto
  with Suc show ?case by simp
qed simp

lemma scan_body: "string_body b \<Longrightarrow> length b < n \<Longrightarrow> scan_string n (b @ CHR 0x22 # t) = Parsed () t"
proof (induction b arbitrary: n rule: string_body.induct)
  case 1
  then show ?case by (cases n) simp_all
next
  case (2 c s)
  obtain m where n: "n = Suc m" using 2(5) by (cases n) simp_all
  show ?case
  proof (cases "c = CHR 0x5C")
    case True
    then obtain e u where s: "s = e # u" using 2(4) by (cases s) simp_all
    show ?thesis
    proof (cases "e = CHR ''u''")
      case u: True
      have "scan_string m (drop 4 u @ CHR 0x22 # t) = Parsed () t"
        using 2(1) [OF _ True s u, of m] 2(4,5) True s u n by simp
      with four_hexdigits [of 4 u "CHR 0x22 # t"] 2(4) True s u n show ?thesis by simp
    next
      case False
      with 2(2) [OF _ True s False, of m] 2(4,5) True s n show ?thesis by simp
    qed
  next
    case False
    with 2(3) [of m] 2(4,5) n show ?thesis by (simp split: if_splits)
  qed
qed

lemma parse_quoted:
  assumes "string_body b" "utf8_valid (quoted b)" "decode_string d (quoted b) = Inr v"
  shows "parse_string d (quoted b @ t) = Parsed v t"
proof -
  have "take (length (quoted b @ t) - length t) (quoted b @ t) = quoted b" by simp
  moreover have "scan_string (Suc (length (b @ CHR 0x22 # t))) (b @ CHR 0x22 # t) = Parsed () t"
    by (rule scan_body [OF assms(1)]) simp
  ultimately show ?thesis
    using assms by (simp add: parse_string_def quoted_def Let_def del: scan_string.simps)
qed

text \<open>What may follow a number.\<close>

fun stops :: "string \<Rightarrow> bool" where
  "stops [] = True"
| "stops (c # s) = (\<not> is_ascii_digit c \<and> c \<notin> {CHR ''.'', CHR ''e'', CHR ''E''})"

lemma stops_spaces: "spaces w \<Longrightarrow> stops t \<Longrightarrow> stops (w @ t)"
proof (cases w)
  case (Cons c u)
  assume "spaces w"
  with Cons have "is_ascii_space c" by (simp add: spaces_def)
  then show ?thesis by (auto simp: Cons is_ascii_space_def is_ascii_digit_def)
qed simp

lemma some_digits_scan:
  assumes "some_digits ds" "t = [] \<or> \<not> is_ascii_digit (hd t)"
  shows "at_digit (ds @ t)" "digits (ds @ t) = t"
  using assms by (auto simp: some_digits_def at_digit_def digits_def list_all_iff dropWhile_append2 dropWhile_eq_self_iff)

lemma scan_integer:
  assumes "integer_part i" "t = [] \<or> \<not> is_ascii_digit (hd t)"
  shows "number_integer (i @ t) = Parsed () t"
proof (cases "i = ''0''")
  case False
  then obtain c r where "i = c # r" "c \<noteq> CHR ''0''" "some_digits i"
    using assms(1) by (cases i) (auto simp: integer_part_def some_digits_def)
  with some_digits_scan [OF this(3) assms(2)] show ?thesis by (simp add: number_integer_def)
qed (simp add: number_integer_def)

lemma scan_fraction:
  assumes "fraction_part f" "t = [] \<or> \<not> is_ascii_digit (hd t) \<and> hd t \<noteq> CHR ''.''"
  shows "number_fraction (f @ t) = Parsed () t"
proof (cases f)
  case Nil
  with assms(2) show ?thesis by (cases t) (simp_all add: number_fraction_def peek_def)
next
  case (Cons c r)
  with assms(1) have "c = CHR ''.''" "some_digits r" by (simp_all add: fraction_part_def)
  with Cons some_digits_scan [of r t] assms(2) show ?thesis by (auto simp: number_fraction_def)
qed

lemma scan_exponent:
  assumes "exponent_part e" "stops t"
  shows "number_exponent (e @ t) = Parsed () t"
proof (cases "e = []")
  case True
  with assms(2) show ?thesis by (cases t) (auto simp: number_exponent_def peek_def)
next
  case False
  with assms(1) obtain c sign ds where e: "e = c # sign @ ds" "c \<in> {CHR ''e'', CHR ''E''}" "sign \<in> {[], ''+'', ''-''}"
      "some_digits ds" by (auto simp: exponent_part_def)
  have scan: "at_digit (ds @ t)" "digits (ds @ t) = t"
    using some_digits_scan [OF e(4), of t] assms(2) by (cases t; simp)+
  have "peek (ds @ t) \<notin> {Some (CHR ''+''), Some (CHR ''-'')}"
    using e(4) by (cases ds) (auto simp: some_digits_def is_ascii_digit_def)
  with scan e show ?thesis by (auto simp: number_exponent_def Let_def)
qed

lemma parse_number_literal:
  assumes "number_literal l" "decode_number d l = Inr v" "stops t"
  shows "parse_number d (l @ t) = Parsed v t"
proof -
  obtain sign i f e where l: "l = sign @ i @ f @ e" "sign \<in> {[], ''-''}" "integer_part i" "fraction_part f" "exponent_part e"
    using assms(1) by (auto simp: number_literal_def)
  have dot: "\<not> is_ascii_digit (CHR ''.'')" and exp: "\<not> is_ascii_digit (CHR ''e'')" "\<not> is_ascii_digit (CHR ''E'')"
    by (simp_all add: is_ascii_digit_def)
  have e: "e @ t = [] \<or> \<not> is_ascii_digit (hd (e @ t)) \<and> hd (e @ t) \<noteq> CHR ''.''"
    using l(5) assms(3) exp by (cases t) (auto simp: exponent_part_def)
  then have f: "f @ e @ t = [] \<or> \<not> is_ascii_digit (hd (f @ e @ t))"
    using l(4) dot by (cases f) (auto simp: fraction_part_def)
  have "number_sign (l @ t) = i @ f @ e @ t"
    using l(2,3) by (cases i) (auto simp: l(1) number_sign_def integer_part_def some_digits_def is_ascii_digit_def)
  then show ?thesis
    using assms(2) scan_integer [OF l(3) f] scan_fraction [OF l(4) e] scan_exponent [OF l(5) assms(3)]
    by (simp add: parse_number_def)
qed

section \<open>Reading values\<close>

text \<open>The result of a parse of something spelled: a value and the rest, or a duplicate key.\<close>

definition outcome :: "bool \<Rightarrow> json \<Rightarrow> string \<Rightarrow> json parsed \<Rightarrow> bool" where
  "outcome u v t m \<longleftrightarrow> (if u then m = Parsed v t else \<exists>k. m = Rejected (''duplicate key: '' @ k))"

lemma outcome_Parsed [simp]: "outcome True v t m \<longleftrightarrow> m = Parsed v t"
  by (simp add: outcome_def)

lemma outcome_bind:
  assumes "outcome u v t m" "u \<Longrightarrow> outcome w x y (f v t)"
  shows "outcome (u \<and> w) x y (pbind m f)"
  using assms by (cases u) (auto simp: outcome_def)

definition reads_value :: "decoders \<Rightarrow> json \<Rightarrow> string \<Rightarrow> bool" where
  "reads_value d v s \<longleftrightarrow> (\<forall>n t. 2 * length s < n \<longrightarrow> stops t \<longrightarrow>
     outcome (unique_keys v) (in_key_order v) t (parse_value d n (s @ t)))"

definition reads_items :: "decoders \<Rightarrow> json list \<Rightarrow> string \<Rightarrow> bool" where
  "reads_items d xs s \<longleftrightarrow> (\<forall>n items t. 2 * length s < n \<longrightarrow>
     outcome (list_all unique_keys xs) (JArray (items @ map in_key_order xs)) t (parse_items d n items (s @ t)))"

definition fresh_keys :: "json btree \<Rightarrow> (string \<times> json) list \<Rightarrow> bool" where
  "fresh_keys acc m \<longleftrightarrow> distinct (map fst m) \<and> (\<forall>k \<in> set (map fst m). bt_get acc k = None)
     \<and> list_all (\<lambda>(k, v). unique_keys v) m"

lemma fresh_keys_Cons:
  "fresh_keys acc ((k, v) # m) \<longleftrightarrow> bt_get acc k = None \<and> unique_keys v \<and> fresh_keys (bt_insert k w acc) m"
  by (auto simp: fresh_keys_def bt.get_put)

lemma fresh_keys_Nil [simp]: "fresh_keys acc []"
  by (simp add: fresh_keys_def)

abbreviation put_all :: "(string \<times> json) list \<Rightarrow> json btree \<Rightarrow> json btree" where
  "put_all m acc \<equiv> fold (\<lambda>(k, v). bt_insert k v) (map (\<lambda>(k, v). (k, in_key_order v)) m) acc"

definition reads_members :: "decoders \<Rightarrow> (string \<times> json) list \<Rightarrow> string \<Rightarrow> bool" where
  "reads_members d m s \<longleftrightarrow> (\<forall>n acc t. 2 * length s < n \<longrightarrow>
     outcome (fresh_keys acc m) (JObject (put_all m acc)) t (parse_members d n acc (s @ t)))"

text \<open>One item, whatever follows it.\<close>

lemma item_step:
  assumes "reads_value d x s" "spaces w" "2 * length (s @ w @ sep # u) < n" "sep = CHR '','' \<or> sep = CHR 0x5D"
    and "\<And>k. n = Suc k \<Longrightarrow> outcome ok y t
      (if sep = CHR '','' then parse_items d k (items @ [in_key_order x]) (u @ t)
       else Parsed (JArray (items @ [in_key_order x])) (u @ t))"
  shows "outcome (unique_keys x \<and> ok) y t (parse_items d n items (s @ w @ sep # u @ t))"
proof -
  obtain k where n: "n = Suc k" using assms(3) by (cases n) simp_all
  have "stops (w @ sep # u @ t)" using assms(2,4) by (intro stops_spaces) (auto simp: is_ascii_digit_def)
  with assms(1,3) n have v: "outcome (unique_keys x) (in_key_order x) (w @ sep # u @ t)
      (parse_value d k (s @ w @ sep # u @ t))" by (simp add: reads_value_def)
  show ?thesis
    unfolding n parse_items.simps
    by (rule outcome_bind [OF v]) (use assms(2,4) assms(5) [OF n] in \<open>auto simp del: parse_items.simps\<close>)
qed

text \<open>One member, whatever follows it.\<close>

lemma member_step:
  assumes "spaces w1" "string_body b" "utf8_valid (quoted b)" "decode_string d (quoted b) = Inr k" "spaces w2"
    and "reads_value d v s" "spaces w3" "2 * length (w1 @ quoted b @ w2 @ CHR '':'' # s @ w3 @ sep # u) < n"
    and "sep = CHR '','' \<or> sep = CHR 0x7D"
    and "\<And>j. n = Suc j \<Longrightarrow> outcome ok y t
      (if sep = CHR '','' then parse_members d j (bt_insert k (in_key_order v) acc) (u @ t)
       else Parsed (JObject (bt_insert k (in_key_order v) acc)) (u @ t))"
  shows "outcome (bt_get acc k = None \<and> unique_keys v \<and> ok) y t
    (parse_members d n acc (w1 @ quoted b @ w2 @ CHR '':'' # s @ w3 @ sep # u @ t))"
proof -
  obtain j where n: "n = Suc j" using assms(8) by (cases n) simp_all
  let ?rest = "w3 @ sep # u @ t"
  have key: "parse_string d (quoted b @ w2 @ CHR '':'' # s @ ?rest) = Parsed k (w2 @ CHR '':'' # s @ ?rest)"
    by (rule parse_quoted [OF assms(2-4)])
  have "stops ?rest" using assms(7,9) by (intro stops_spaces) (auto simp: is_ascii_digit_def)
  with assms(6,8) n have val: "outcome (unique_keys v) (in_key_order v) ?rest (parse_value d j (s @ ?rest))"
    by (simp add: reads_value_def)
  have head: "peek (quoted b @ x) = Some (CHR 0x22)" for x by (simp add: quoted_def)
  have tail: "outcome (unique_keys v \<and> ok) y t (pbind (parse_value d j (s @ ?rest)) (\<lambda>v w. let m1 = bt_insert k v acc in
         pbind (bump (skip_ws w)) (\<lambda>sep x.
         if sep = CHR '','' then parse_members d j m1 x
         else if sep = CHR 0x7D then Parsed (JObject m1) x
         else Rejected ''expected ',' or '}' in object'')))"
    unfolding Let_def by (rule outcome_bind [OF val]) (use assms(7,9) assms(10) [OF n] in \<open>auto simp del: parse_members.simps\<close>)
  show ?thesis
  proof (cases "bt_get acc k = None")
    case True
    with tail key head assms(1,5) show ?thesis
      by (simp add: n bt_contains_def Let_def del: parse_value.simps)
  next
    case False
    with key head assms(1) show ?thesis
      by (auto simp: n bt_contains_def outcome_def Let_def simp del: parse_value.simps)
  qed
qed

lemma number_head:
  assumes "number_literal l"
  shows "\<exists>c r. l = c # r \<and> (c = CHR ''-'' \<or> is_ascii_digit c)"
  using assms by (auto simp: number_literal_def integer_part_def some_digits_def neq_Nil_conv is_ascii_digit_def)

lemma spells_head:
  assumes "spells d v s"
  shows "\<exists>c r. skip_ws s = c # r \<and> c \<noteq> CHR 0x5D"
  using assms
proof (cases rule: spells.cases)
  case (spell_number w l x)
  then obtain c r where "l = c # r" "c = CHR ''-'' \<or> is_ascii_digit c" using number_head by blast
  moreover from this(2) have "\<not> is_ascii_space c" "c \<noteq> CHR 0x5D" by (auto simp: is_ascii_space_def is_ascii_digit_def)
  ultimately show ?thesis using spell_number by (simp add: skip_ws_nonspace)
qed (simp_all add: skip_ws_other quoted_def)

lemma spells_items_head:
  "spells_items d xs s \<Longrightarrow> \<exists>c r. skip_ws s = c # r \<and> c \<noteq> CHR 0x5D"
  by (cases rule: spells_items.cases, assumption) (auto dest!: spells_head dest: skip_ws_append)

lemma spells_members_head: "spells_members d m s \<Longrightarrow> \<exists>r. skip_ws s = CHR 0x22 # r"
  by (cases rule: spells_members.cases, assumption) (auto simp: quoted_def skip_ws_other)

lemma reads_valueI:
  assumes "spaces w" "\<And>k t. 2 * length s \<le> k \<Longrightarrow> stops t \<Longrightarrow>
      outcome (unique_keys v) (in_key_order v) t (parse_value d (Suc k) (s @ t))"
  shows "reads_value d v (w @ s)"
  unfolding reads_value_def
proof (intro allI impI)
  fix n t assume "2 * length (w @ s) < n" "stops t"
  then obtain k where "n = Suc k" "2 * length s \<le> k" "stops t" by (cases n) simp_all
  with assms show "outcome (unique_keys v) (in_key_order v) t (parse_value d n ((w @ s) @ t))"
    using parse_value_ws [of d n "w @ s @ t"] parse_value_ws [of d n "s @ t"] by (simp del: parse_value.simps)
qed

lemma reads_number:
  assumes "spaces w" "number_literal l" "decode_number d l = Inr (JNumber x)"
  shows "reads_value d (JNumber x) (w @ l)"
proof (rule reads_valueI [OF assms(1)])
  fix k t assume "stops t"
  from parse_number_literal [OF assms(2,3) this] have num: "parse_number d (l @ t) = Parsed (JNumber x) t" .
  obtain c r where l: "l = c # r" "c = CHR ''-'' \<or> is_ascii_digit c" using number_head [OF assms(2)] by blast
  from l(2) have "skip_ws (l @ t) = l @ t" "c \<notin> {CHR 0x7B, CHR 0x5B, CHR 0x22, CHR ''t'', CHR ''f'', CHR ''n''}"
    by (auto simp: l(1) skip_ws_def is_ascii_space_def is_ascii_digit_def)
  with num l show "outcome (unique_keys (JNumber x)) (in_key_order (JNumber x)) t (parse_value d (Suc k) (l @ t))"
    by (auto simp: Let_def)
qed

lemma reads_spelled:
  "spells d v s \<Longrightarrow> reads_value d v s"
  "spells_items d xs s \<Longrightarrow> reads_items d xs s"
  "spells_members d m s \<Longrightarrow> reads_members d m s"
proof (induction rule: spells_spells_items_spells_members.inducts)
  case (spell_null w)
  then show ?case by (rule reads_valueI) (simp add: skip_ws_other)
next
  case (spell_true w)
  then show ?case by (rule reads_valueI) (simp add: skip_ws_other)
next
  case (spell_false w)
  then show ?case by (rule reads_valueI) (simp add: skip_ws_other)
next
  case (spell_number w l x)
  then show ?case by (rule reads_number)
next
  case (spell_string w b v)
  have "peek (quoted b @ t) = Some (CHR 0x22)" for t by (simp add: quoted_def)
  with parse_quoted [OF spell_string.hyps(2,3) spell_string.IH] show ?case by (intro reads_valueI [OF spell_string.hyps(1)]) (simp add: Let_def)
next
  case (spell_empty_array w w')
  then show ?case by (intro reads_valueI) (simp_all add: Let_def)
next
  case (spell_array w xs s)
  obtain c r where head: "skip_ws s = c # r" "c \<noteq> CHR 0x5D" using spells_items_head [OF spell_array.IH(1)] by blast
  show ?case
  proof (rule reads_valueI [OF spell_array.hyps])
    fix k t assume "2 * length (CHR 0x5B # s) \<le> k"
    with spell_array.IH(2) have "outcome (list_all unique_keys xs) (JArray ([] @ map in_key_order xs)) t
        (parse_items d k [] (skip_ws (s @ t)))" by (simp add: reads_items_def parse_items_ws del: append_Nil)
    then show "outcome (unique_keys (JArray xs)) (in_key_order (JArray xs)) t (parse_value d (Suc k) ((CHR 0x5B # s) @ t))"
      using skip_ws_append [OF head(1), of t] head(2) by (simp add: Let_def)
  qed
next
  case (spell_empty_object w w')
  then show ?case by (intro reads_valueI) (simp_all add: Let_def bt_from_list_def)
next
  case (spell_object w m s)
  obtain r where head: "skip_ws s = CHR 0x22 # r" using spells_members_head [OF spell_object.IH(1)] by blast
  show ?case
  proof (rule reads_valueI [OF spell_object.hyps])
    fix k t assume "2 * length (CHR 0x7B # s) \<le> k"
    with spell_object.IH(2) have "outcome (fresh_keys [] m) (JObject (put_all m [])) t
        (parse_members d k [] (skip_ws (s @ t)))" by (simp add: reads_members_def parse_members_ws)
    moreover have "fresh_keys [] m = unique_keys (JObject m)" by (simp add: fresh_keys_def)
    ultimately show "outcome (unique_keys (JObject m)) (in_key_order (JObject m)) t (parse_value d (Suc k) ((CHR 0x7B # s) @ t))"
      using skip_ws_append [OF head, of t] by (simp add: Let_def bt_from_list_def)
  qed
next
  case (spell_last_item x s w)
  show ?case
    unfolding reads_items_def
  proof (intro allI impI)
    fix n items t assume "2 * length (s @ w @ [CHR 0x5D]) < n"
    from item_step [OF spell_last_item.IH(2) spell_last_item.hyps this, of True "JArray (items @ [in_key_order x])" t items]
    show "outcome (list_all unique_keys [x]) (JArray (items @ map in_key_order [x])) t
        (parse_items d n items ((s @ w @ [CHR 0x5D]) @ t))" by simp
  qed
next
  case (spell_item x s w xs u)
  show ?case
    unfolding reads_items_def
  proof (intro allI impI)
    fix n items t assume n: "2 * length (s @ w @ CHR '','' # u) < n"
    have "outcome (list_all unique_keys xs) (JArray ((items @ [in_key_order x]) @ map in_key_order xs)) t
        (parse_items d k (items @ [in_key_order x]) (u @ t))" if "n = Suc k" for k
      using spell_item.IH(4) n that unfolding reads_items_def by (simp del: append_assoc parse_items.simps)
    with item_step [OF spell_item.IH(2) spell_item.hyps n, of "list_all unique_keys xs"
        "JArray ((items @ [in_key_order x]) @ map in_key_order xs)" t items]
    show "outcome (list_all unique_keys (x # xs)) (JArray (items @ map in_key_order (x # xs))) t
        (parse_items d n items ((s @ w @ CHR '','' # u) @ t))" by simp
  qed
next
  case (spell_last_member w1 b k w2 v s w3)
  show ?case
    unfolding reads_members_def
  proof (intro allI impI)
    fix n acc t assume "2 * length (w1 @ quoted b @ w2 @ CHR '':'' # s @ w3 @ [CHR 0x7D]) < n"
    from member_step [OF spell_last_member.hyps(1-3) spell_last_member.IH(1) spell_last_member.hyps(4) spell_last_member.IH(3)
        spell_last_member.hyps(5) this, of True "JObject (bt_insert k (in_key_order v) acc)" t acc]
    show "outcome (fresh_keys acc [(k, v)]) (JObject (put_all [(k, v)] acc)) t
        (parse_members d n acc ((w1 @ quoted b @ w2 @ CHR '':'' # s @ w3 @ [CHR 0x7D]) @ t))"
      by (simp add: fresh_keys_def conj_commute)
  qed
next
  case (spell_member w1 b k w2 v s w3 m u)
  show ?case
    unfolding reads_members_def
  proof (intro allI impI)
    fix n acc t assume n: "2 * length (w1 @ quoted b @ w2 @ CHR '':'' # s @ w3 @ CHR '','' # u) < n"
    let ?acc = "bt_insert k (in_key_order v) acc"
    have "outcome (fresh_keys ?acc m) (JObject (put_all m ?acc)) t (parse_members d j ?acc (u @ t))" if "n = Suc j" for j
      using spell_member.IH(5) n that unfolding reads_members_def by (simp del: parse_members.simps)
    with member_step [OF spell_member.hyps(1-3) spell_member.IH(1) spell_member.hyps(4) spell_member.IH(3)
        spell_member.hyps(5) n, of "fresh_keys ?acc m" "JObject (put_all m ?acc)" t acc]
    show "outcome (fresh_keys acc ((k, v) # m)) (JObject (put_all ((k, v) # m) acc)) t
        (parse_members d n acc ((w1 @ quoted b @ w2 @ CHR '':'' # s @ w3 @ CHR '','' # u) @ t))"
      by (simp add: fresh_keys_Cons [where w = "in_key_order v"])
  qed
qed

text \<open>C38: Every JSON text, with any whitespace, numbers, escapes and nesting, whose literals the decoders accept, is
  accepted and read back, with the members of every object in key order, exactly when no object in it, however
  deep, names a decoded key twice; a text with a repeated key is rejected for that reason.\<close>

theorem strict_parser_rejects_exactly_duplicates:
  assumes "spells d v s" "spaces w"
  shows "if unique_keys v then parse_rejecting_duplicates d (s @ w) = Some (Inr (in_key_order v))
    else \<exists>k. parse_rejecting_duplicates d (s @ w) = Some (Inl (''duplicate key: '' @ k))"
proof -
  have "outcome (unique_keys v) (in_key_order v) w (parse_value d (2 * length (s @ w) + 2) (s @ w))"
    by (rule reads_spelled(1) [OF assms(1), unfolded reads_value_def, rule_format])
      (use stops_spaces [OF assms(2), of "[]"] in simp_all)
  with assms(2) show ?thesis
    by (auto simp: outcome_def parse_rejecting_duplicates_def simp del: parse_value.simps split: if_splits)
qed

text \<open>A text with a number, whitespace, and a key that is repeated only after its escape is decoded.\<close>

definition escaped_a :: string where
  "escaped_a = CHR 0x5C # ''u0061''"

definition example_decoders :: decoders where
  "example_decoders = \<lparr>decode_string = (\<lambda>l. Inr (if l = quoted escaped_a then ''a'' else butlast (tl l))),
     decode_number = (\<lambda>l. Inr (JNumber (PosInt 25)))\<rparr>"

lemma example_spelled:
  "spells example_decoders (JArray [JNumber (PosInt 25), JObject [(''a'', JBool True), (''a'', JNull)]])
     (''[25, {'' @ quoted ''a'' @ '':true,'' @ quoted escaped_a @ '': null}]'')"
proof -
  let ?d = example_decoders
  note parts = number_literal_def integer_part_def fraction_part_def exponent_part_def some_digits_def
  have ws: "spaces []" "spaces '' ''" by (simp_all add: spaces_def is_ascii_space_def)
  have "number_literal ''25''"
    unfolding parts by (rule exI [of _ "[]"], rule exI [of _ "''25''"]) (simp add: is_ascii_digit_def)
  then have num: "spells ?d (JNumber (PosInt 25)) ''25''"
    using spell_number [OF ws(1), of "''25''" ?d "PosInt 25"] by (simp add: example_decoders_def)
  have tr: "spells ?d (JBool True) ''true''" using spell_true [OF ws(1)] by simp
  have nl: "spells ?d JNull '' null''" using spell_null [OF ws(2)] by simp
  have key: "string_body escaped_a" "utf8_valid (quoted escaped_a)" "decode_string ?d (quoted escaped_a) = Inr ''a''"
    "string_body ''a''" "utf8_valid (quoted ''a'')" "decode_string ?d (quoted ''a'') = Inr ''a''"
    by code_simp+
  note m1 = spell_last_member [OF ws(1) key(1-3) ws(1) nl ws(1)]
  note m2 = spell_member [OF ws(1) key(4-6) ws(1) tr ws(1) m1]
  show ?thesis
    using spell_array [OF ws(1) spell_item [OF num ws(1) spell_last_item [OF spell_object [OF ws(2) m2] ws(1)]]] by simp
qed

theorem strict_parser_rejects_exactly_duplicates_witness:
  "\<exists>k. parse_rejecting_duplicates example_decoders
     ((''[25, {'' @ quoted ''a'' @ '':true,'' @ quoted escaped_a @ '': null}]'') @ [CHR 0x0A]) = Some (Inl (''duplicate key: '' @ k))"
proof -
  have "spaces [CHR 0x0A]" by (simp add: spaces_def is_ascii_space_def)
  from strict_parser_rejects_exactly_duplicates [OF example_spelled this] show ?thesis by simp
qed

end
