(* ===== verification/Redact.thy ===== *)
theory Redact
  imports Text
begin

text \<open>
  Redaction of secrets (\<open>src/src/redact.rs\<close>) in texts and in JSON values. What the regular expressions match
  is the regex crate's: for each pattern a parameter gives the number of matches and the text after
  replacement, and for URLs the pieces of a text that match and those between them. The rewriting of a URL,
  the names of sensitive fields and the walk over JSON values are modelled in full. A set of categories is an
  ordered map to the unit value, as \<open>BTreeSet\<close> is.
\<close>

section \<open>Reports\<close>

record redaction_report =
  replacement_count :: nat
  categories :: "unit btree"

definition redaction_report_default :: redaction_report where
  "redaction_report_default = \<lparr>replacement_count = 0, categories = []\<rparr>"

definition report_mark :: "string \<Rightarrow> nat \<Rightarrow> redaction_report \<Rightarrow> redaction_report" where
  "report_mark category n r =
     (if n = 0 then r
      else \<lparr>replacement_count = replacement_count r + n, categories = bt_insert category () (categories r)\<rparr>)"

definition report_merge :: "redaction_report \<Rightarrow> redaction_report \<Rightarrow> redaction_report" where
  "report_merge other r =
     \<lparr>replacement_count = replacement_count r + replacement_count other,
      categories = fold (\<lambda>(c, u). bt_insert c u) (categories other) (categories r)\<rparr>"

section \<open>Patterns\<close>

datatype pattern =
    PrivateKey | AuthorizationHeader | Jwt | KnownToken | SecretAssignment | DatabaseUrl
  | CustomSecret "string list"

datatype piece = Gap string | Match string

record regex_engine =
  rx_count :: "pattern \<Rightarrow> string \<Rightarrow> nat"
  rx_replace :: "pattern \<Rightarrow> string \<Rightarrow> string"
  rx_urls :: "string \<Rightarrow> piece list"

definition patterns :: "(string \<times> pattern) list" where
  "patterns =
     [(''private_key'', PrivateKey), (''authorization_header'', AuthorizationHeader), (''jwt'', Jwt),
      (''known_token'', KnownToken), (''secret_assignment'', SecretAssignment), (''database_url'', DatabaseUrl)]"

definition apply_pattern :: "regex_engine \<Rightarrow> pattern \<Rightarrow> string \<Rightarrow> string \<times> nat" where
  "apply_pattern rx p s = (let n = rx_count rx p s in if n = 0 then (s, 0) else (rx_replace rx p s, n))"

section \<open>URLs\<close>

definition ends_with :: "string \<Rightarrow> string \<Rightarrow> bool" where
  "ends_with s p = (length p \<le> length s \<and> drop (length s - length p) s = p)"

definition sensitive_query_key :: "string \<Rightarrow> bool" where
  "sensitive_query_key key =
     (let lower = to_ascii_lowercase key in
      lower \<in> {''access_token'', ''api_key'', ''apikey'', ''auth'', ''authorization'', ''credential'', ''key'',
        ''password'', ''secret'', ''signature'', ''sig'', ''token'', ''x-amz-credential'', ''x-amz-signature'',
        ''x-goog-signature''}
      \<or> ends_with lower ''token'' \<or> ends_with lower ''signature'')"

definition is_trailing :: "char \<Rightarrow> bool" where
  "is_trailing c = (c \<in> set ''.,);]'')"

definition query_pair :: "string \<Rightarrow> string \<times> string" where
  "query_pair pair = (case split_once (CHR ''='') pair of Some kv \<Rightarrow> kv | None \<Rightarrow> (pair, []))"

definition redact_pair :: "string \<Rightarrow> string \<times> bool" where
  "redact_pair pair =
     (case query_pair pair of (key, val) \<Rightarrow>
      if sensitive_query_key key then (key @ ''=<REDACTED>'', True) else (key @ ''='' @ val, False))"

definition redact_url :: "string \<Rightarrow> string \<times> bool" where
  "redact_url url =
     (let value = rev (dropWhile is_trailing (rev url));
          trailing = rev (takeWhile is_trailing (rev url))
      in case split_once (CHR ''?'') value of
           None \<Rightarrow> (url, False)
         | Some (base, query0) \<Rightarrow>
             (case (case split_once (CHR ''#'') query0 of Some (q, f) \<Rightarrow> (q, Some f) | None \<Rightarrow> (query0, None)) of
                (query, fragment) \<Rightarrow>
                  let pairs = map redact_pair (filter (\<lambda>p. p \<noteq> []) (split_when (\<lambda>b. b = CHR ''&'') query)) in
                  if \<not> list_ex snd pairs then (url, False)
                  else (base @ ''?'' @ str_join ''&'' (map fst pairs)
                          @ (case fragment of None \<Rightarrow> [] | Some f \<Rightarrow> CHR ''#'' # f) @ trailing, True)))"

fun redact_pieces :: "piece list \<Rightarrow> redaction_report \<Rightarrow> string \<times> redaction_report" where
  "redact_pieces [] r = ([], r)"
| "redact_pieces (Gap s # ps) r = (case redact_pieces ps r of (t, r1) \<Rightarrow> (s @ t, r1))"
| "redact_pieces (Match s # ps) r =
     (case redact_url s of (u, changed) \<Rightarrow>
      case redact_pieces ps (if changed then report_mark ''signed_url'' 1 r else r) of (t, r1) \<Rightarrow> (u @ t, r1))"

definition redact_urls :: "regex_engine \<Rightarrow> string \<Rightarrow> redaction_report \<Rightarrow> string \<times> redaction_report" where
  "redact_urls rx s r = redact_pieces (rx_urls rx s) r"

section \<open>Texts and JSON values\<close>

definition apply_and_mark ::
  "regex_engine \<Rightarrow> string \<times> pattern \<Rightarrow> string \<times> redaction_report \<Rightarrow> string \<times> redaction_report" where
  "apply_and_mark rx cp st =
     (case apply_pattern rx (snd cp) (fst st) of (next, n) \<Rightarrow> (next, report_mark (fst cp) n (snd st)))"

definition redact_text :: "regex_engine \<Rightarrow> string list \<Rightarrow> string \<Rightarrow> string \<times> redaction_report" where
  "redact_text rx extra s =
     (let st = fold (apply_and_mark rx) patterns (s, redaction_report_default);
          safe = filter (\<lambda>name. name \<noteq> []) extra;
          st1 = (if safe \<noteq> [] then apply_and_mark rx (''custom_secret'', CustomSecret safe) st else st)
      in redact_urls rx (fst st1) (snd st1))"

definition sensitive_field_name :: "string list \<Rightarrow> string \<Rightarrow> bool" where
  "sensitive_field_name extra key =
     (let lower = to_ascii_lowercase key in
      sensitive_query_key lower \<or> str_contains lower ''password'' \<or> str_contains lower ''secret''
      \<or> str_contains lower ''token'' \<or> str_contains lower ''api_key'' \<or> str_contains lower ''apikey''
      \<or> str_contains lower ''cookie'' \<or> key \<in> set extra)"

definition REDACTED_FIELD :: json where
  "REDACTED_FIELD = JString ''<REDACTED:FIELD>''"

fun walk :: "regex_engine \<Rightarrow> string list \<Rightarrow> json \<Rightarrow> redaction_report \<Rightarrow> json \<times> redaction_report"
  and walk_fields :: "regex_engine \<Rightarrow> string list \<Rightarrow> (string \<times> json) list \<Rightarrow> redaction_report
    \<Rightarrow> (string \<times> json) list \<times> redaction_report"
  and walk_items :: "regex_engine \<Rightarrow> string list \<Rightarrow> json list \<Rightarrow> redaction_report \<Rightarrow> json list \<times> redaction_report" where
  "walk rx extra (JObject m) r = (case walk_fields rx extra m r of (m1, r1) \<Rightarrow> (JObject m1, r1))"
| "walk rx extra (JArray items) r = (case walk_items rx extra items r of (xs, r1) \<Rightarrow> (JArray xs, r1))"
| "walk rx extra (JString s) r =
     (case redact_text rx extra s of (t, partial) \<Rightarrow> (JString t, report_merge partial r))"
| "walk rx extra other r = (other, r)"
| "walk_fields rx extra [] r = ([], r)"
| "walk_fields rx extra ((key, child) # m) r =
     (if sensitive_field_name extra key
      then (case walk_fields rx extra m (report_mark ''sensitive_field'' 1 r) of (m1, r1) \<Rightarrow>
        ((key, REDACTED_FIELD) # m1, r1))
      else (case walk rx extra child r of (c, r1) \<Rightarrow>
        case walk_fields rx extra m r1 of (m1, r2) \<Rightarrow> ((key, c) # m1, r2)))"
| "walk_items rx extra [] r = ([], r)"
| "walk_items rx extra (x # xs) r =
     (case walk rx extra x r of (y, r1) \<Rightarrow> case walk_items rx extra xs r1 of (ys, r2) \<Rightarrow> (y # ys, r2))"

definition redact_json :: "regex_engine \<Rightarrow> string list \<Rightarrow> json \<Rightarrow> json \<times> redaction_report" where
  "redact_json rx extra v = walk rx extra v redaction_report_default"

section \<open>Nothing sensitive is left\<close>

text \<open>Every field with a sensitive name, at any depth, carries the marker; every other text satisfies a
  predicate, such as having come out of \<open>redact_text\<close>.\<close>

fun clean_json :: "string list \<Rightarrow> (string \<Rightarrow> bool) \<Rightarrow> json \<Rightarrow> bool" where
  "clean_json extra P (JObject m) =
     list_all (\<lambda>(k, v). sensitive_field_name extra k \<and> v = REDACTED_FIELD
       \<or> \<not> sensitive_field_name extra k \<and> clean_json extra P v) m"
| "clean_json extra P (JArray xs) = list_all (clean_json extra P) xs"
| "clean_json extra P (JString s) = P s"
| "clean_json extra P _ = True"

text \<open>The same value with every text erased: what redaction must not change.\<close>

fun json_shape :: "string list \<Rightarrow> json \<Rightarrow> json" where
  "json_shape extra (JObject m) =
     JObject (map (\<lambda>(k, v). (k, if sensitive_field_name extra k then JNull else json_shape extra v)) m)"
| "json_shape extra (JArray xs) = JArray (map (json_shape extra) xs)"
| "json_shape extra (JString _) = JString []"
| "json_shape extra v = v"

lemma walk_clean:
  fixes rx extra
  defines "P \<equiv> \<lambda>s. \<exists>t. s = fst (redact_text rx extra t)"
  shows "clean_json extra P (fst (walk rx extra v r)) \<and> json_shape extra (fst (walk rx extra v r)) = json_shape extra v"
    and "clean_json extra P (JObject (fst (walk_fields rx extra m r))) \<and>
      json_shape extra (JObject (fst (walk_fields rx extra m r))) = json_shape extra (JObject m)"
    and "clean_json extra P (JArray (fst (walk_items rx extra xs r))) \<and>
      json_shape extra (JArray (fst (walk_items rx extra xs r))) = json_shape extra (JArray xs)"
proof (induction rx\<equiv>rx extra\<equiv>extra v r and rx\<equiv>rx extra\<equiv>extra m r and rx\<equiv>rx extra\<equiv>extra xs r
    rule: walk_walk_fields_walk_items.induct)
  case (3 s r)
  have "fst (redact_text rx extra s) = fst (redact_text rx extra s)" by simp
  then show ?case by (auto simp: P_def split: prod.split) (metis fst_conv)
qed (auto split: prod.splits)

text \<open>Redacting a JSON value leaves no sensitive field and no unredacted text behind: at any depth a field
  whose name is sensitive carries only the marker, every other text is the redaction of some text, and
  keys, numbers, booleans and the structure are those of the input.\<close>

theorem redacted_json_is_clean:
  "clean_json extra (\<lambda>s. \<exists>t. s = fst (redact_text rx extra t)) (fst (redact_json rx extra v)) \<and>
   json_shape extra (fst (redact_json rx extra v)) = json_shape extra v"
  by (simp add: redact_json_def walk_clean)

end
