(* ===== verification/Config.thy ===== *)
theory Config
  imports Text
begin

text \<open>
  The configuration (\<open>src/src/config.rs\<close>): its sections with their defaults, the merging of layers, the
  loading of layers from files, and the redaction for display. TOML values are a data type; parsing a TOML
  text and reading the typed configuration from a value, which the \<open>toml\<close> crate does, are parameters. A
  layer file is what the file system reports of its path.
\<close>

section \<open>Sections and defaults\<close>

definition SUPPORTED_CONFIG_VERSION :: u32 where
  "SUPPORTED_CONFIG_VERSION = 1"

record daemon_config =
  dc_idle_grace_seconds :: u64
  dc_stay_resident :: bool
  dc_max_watchers :: u32
  dc_socket_request_timeout_seconds :: u64

definition daemon_config_default :: daemon_config where
  "daemon_config_default =
     \<lparr>dc_idle_grace_seconds = 30, dc_stay_resident = False, dc_max_watchers = 128,
      dc_socket_request_timeout_seconds = 5\<rparr>"

record observation_config =
  obc_poll_interval_seconds :: u64
  obc_poll_jitter_seconds :: u64
  obc_screen_confirm_samples :: u32
  obc_max_screen_lines :: u32
  obc_max_screen_bytes :: u32
  obc_max_structured_record_bytes :: u32
  obc_max_json_depth :: u32
  obc_adapter_error_backoff_seconds :: "u64 list"

definition observation_config_default :: observation_config where
  "observation_config_default =
     \<lparr>obc_poll_interval_seconds = 60, obc_poll_jitter_seconds = 5, obc_screen_confirm_samples = 2,
      obc_max_screen_lines = 120, obc_max_screen_bytes = 30000, obc_max_structured_record_bytes = 262144,
      obc_max_json_depth = 64, obc_adapter_error_backoff_seconds = [5, 15, 60, 300]\<rparr>"

record lifecycle_config =
  lc_reexec_grace_seconds :: u64
  lc_relaunch_dead_agent :: bool
  lc_stop_on_ambiguous_identity :: bool

definition lifecycle_config_default :: lifecycle_config where
  "lifecycle_config_default =
     \<lparr>lc_reexec_grace_seconds = 3, lc_relaunch_dead_agent = False,
      lc_stop_on_ambiguous_identity = True\<rparr>"

record recovery_rate_limits_config =
  rl_enabled :: bool
  rl_select_wait_option_by_label :: bool
  rl_reset_margin_seconds :: u64
  rl_allow_low_confidence_fallback_wait :: bool
  rl_fallback_wait_seconds :: u64
  rl_max_resume_attempts_per_limit :: u32
  rl_resume_text :: string

definition recovery_rate_limits_config_default :: recovery_rate_limits_config where
  "recovery_rate_limits_config_default =
     \<lparr>rl_enabled = True, rl_select_wait_option_by_label = True, rl_reset_margin_seconds = 75,
      rl_allow_low_confidence_fallback_wait = False, rl_fallback_wait_seconds = 18000,
      rl_max_resume_attempts_per_limit = 2,
      rl_resume_text = ''Continue exactly where you left off.''\<rparr>"

record recovery_overload_config =
  ro_enabled :: bool
  ro_backoff_seconds :: "u64 list"
  ro_jitter_mode :: string
  ro_max_total_wait_seconds :: u64
  ro_respect_native_retries :: bool

definition recovery_overload_config_default :: recovery_overload_config where
  "recovery_overload_config_default =
     \<lparr>ro_enabled = True, ro_backoff_seconds = [30, 60, 120, 240, 300], ro_jitter_mode = ''full'',
      ro_max_total_wait_seconds = 7200, ro_respect_native_retries = True\<rparr>"

record recovery_codex_goal_config =
  rg_enabled :: bool
  rg_resume_command :: string
  rg_max_attempts_per_fingerprint :: u32
  rg_cooldown_seconds :: u64
  rg_require_structured_goal_when_available :: bool

definition recovery_codex_goal_config_default :: recovery_codex_goal_config where
  "recovery_codex_goal_config_default =
     \<lparr>rg_enabled = True, rg_resume_command = ''/goal resume'', rg_max_attempts_per_fingerprint = 3,
      rg_cooldown_seconds = 300, rg_require_structured_goal_when_available = True\<rparr>"

record recovery_config =
  rc_enabled :: bool
  rc_max_attempts_per_fingerprint :: u32
  rc_max_attempts_per_session_per_day :: u32
  rc_default_action_timeout_seconds :: u64
  rc_require_empty_composer_for_text :: bool
  rc_cancel_on_human_intervention :: bool
  rc_verify_every_action :: bool
  rc_rate_limits :: recovery_rate_limits_config
  rc_overload :: recovery_overload_config
  rc_codex_goal :: recovery_codex_goal_config

definition recovery_config_default :: recovery_config where
  "recovery_config_default =
     \<lparr>rc_enabled = True, rc_max_attempts_per_fingerprint = 3,
      rc_max_attempts_per_session_per_day = 8, rc_default_action_timeout_seconds = 120,
      rc_require_empty_composer_for_text = True, rc_cancel_on_human_intervention = True,
      rc_verify_every_action = True, rc_rate_limits = recovery_rate_limits_config_default,
      rc_overload = recovery_overload_config_default,
      rc_codex_goal = recovery_codex_goal_config_default\<rparr>"

record planner_config =
  pn_enabled :: bool
  pn_executable :: string
  pn_provider_family :: string
  pn_provider :: string
  pn_model :: string

definition planner_config_default :: planner_config where
  "planner_config_default =
     \<lparr>pn_enabled = False, pn_executable = [], pn_provider_family = ''unknown'', pn_provider = [],
      pn_model = []\<rparr>"

record planning_config =
  pl_enabled :: bool
  pl_max_calls_per_event :: u32
  pl_allow_independent_second_opinion :: bool
  pl_max_calls_per_session_per_day :: u32
  pl_max_concurrent_calls :: u32
  pl_timeout_seconds :: u64
  pl_max_output_bytes :: u32
  pl_max_snapshot_bytes :: u32
  pl_allow_unknown_provider_family :: bool
  pl_allow_repository_context :: bool
  pl_allow_network :: bool
  pl_planner_priority :: "string list"
  pl_planners :: "planner_config btree"

definition default_planners :: "planner_config btree" where
  "default_planners = bt_from_list
     [(''codex'', planner_config_default\<lparr>pn_enabled := True, pn_executable := ''codex'', pn_provider_family := ''openai''\<rparr>),
      (''claude'', planner_config_default\<lparr>pn_enabled := True, pn_executable := ''claude'', pn_provider_family := ''anthropic''\<rparr>),
      (''hermes'', planner_config_default\<lparr>pn_enabled := True, pn_executable := ''hermes'', pn_provider_family := ''unknown''\<rparr>),
      (''opencode'', planner_config_default\<lparr>pn_enabled := True, pn_executable := ''opencode'', pn_provider_family := ''unknown''\<rparr>),
      (''pi'', planner_config_default\<lparr>pn_enabled := False, pn_executable := ''pi'', pn_provider_family := ''unknown''\<rparr>),
      (''kimi'', planner_config_default\<lparr>pn_enabled := False, pn_executable := ''kimi'', pn_provider_family := ''moonshot''\<rparr>),
      (''openhands'', planner_config_default\<lparr>pn_enabled := False, pn_executable := ''openhands'', pn_provider_family := ''unknown''\<rparr>),
      (''grok'', planner_config_default\<lparr>pn_enabled := False, pn_executable := ''grok-build'', pn_provider_family := ''xai''\<rparr>)]"

definition planning_config_default :: planning_config where
  "planning_config_default =
     \<lparr>pl_enabled = True, pl_max_calls_per_event = 1, pl_allow_independent_second_opinion = False,
      pl_max_calls_per_session_per_day = 4, pl_max_concurrent_calls = 1, pl_timeout_seconds = 90,
      pl_max_output_bytes = 100000, pl_max_snapshot_bytes = 50000,
      pl_allow_unknown_provider_family = False, pl_allow_repository_context = False,
      pl_allow_network = False,
      pl_planner_priority = [''codex'', ''claude'', ''hermes'', ''opencode'', ''pi''],
      pl_planners = default_planners\<rparr>"

record security_config =
  sc_telemetry :: bool
  sc_raw_evidence_persistence :: bool
  sc_allow_remote_manifest_updates :: bool
  sc_allow_project_config :: bool
  sc_require_owner_only_paths :: bool
  sc_reject_symlinks_for_state :: bool
  sc_minimal_child_environment :: bool
  sc_extra_secret_names :: "string list"

definition security_config_default :: security_config where
  "security_config_default =
     \<lparr>sc_telemetry = False, sc_raw_evidence_persistence = False,
      sc_allow_remote_manifest_updates = False, sc_allow_project_config = False,
      sc_require_owner_only_paths = True, sc_reject_symlinks_for_state = True,
      sc_minimal_child_environment = True, sc_extra_secret_names = []\<rparr>"

record retention_config =
  rt_events_days :: u32
  rt_audit_days :: u32
  rt_snapshots_days :: u32
  rt_max_log_bytes :: u64
  rt_max_snapshot_files :: u32

definition retention_config_default :: retention_config where
  "retention_config_default =
     \<lparr>rt_events_days = 14, rt_audit_days = 30, rt_snapshots_days = 3, rt_max_log_bytes = 10485760,
      rt_max_snapshot_files = 100\<rparr>"

record notifications_config =
  nc_herdr :: bool
  nc_desktop :: bool
  nc_stderr :: bool
  nc_notify_on_recovery :: bool
  nc_notify_on_human_required :: bool
  nc_notify_on_target_exit :: bool

definition notifications_config_default :: notifications_config where
  "notifications_config_default =
     \<lparr>nc_herdr = True, nc_desktop = True, nc_stderr = True, nc_notify_on_recovery = True,
      nc_notify_on_human_required = True, nc_notify_on_target_exit = False\<rparr>"

record manifests_config =
  mf_bundled :: bool
  mf_local_directory :: string
  mf_remote_updates :: bool
  mf_strict_unknown_versions :: bool

definition manifests_config_default :: manifests_config where
  "manifests_config_default =
     \<lparr>mf_bundled = True, mf_local_directory = ''~/.config/watchme/manifests'',
      mf_remote_updates = False, mf_strict_unknown_versions = True\<rparr>"

record agent_config =
  ag_enabled :: bool
  ag_deterministic_recovery :: bool
  ag_ai_planning :: bool

definition agent_config_default :: agent_config where
  "agent_config_default =
     \<lparr>ag_enabled = True, ag_deterministic_recovery = False, ag_ai_planning = True\<rparr>"

record config =
  cfg_config_version :: u32
  cfg_daemon :: daemon_config
  cfg_observation :: observation_config
  cfg_lifecycle :: lifecycle_config
  cfg_recovery :: recovery_config
  cfg_planning :: planning_config
  cfg_security :: security_config
  cfg_retention :: retention_config
  cfg_notifications :: notifications_config
  cfg_manifests :: manifests_config
  cfg_agents :: "agent_config btree"

definition default_agents :: "agent_config btree" where
  "default_agents = bt_from_list
     [(''claude'', \<lparr>ag_enabled = True, ag_deterministic_recovery = True, ag_ai_planning = True\<rparr>),
      (''codex'', \<lparr>ag_enabled = True, ag_deterministic_recovery = True, ag_ai_planning = True\<rparr>),
      (''opencode'', \<lparr>ag_enabled = True, ag_deterministic_recovery = False, ag_ai_planning = True\<rparr>),
      (''pi'', \<lparr>ag_enabled = True, ag_deterministic_recovery = False, ag_ai_planning = True\<rparr>),
      (''hermes'', \<lparr>ag_enabled = True, ag_deterministic_recovery = False, ag_ai_planning = True\<rparr>),
      (''kimi'', \<lparr>ag_enabled = True, ag_deterministic_recovery = False, ag_ai_planning = False\<rparr>),
      (''grok'', \<lparr>ag_enabled = True, ag_deterministic_recovery = False, ag_ai_planning = False\<rparr>),
      (''openhands'', \<lparr>ag_enabled = True, ag_deterministic_recovery = False, ag_ai_planning = False\<rparr>)]"

definition config_default :: config where
  "config_default =
     \<lparr>cfg_config_version = SUPPORTED_CONFIG_VERSION, cfg_daemon = daemon_config_default,
      cfg_observation = observation_config_default, cfg_lifecycle = lifecycle_config_default,
      cfg_recovery = recovery_config_default, cfg_planning = planning_config_default,
      cfg_security = security_config_default, cfg_retention = retention_config_default,
      cfg_notifications = notifications_config_default, cfg_manifests = manifests_config_default,
      cfg_agents = default_agents\<rparr>"

section \<open>Layers\<close>

datatype toml =
    TString string | TInteger int | TFloat f64 | TBoolean bool | TDatetime string
  | TArray "toml list" | TTable "(string \<times> toml) list"

text \<open>An overlay is merged key by key into a table and replaces anything else.\<close>

fun merge :: "toml \<Rightarrow> toml \<Rightarrow> toml" and merge_table :: "toml btree \<Rightarrow> toml btree \<Rightarrow> toml btree" where
  "merge (TTable base) (TTable overlay) = TTable (merge_table base overlay)"
| "merge base overlay = overlay"
| "merge_table base [] = base"
| "merge_table base ((k, v) # overlay) =
     merge_table (case bt_get base k of Some e \<Rightarrow> bt_insert k (merge e v) base | None \<Rightarrow> bt_insert k v base) overlay"

datatype config_error = ReadFailed string string | InvalidConfig string | UnsupportedVersion u32 | NotATable

datatype layer_file = Symlink | MissingLayer | StatFailed string | ReadError string | LayerText string

definition config_validate :: "config \<Rightarrow> (config_error, config) result" where
  "config_validate c =
     (if cfg_config_version c \<noteq> SUPPORTED_CONFIG_VERSION then Inl (UnsupportedVersion (cfg_config_version c)) else Inr c)"

fun merge_layers ::
  "(string \<Rightarrow> (string, toml) result) \<Rightarrow> (string \<times> layer_file) list \<Rightarrow> toml \<Rightarrow> (config_error, toml) result" where
  "merge_layers parse [] merged = Inr merged"
| "merge_layers parse ((path, layer) # layers) merged =
     (case layer of
        Symlink \<Rightarrow> Inl (ReadFailed path ''configuration path must not be a symlink'')
      | MissingLayer \<Rightarrow> merge_layers parse layers merged
      | StatFailed e \<Rightarrow> Inl (ReadFailed path e)
      | ReadError e \<Rightarrow> Inl (ReadFailed path e)
      | LayerText source \<Rightarrow>
          rbind (map_err InvalidConfig (parse source)) (\<lambda>v. merge_layers parse layers (merge merged v)))"

definition load_layers ::
  "(string \<Rightarrow> (string, toml) result) \<Rightarrow> (toml \<Rightarrow> (string, config) result) \<Rightarrow> (string \<times> layer_file) list
     \<Rightarrow> (config_error, config) result" where
  "load_layers parse try_into layers =
     rbind (merge_layers parse layers (TTable [])) (\<lambda>merged.
     rbind (map_err InvalidConfig (try_into merged)) config_validate)"

section \<open>Display\<close>

definition REDACTED :: string where
  "REDACTED = ''[redacted]''"

definition SECRET_MARKERS :: "string list" where
  "SECRET_MARKERS =
     [''token'', ''secret'', ''password'', ''credential'', ''api_key'', ''apikey'', ''authorization'', ''auth_header'']"

definition is_secret_like_key :: "string \<Rightarrow> string list \<Rightarrow> bool" where
  "is_secret_like_key key extra =
     (let lower = to_ascii_lowercase key in
      list_ex (str_contains lower) SECRET_MARKERS
      \<or> list_ex (\<lambda>name. to_ascii_lowercase name = to_ascii_lowercase key) extra)"

fun redact_string :: "toml \<Rightarrow> toml" where
  "redact_string (TString _) = TString REDACTED"
| "redact_string v = v"

fun redact_secret :: "toml \<Rightarrow> toml" where
  "redact_secret (TArray items) = TArray (map redact_string items)"
| "redact_secret v = redact_string v"

fun redact_value :: "string list \<Rightarrow> toml \<Rightarrow> toml" where
  "redact_value extra (TTable t) =
     TTable (map (\<lambda>(k, v). (k,
       if k = ''extra_secret_names'' then v
       else if is_secret_like_key k extra then redact_secret v else redact_value extra v)) t)"
| "redact_value extra (TArray items) = TArray (map (redact_value extra) items)"
| "redact_value extra v = v"

section \<open>The last layer that sets a value decides it\<close>

fun toml_at :: "string list \<Rightarrow> toml \<Rightarrow> toml option" where
  "toml_at [] v = Some v"
| "toml_at (k # p) (TTable t) = Option.bind (bt_get t k) (toml_at p)"
| "toml_at (k # p) v = None"

text \<open>A layer says nothing about a path when it is a table that breaks off somewhere on the way.\<close>

fun silent_about :: "string list \<Rightarrow> toml \<Rightarrow> bool" where
  "silent_about [] v = False"
| "silent_about (k # p) (TTable t) = (case bt_get t k of None \<Rightarrow> True | Some v \<Rightarrow> silent_about p v)"
| "silent_about (k # p) v = False"

fun distinct_keys :: "toml \<Rightarrow> bool" where
  "distinct_keys (TTable t) = (distinct (map fst t) \<and> list_all (\<lambda>(k, v). distinct_keys v) t)"
| "distinct_keys _ = True"

fun is_table :: "toml \<Rightarrow> bool" where
  "is_table (TTable _) = True"
| "is_table _ = False"

lemma merge_not_table: "\<not> is_table a \<or> \<not> is_table b \<Longrightarrow> merge a b = b"
  by (cases a; cases b) auto

lemma merge_table_get:
  "distinct (map fst overlay) \<Longrightarrow>
   bt_get (merge_table base overlay) k =
     (case bt_get overlay k of None \<Rightarrow> bt_get base k
      | Some v \<Rightarrow> Some (case bt_get base k of None \<Rightarrow> v | Some e \<Rightarrow> merge e v))"
proof (induction overlay arbitrary: base)
  case (Cons x overlay)
  obtain a v where x: "x = (a, v)" by fastforce
  from Cons.prems have "bt_get overlay a = None" by (auto simp: x map_of_eq_None_iff)
  with Cons show ?case by (auto simp: x bt.get_put split: option.splits)
qed simp

lemma merge_at_set:
  "distinct_keys b \<Longrightarrow> toml_at p b = Some v \<Longrightarrow> \<not> is_table v \<Longrightarrow> toml_at p (merge a b) = Some v"
proof (induction p b arbitrary: a rule: toml_at.induct)
  case (1 b)
  then show ?case by (simp add: merge_not_table)
next
  case (2 k p t)
  then obtain w where w: "bt_get t k = Some w" "toml_at p w = Some v" by (auto simp: bind_eq_Some_conv)
  then have dk: "distinct_keys w" using 2 by (auto dest!: map_of_SomeD simp: list_all_iff)
  show ?case
  proof (cases a)
    case (TTable base)
    with 2 w dk show ?thesis by (simp add: merge_table_get split: option.split)
  qed (use 2 w in \<open>simp_all add: merge_not_table\<close>)
qed simp_all

lemma merge_at_silent:
  "distinct_keys b \<Longrightarrow> silent_about p b \<Longrightarrow> toml_at p a = Some v \<Longrightarrow> toml_at p (merge a b) = Some v"
proof (induction p b arbitrary: a rule: silent_about.induct)
  case (2 k p t)
  then obtain base where a: "a = TTable base" by (cases a) simp_all
  show ?case
  proof (cases "bt_get t k")
    case None
    with 2 a show ?thesis by (simp add: merge_table_get)
  next
    case (Some w)
    then have "distinct_keys w" using 2(2) by (auto dest!: map_of_SomeD simp: list_all_iff)
    with 2 Some a show ?thesis by (auto simp: merge_table_get bind_eq_Some_conv)
  qed
qed simp_all

text \<open>The last layer that sets a value decides it: when one layer gives a path a value that is not a table and no
  later layer says anything about the path, the merged configuration has that value there, whatever the
  earlier layers say.\<close>

theorem last_layer_decides:
  assumes "distinct_keys layer" "toml_at p layer = Some v" "\<not> is_table v"
    and "\<forall>l \<in> set later. distinct_keys l \<and> silent_about p l"
  shows "toml_at p (fold (\<lambda>l merged. merge merged l) (earlier @ layer # later) (TTable [])) = Some v"
proof -
  have "toml_at p (fold (\<lambda>l merged. merge merged l) later m) = Some v" if "toml_at p m = Some v" for m
    using assms(4) that by (induction later arbitrary: m) (simp_all add: merge_at_silent)
  with merge_at_set [OF assms(1-3)] show ?thesis by simp
qed

theorem last_layer_decides_witness:
  "toml_at [''daemon'', ''stay_resident'']
     (fold (\<lambda>l merged. merge merged l)
       [TTable [(''daemon'', TTable [(''stay_resident'', TBoolean False)])],
        TTable [(''daemon'', TTable [(''stay_resident'', TBoolean True)])],
        TTable [(''daemon'', TTable [(''max_watchers'', TInteger 4)])]] (TTable [])) = Some (TBoolean True)"
  using last_layer_decides [of "TTable [(''daemon'', TTable [(''stay_resident'', TBoolean True)])]"
      "[''daemon'', ''stay_resident'']" "TBoolean True" "[TTable [(''daemon'', TTable [(''max_watchers'', TInteger 4)])]]"
      "[TTable [(''daemon'', TTable [(''stay_resident'', TBoolean False)])]]"]
  by simp

lemma merge_layers_fold:
  "merge_layers parse layers merged = Inr v \<Longrightarrow>
   \<exists>ls. v = fold (\<lambda>l m. merge m l) ls merged \<and>
     map Inr ls = map (\<lambda>l. case l of (path, LayerText s) \<Rightarrow> parse s | _ \<Rightarrow> Inl [])
       (filter (\<lambda>(path, l). l \<noteq> MissingLayer) layers)"
proof (induction parse layers merged rule: merge_layers.induct)
  case (2 parse path layer layers merged)
  then show ?case
  proof (cases layer)
    case (LayerText s)
    with 2(3) obtain w where w: "parse s = Inr w" "merge_layers parse layers (merge merged w) = Inr v"
      by (auto simp: result_simps)
    with 2(2) [OF LayerText, of w] obtain ls where "v = fold (\<lambda>l m. merge m l) ls (merge merged w)"
      "map Inr ls = map (\<lambda>l. case l of (path, LayerText s) \<Rightarrow> parse s | _ \<Rightarrow> Inl [])
         (filter (\<lambda>(path, l). l \<noteq> MissingLayer) layers)" by auto
    with w LayerText show ?thesis by (intro exI [of _ "w # ls"]) simp
  qed auto
qed (simp add: exI [of _ "[]"])

end
