(* ===== verification/Planner.thy ===== *)
theory Planner
  imports Strict_Json Redact Config Policy Screen
begin

text \<open>
  The planner broker (\<open>src/src/planner/schema.rs\<close>, \<open>router.rs\<close>, \<open>process.rs\<close>, \<open>mod.rs\<close>): the recovery plan
  and its validation against the target and the policy, the routing to planners of another provider family, the
  redacted snapshot, and the broker with its budgets. Parameters: the reader of a plan from a JSON value, the
  size of an encoded snapshot, the run of a planner process, RFC 3339 parsing and the wall clock.
\<close>

section \<open>Plans\<close>

record plan_target =
  pt_watcher_id :: string
  pt_process_pid :: u32
  pt_process_start_time :: string
  pt_mux_kind :: string
  pt_mux_server_id :: "string option"
  pt_pane_id :: string
  pt_agent_id :: "string option"
  pt_session_id :: "string option"
  pt_evidence_fingerprint :: string

record plan_diagnosis =
  pd_category :: string
  pd_confidence :: f64
  pd_summary :: string
  pd_failed_provider_family :: string
  pd_planner_provider_family :: string
  pd_human_required :: bool
  pd_uncertainties :: "string list"

record recovery_plan =
  rp_schema_version :: string
  rp_plan_id :: string
  rp_generated_at :: string
  rp_valid_until :: string
  rp_target :: plan_target
  rp_diagnosis :: plan_diagnosis
  rp_actions :: "action list"

record plan_validation_context =
  pv_failed_provider_family :: string
  pv_planner_provider_family :: string
  pv_evidence_fingerprint :: string
  pv_watcher_id :: string
  pv_process_pid :: u32
  pv_process_start_time :: string
  pv_mux_kind :: string
  pv_pane_id :: string
  pv_now_rfc3339 :: string
  pv_allowed_actions :: "string list"

fun validate_actions :: "rfc3339 \<Rightarrow> action list \<Rightarrow> (string, unit) result" where
  "validate_actions parse [] = Inr ()"
| "validate_actions parse (a # as) = rbind (action_validate parse a) (\<lambda>_. validate_actions parse as)"

definition validate_plan_bounds :: "rfc3339 \<Rightarrow> recovery_plan \<Rightarrow> (string, unit) result" where
  "validate_plan_bounds parse plan =
     (let summary = pd_summary (rp_diagnosis plan); fp = pt_evidence_fingerprint (rp_target plan) in
      if rp_schema_version plan \<noteq> ''1.0'' then Inl ''unsupported schema_version''
      else if 12 < length (rp_actions plan) then Inl ''too many actions''
      else if summary = [] \<or> 1000 < length summary then Inl ''diagnosis summary bounds''
      else if \<not> f64_in_unit (pd_confidence (rp_diagnosis plan)) then Inl ''confidence bounds''
      else if length fp < 16 \<or> 128 < length fp \<or> \<not> list_all is_ascii_hexdigit fp
      then Inl ''evidence fingerprint bounds''
      else validate_actions parse (rp_actions plan))"

text \<open>The strict parser always returns; the branch without a result is not taken.\<close>

definition from_str_strict :: "decoders \<Rightarrow> string \<Rightarrow> (string, json) result" where
  "from_str_strict d input =
     (case parse_rejecting_duplicates d input of Some r \<Rightarrow> r | None \<Rightarrow> Inl ''no result'')"

definition decode_recovery_plan ::
  "decoders \<Rightarrow> (json \<Rightarrow> (string, recovery_plan) result) \<Rightarrow> rfc3339 \<Rightarrow> string \<Rightarrow> (string, recovery_plan) result" where
  "decode_recovery_plan d from_value parse input =
     rbind (from_str_strict d input) (\<lambda>v.
     rbind (from_value v) (\<lambda>plan.
     rbind (validate_plan_bounds parse plan) (\<lambda>_. Inr plan)))"

fun action_type_name :: "action_kind \<Rightarrow> string" where
  "action_type_name (WaitUntil _) = ''WAIT_UNTIL''"
| "action_type_name (WaitDuration _) = ''WAIT_DURATION''"
| "action_type_name (Capture _ _) = ''CAPTURE''"
| "action_type_name (CheckStatus _) = ''CHECK_STATUS''"
| "action_type_name (SendText _) = ''SEND_TEXT''"
| "action_type_name (SubmitText _) = ''SUBMIT_TEXT''"
| "action_type_name (SendKeys _) = ''SEND_KEYS''"
| "action_type_name (Notify _ _) = ''NOTIFY''"
| "action_type_name (Escalate _) = ''ESCALATE''"
| "action_type_name StopWatching = ''STOP_WATCHING''"
| "action_type_name Noop = ''NOOP''"

definition PROHIBITED_WORDS :: "string list" where
  "PROHIBITED_WORDS =
     [''login'', ''sign in'', ''billing'', ''fund'', ''credit'', ''upgrade'', ''approve'', ''permission'', ''yolo'',
      ''sudo'', ''rm -rf'', ''password'', ''token'', ''secret'', ''curl '', ''/bin/sh'', ''shell'']"

definition prohibited_text :: "string \<Rightarrow> bool" where
  "prohibited_text s =
     (let lower = to_ascii_lowercase s in
      str_contains lower ''http://'' \<or> str_contains lower ''https://''
      \<or> list_ex (str_contains lower) PROHIBITED_WORDS)"

fun types_prohibited :: "action_kind \<Rightarrow> bool" where
  "types_prohibited (SendText s) = prohibited_text s"
| "types_prohibited (SubmitText s) = prohibited_text s"
| "types_prohibited _ = False"

definition plan_policy_context :: "plan_validation_context \<Rightarrow> policy_context" where
  "plan_policy_context ctx =
     policy_context_safe
       \<lparr>pc_evidence_fingerprint := Some (pv_evidence_fingerprint ctx),
        failed_provider_family := Some (pv_failed_provider_family ctx),
        planner_provider_family := Some (pv_planner_provider_family ctx),
        goal_state := Some ''blocked'',
        wall_time_rfc3339 := Some (pv_now_rfc3339 ctx)\<rparr>"

fun check_actions ::
  "rfc3339 \<Rightarrow> plan_validation_context \<Rightarrow> action list \<Rightarrow> (string, action list) result" where
  "check_actions parse ctx [] = Inr []"
| "check_actions parse ctx (a # as) =
     (if action_type_name (act_kind a) \<notin> set (pv_allowed_actions ctx)
      then Inl (''action type not allowlisted: '' @ action_type_name (act_kind a))
      else if types_prohibited (act_kind a) then Inl ''prohibited send text''
      else rbind (authorize parse a (plan_policy_context ctx)) (\<lambda>_.
        rbind (check_actions parse ctx as) (\<lambda>bs. Inr (a # bs))))"

definition validate_recovery_plan ::
  "rfc3339 \<Rightarrow> recovery_plan \<Rightarrow> plan_validation_context \<Rightarrow> (string, action list) result" where
  "validate_recovery_plan parse plan ctx =
     (let d = rp_diagnosis plan; t = rp_target plan in
      if pd_failed_provider_family d \<noteq> pv_failed_provider_family ctx then Inl ''failed provider family mismatch''
      else if pd_planner_provider_family d \<noteq> pv_planner_provider_family ctx
      then Inl ''planner provider family mismatch''
      else if pd_planner_provider_family d = pd_failed_provider_family d
      then Inl ''same-provider planner plan rejected''
      else if pt_evidence_fingerprint t \<noteq> pv_evidence_fingerprint ctx \<or> pt_watcher_id t \<noteq> pv_watcher_id ctx
        \<or> pt_process_pid t \<noteq> pv_process_pid ctx \<or> pt_process_start_time t \<noteq> pv_process_start_time ctx
        \<or> pt_mux_kind t \<noteq> pv_mux_kind ctx \<or> pt_pane_id t \<noteq> pv_pane_id ctx
      then Inl ''target or evidence mismatch''
      else
        rbind (ok_or ''invalid generated_at'' (parse (rp_generated_at plan))) (\<lambda>generated.
        rbind (ok_or ''invalid valid_until'' (parse (rp_valid_until plan))) (\<lambda>valid_until.
        rbind (ok_or ''invalid now'' (parse (pv_now_rfc3339 ctx))) (\<lambda>now.
        if valid_until < now \<or> valid_until < generated then Inl ''plan expired or stale''
        else check_actions parse ctx (rp_actions plan)))))"

section \<open>Routing\<close>

record planner_capability =
  cap_id :: string
  cap_executable :: string
  cap_configured_family :: string
  cap_resolved_family :: string
  cap_available :: bool
  cap_unsafe_mode :: bool

record resolved_planner =
  rsp_id :: string
  rsp_executable :: string
  rsp_provider_family :: string
  rsp_args :: "string list"

record router_outcome =
  ro_eligible :: "resolved_planner list"
  ro_human_required :: bool

definition normalize_family :: "string \<Rightarrow> string" where
  "normalize_family family = to_ascii_lowercase (str_trim family)"

definition eligible_planner :: "planning_config \<Rightarrow> string \<Rightarrow> string \<Rightarrow> planner_capability \<Rightarrow> resolved_planner option" where
  "eligible_planner planning failed_family wid c =
     (let family = normalize_family (cap_resolved_family c) in
      if \<not> cap_available c \<or> cap_unsafe_mode c then None
      else if (case bt_get (pl_planners planning) wid of Some pc \<Rightarrow> \<not> pn_enabled pc | None \<Rightarrow> False) then None
      else if family = ''unknown'' \<and> \<not> pl_allow_unknown_provider_family planning then None
      else if family = normalize_family failed_family then None
      else Some \<lparr>rsp_id = cap_id c, rsp_executable = cap_executable c, rsp_provider_family = family, rsp_args = []\<rparr>)"

fun route_priority ::
  "planning_config \<Rightarrow> string \<Rightarrow> string list \<Rightarrow> planner_capability btree \<Rightarrow> resolved_planner list" where
  "route_priority planning failed [] by_id = []"
| "route_priority planning failed (wid # ids) by_id =
     (case bt_get by_id wid of
        None \<Rightarrow> route_priority planning failed ids by_id
      | Some c \<Rightarrow>
          (let later = route_priority planning failed ids (bt_remove wid by_id) in
           case eligible_planner planning failed wid c of None \<Rightarrow> later | Some p \<Rightarrow> p # later))"

definition resolve_eligible_planners ::
  "planning_config \<Rightarrow> string \<Rightarrow> planner_capability list \<Rightarrow> resolved_planner list" where
  "resolve_eligible_planners planning failed candidates =
     (if \<not> pl_enabled planning then []
      else route_priority planning failed (pl_planner_priority planning)
        (bt_from_list (map (\<lambda>c. (cap_id c, c)) candidates)))"

definition router_select :: "planning_config \<Rightarrow> string \<Rightarrow> planner_capability list \<Rightarrow> router_outcome" where
  "router_select planning failed candidates =
     (let eligible = resolve_eligible_planners planning failed candidates
      in \<lparr>ro_eligible = eligible, ro_human_required = (eligible = [])\<rparr>)"

section \<open>The planner process\<close>

datatype process_error_kind = Timeout | OutputLimit | ProcessFailed

text \<open>A stream yields chunks of bytes and then ends or fails.\<close>

fun read_capped :: "nat \<Rightarrow> string list \<Rightarrow> bool \<Rightarrow> string \<times> bool \<Rightarrow> string \<times> bool" where
  "read_capped limit [] fails (acc, hit) = (acc, hit \<or> fails)"
| "read_capped limit (chunk # chunks) fails (acc, hit) =
     (if limit \<le> length acc then read_capped limit chunks fails (acc, True)
      else let remaining = limit - length acc in
        read_capped limit chunks fails (acc @ take (min (length chunk) remaining) chunk, hit \<or> remaining < length chunk))"

definition planner_process_result ::
  "bool \<Rightarrow> string \<times> bool \<Rightarrow> string \<times> bool \<Rightarrow> (process_error_kind \<times> string, string \<times> string) result" where
  "planner_process_result timed_out out err =
     (if timed_out then Inl (Timeout, ''planner process timed out'')
      else if snd out \<or> snd err then Inl (OutputLimit, ''planner output exceeded bound'')
      else Inr (fst out, fst err))"

definition minimal_child_environment :: "(string \<times> string) list \<Rightarrow> string btree" where
  "minimal_child_environment extra =
     fold (\<lambda>(k, v). bt_insert k v) extra (bt_insert ''LC_ALL'' ''C'' (bt_insert ''LANG'' ''C'' []))"

section \<open>The broker\<close>

datatype watchme_error =
    UnsupportedContext string | Configuration string | TargetGone string | RetryableIntegration string
  | PolicyDenied string | HumanIsRequired string | CapabilityUnavailable string

record planner_request =
  pq_session_id :: string
  pq_event_id :: string
  pq_failed_provider_family :: string
  pq_snapshot_json :: json
  pq_day_key :: string
  pq_resolved :: "resolved_planner list"

record planner_result =
  pres_planner_id :: string
  pres_provider_family :: string
  pres_actions :: "action list"
  pres_used_second_opinion :: bool

record budget_state =
  bs_active :: u32
  bs_per_event :: "string \<rightharpoonup> u32"
  bs_per_session_day :: "string \<times> string \<rightharpoonup> u32"

definition budget_state_default :: budget_state where
  "budget_state_default = \<lparr>bs_active = 0, bs_per_event = Map.empty, bs_per_session_day = Map.empty\<rparr>"

definition count_of :: "('k \<rightharpoonup> u32) \<Rightarrow> 'k \<Rightarrow> u32" where
  "count_of m k = (case m k of None \<Rightarrow> 0 | Some n \<Rightarrow> n)"

definition acquire_budget ::
  "planning_config \<Rightarrow> planner_request \<Rightarrow> budget_state \<Rightarrow> (watchme_error, unit) result \<times> budget_state" where
  "acquire_budget planning q b =
     (if pl_max_concurrent_calls planning \<le> bs_active b
      then (Inl (PolicyDenied ''planner concurrency budget denied''), b)
      else if pl_max_calls_per_event planning \<le> count_of (bs_per_event b) (pq_event_id q)
      then (Inl (PolicyDenied ''planner per-event budget denied''), b)
      else if pl_max_calls_per_session_per_day planning
          \<le> count_of (bs_per_session_day b) (pq_session_id q, pq_day_key q)
      then (Inl (PolicyDenied ''planner per-session daily budget denied''), b)
      else (Inr (), b\<lparr>bs_active := bs_active b + 1\<rparr>))"

definition commit_budget :: "planner_request \<Rightarrow> budget_state \<Rightarrow> budget_state" where
  "commit_budget q b =
     (let key = (pq_session_id q, pq_day_key q)
      in b\<lparr>bs_per_event := (bs_per_event b)(pq_event_id q \<mapsto> count_of (bs_per_event b) (pq_event_id q) + 1),
           bs_per_session_day := (bs_per_session_day b)(key \<mapsto> count_of (bs_per_session_day b) key + 1)\<rparr>)"

definition release_concurrency :: "budget_state \<Rightarrow> budget_state" where
  "release_concurrency b = b\<lparr>bs_active := sat_sub (bs_active b) 1\<rparr>"

fun json_get :: "string \<Rightarrow> json \<Rightarrow> json option" where
  "json_get k (JObject m) = bt_get m k"
| "json_get k _ = None"

fun json_as_array :: "json \<Rightarrow> json list option" where
  "json_as_array (JArray xs) = Some xs"
| "json_as_array _ = None"

definition required_str :: "json \<Rightarrow> string \<Rightarrow> (watchme_error, string) result" where
  "required_str obj key =
     ok_or (Configuration (''snapshot missing '' @ key)) (Option.bind (json_get key obj) json_as_str)"

definition validation_context_from_snapshot ::
  "string \<Rightarrow> json \<Rightarrow> string \<Rightarrow> string \<Rightarrow> (watchme_error, plan_validation_context) result" where
  "validation_context_from_snapshot now snapshot failed planner =
     rbind (ok_or (Configuration ''snapshot missing watcher'') (json_get ''watcher'' snapshot)) (\<lambda>watcher.
     rbind (ok_or (Configuration ''snapshot missing target'') (json_get ''target'' snapshot)) (\<lambda>target.
     rbind (required_str watcher ''evidence_fingerprint'') (\<lambda>fp.
     rbind (required_str watcher ''watcher_id'') (\<lambda>wid.
     rbind (ok_or (Configuration ''snapshot missing process_pid'')
       (Option.bind (json_get ''process_pid'' target) json_as_u64)) (\<lambda>pid.
     rbind (required_str target ''process_start_time'') (\<lambda>start.
     rbind (required_str target ''mux_kind'') (\<lambda>mux.
     rbind (required_str target ''pane_id'') (\<lambda>pane.
     rbind (ok_or (Configuration ''snapshot missing allowed_actions'')
       (Option.bind (json_get ''allowed_actions'' snapshot) json_as_array)) (\<lambda>allowed.
     Inr \<lparr>pv_failed_provider_family = failed, pv_planner_provider_family = planner, pv_evidence_fingerprint = fp,
          pv_watcher_id = wid, pv_process_pid = ucast pid, pv_process_start_time = start, pv_mux_kind = mux,
          pv_pane_id = pane, pv_now_rfc3339 = now, pv_allowed_actions = List.map_filter json_as_str allowed\<rparr>)))))))))"

text \<open>What the run of a planner on a snapshot can yield: no working directory, an encoding error, an error of the
  process, or its output.\<close>

datatype planner_failure = NoDirectory string | NoEncoding string | ProcessError process_error_kind string

fun process_failure :: "planner_failure \<Rightarrow> watchme_error" where
  "process_failure (NoDirectory e) = RetryableIntegration e"
| "process_failure (NoEncoding e) = Configuration e"
| "process_failure (ProcessError kind e) =
     (if kind = Timeout then RetryableIntegration e
      else if kind = OutputLimit then PolicyDenied e else RetryableIntegration e)"

record planner_env =
  pe_decoders :: decoders
  pe_from_value :: "json \<Rightarrow> (string, recovery_plan) result"
  pe_parse :: rfc3339
  pe_now :: string
  pe_run :: "resolved_planner \<Rightarrow> json \<Rightarrow> (planner_failure, string) result"
  pe_regex :: regex_engine

definition invoke_one ::
  "planner_env \<Rightarrow> resolved_planner \<Rightarrow> json \<Rightarrow> string \<Rightarrow> (watchme_error, action list) result" where
  "invoke_one env planner snapshot failed =
     rbind (map_err process_failure (pe_run env planner snapshot)) (\<lambda>stdout.
     rbind (map_err (\<lambda>e. PolicyDenied (''planner schema rejected: '' @ e))
       (decode_recovery_plan (pe_decoders env) (pe_from_value env) (pe_parse env) (str_trim (from_utf8_lossy stdout)))) (\<lambda>plan.
     rbind (validation_context_from_snapshot (pe_now env) snapshot failed (rsp_provider_family planner)) (\<lambda>ctx.
     if pd_planner_provider_family (rp_diagnosis plan) \<noteq> rsp_provider_family planner
     then Inl (PolicyDenied ''planner family mismatch in plan'')
     else map_err PolicyDenied (validate_recovery_plan (pe_parse env) plan ctx))))"

fun try_planners ::
  "planner_env \<Rightarrow> json \<Rightarrow> string \<Rightarrow> nat \<Rightarrow> resolved_planner list \<Rightarrow> watchme_error \<Rightarrow> (watchme_error, planner_result) result" where
  "try_planners env snapshot failed index [] last_error = Inl last_error"
| "try_planners env snapshot failed index (p # ps) last_error =
     (case invoke_one env p snapshot failed of
        Inr actions \<Rightarrow>
          Inr \<lparr>pres_planner_id = rsp_id p, pres_provider_family = rsp_provider_family p,
               pres_actions = actions, pres_used_second_opinion = (0 < index)\<rparr>
      | Inl e \<Rightarrow> try_planners env snapshot failed (Suc index) ps e)"

definition invoke_with_optional_fallback ::
  "planner_env \<Rightarrow> planning_config \<Rightarrow> security_config \<Rightarrow> planner_request \<Rightarrow> (watchme_error, planner_result) result" where
  "invoke_with_optional_fallback env planning security q =
     (let snapshot = fst (redact_json (pe_regex env) (sc_extra_secret_names security) (pq_snapshot_json q));
          max_attempts = min (if pl_allow_independent_second_opinion planning then 2 else 1) (length (pq_resolved q))
      in try_planners env snapshot (pq_failed_provider_family q) 0 (take max_attempts (pq_resolved q))
           (HumanIsRequired ''no planner succeeded''))"

definition request_plan ::
  "planner_env \<Rightarrow> planning_config \<Rightarrow> security_config \<Rightarrow> planner_request \<Rightarrow> budget_state
     \<Rightarrow> (watchme_error, planner_result) result \<times> budget_state" where
  "request_plan env planning security q b =
     (if \<not> pl_enabled planning then (Inl (HumanIsRequired ''planning disabled; human required''), b)
      else if pq_resolved q = [] then (Inl (HumanIsRequired ''no independent planner available''), b)
      else case acquire_budget planning q b of
        (Inl e, b1) \<Rightarrow> (Inl e, b1)
      | (Inr _, b1) \<Rightarrow>
          (invoke_with_optional_fallback env planning security q,
           commit_budget q (release_concurrency b1)))"

section \<open>Snapshots\<close>

record snapshot_observation =
  so_event_id :: string
  so_category :: string
  so_source_kind :: string
  so_confidence :: f64
  so_summary :: string
  so_observed_at :: string

record snapshot_terminal =
  st_source :: string
  st_line_count :: nat
  st_text :: string
  st_truncated :: bool
  st_ansi_removed :: bool
  st_control_sequences_removed :: u32

record snapshot_build_input =
  si_snapshot_id :: string
  si_created_at :: string
  si_watcher_id :: string
  si_watcher_state :: string
  si_evidence_fingerprint :: string
  si_mux_kind :: string
  si_pane_id :: string
  si_process_pid :: u32
  si_process_start_time :: string
  si_identity_hash :: string
  si_agent_id :: "string option"
  si_provider_family :: "string option"
  si_failed_provider_family :: string
  si_terminal_text :: "string option"
  si_observations :: "snapshot_observation list"
  si_allowed_actions :: "string list"
  si_max_snapshot_bytes :: nat
  si_extra_secret_names :: "string list"

record snapshot_watcher =
  sw_watcher_id :: string
  sw_state :: string
  sw_evidence_fingerprint :: string

record snapshot_target =
  stg_mux_kind :: string
  stg_pane_id :: string
  stg_process_pid :: u32
  stg_process_start_time :: string
  stg_identity_hash :: string

record snapshot_agent =
  sa_agent_id :: "string option"
  sa_provider_family :: "string option"
  sa_failed_provider_family :: string

record snapshot_redaction =
  sr_performed :: bool
  sr_replacement_count :: nat
  sr_categories :: "string list"
  sr_raw_evidence_included :: bool

record redacted_snapshot =
  rs_schema_version :: string
  rs_snapshot_id :: string
  rs_created_at :: string
  rs_watcher :: snapshot_watcher
  rs_target :: snapshot_target
  rs_agent :: snapshot_agent
  rs_terminal :: "snapshot_terminal option"
  rs_observations :: "snapshot_observation list"
  rs_attempts :: "json list"
  rs_allowed_actions :: "string list"
  rs_redaction :: snapshot_redaction

datatype snapshot_error = Refused watchme_error | Panicked string

text \<open>\<open>String::truncate\<close>: it panics when the new length is inside a character.\<close>

definition str_truncate :: "nat \<Rightarrow> string \<Rightarrow> (snapshot_error, string) result" where
  "str_truncate n s =
     (if length s \<le> n then Inr s
      else if is_char_boundary s n then Inr (take n s) else Inl (Panicked ''truncate inside a character''))"

text \<open>\<open>while !bounded.is_char_boundary(bounded.len()) { bounded.pop(); }\<close>: the length of a string is a
  boundary of it, so the loop body never runs.\<close>

definition snapshot_terminal_of ::
  "regex_engine \<Rightarrow> snapshot_build_input \<Rightarrow> string \<Rightarrow> (snapshot_error, snapshot_terminal \<times> redaction_report) result" where
  "snapshot_terminal_of rx input s =
     (case redact_text rx (si_extra_secret_names input) s of (redacted, partial) \<Rightarrow>
      let budget = max (min (si_max_snapshot_bytes input * 3) USIZE_MAX div 4) 256;
          truncated = (budget < length redacted)
      in rbind (if truncated then str_truncate budget redacted else Inr redacted) (\<lambda>bounded.
         Inr (\<lparr>st_source = ''recent'', st_line_count = min (length (str_lines bounded)) 300, st_text = bounded,
               st_truncated = truncated, st_ansi_removed = True, st_control_sequences_removed = 0\<rparr>, partial)))"

fun redact_observations ::
  "regex_engine \<Rightarrow> string list \<Rightarrow> snapshot_observation list \<Rightarrow> redaction_report
     \<Rightarrow> snapshot_observation list \<times> redaction_report" where
  "redact_observations rx extra [] r = ([], r)"
| "redact_observations rx extra (x # xs) r =
     (case redact_text rx extra (so_summary x) of (summary, partial) \<Rightarrow>
      case redact_observations rx extra xs (report_merge partial r) of (ys, r1) \<Rightarrow>
        (x\<lparr>so_summary := summary\<rparr> # ys, r1))"

definition snapshot_of ::
  "snapshot_build_input \<Rightarrow> snapshot_terminal option \<Rightarrow> snapshot_observation list \<Rightarrow> redaction_report \<Rightarrow> redacted_snapshot" where
  "snapshot_of input terminal observations report =
     \<lparr>rs_schema_version = ''1.0'', rs_snapshot_id = si_snapshot_id input, rs_created_at = si_created_at input,
      rs_watcher = \<lparr>sw_watcher_id = si_watcher_id input, sw_state = si_watcher_state input,
        sw_evidence_fingerprint = si_evidence_fingerprint input\<rparr>,
      rs_target = \<lparr>stg_mux_kind = si_mux_kind input, stg_pane_id = si_pane_id input,
        stg_process_pid = si_process_pid input, stg_process_start_time = si_process_start_time input,
        stg_identity_hash = si_identity_hash input\<rparr>,
      rs_agent = \<lparr>sa_agent_id = si_agent_id input, sa_provider_family = si_provider_family input,
        sa_failed_provider_family = si_failed_provider_family input\<rparr>,
      rs_terminal = terminal, rs_observations = observations, rs_attempts = [],
      rs_allowed_actions = si_allowed_actions input,
      rs_redaction = \<lparr>sr_performed = True, sr_replacement_count = replacement_count report,
        sr_categories = map fst (categories report), sr_raw_evidence_included = False\<rparr>\<rparr>"

definition build_redacted_snapshot ::
  "regex_engine \<Rightarrow> (redacted_snapshot \<Rightarrow> (string, nat) result) \<Rightarrow> snapshot_build_input
     \<Rightarrow> (snapshot_error, redacted_snapshot) result" where
  "build_redacted_snapshot rx encoded_size input =
     rbind (case si_terminal_text input of
         None \<Rightarrow> Inr (None, redaction_report_default)
       | Some s \<Rightarrow> rbind (snapshot_terminal_of rx input s) (\<lambda>(t, partial).
           Inr (Some t, report_merge partial redaction_report_default))) (\<lambda>(terminal, report).
     case redact_observations rx (si_extra_secret_names input) (take 32 (si_observations input)) report of
       (observations, report1) \<Rightarrow>
         if observations = []
         then Inl (Refused (Configuration ''snapshot requires at least one observation''))
         else
           let snapshot = snapshot_of input terminal observations report1
           in rbind (map_err (\<lambda>e. Refused (Configuration e)) (encoded_size snapshot)) (\<lambda>n.
              if si_max_snapshot_bytes input < n
              then Inl (Refused (Configuration (''snapshot exceeds max_snapshot_bytes ('' @
                decimal (si_max_snapshot_bytes input) @ '')'')))
              else Inr snapshot))"

end
