(* ===== verification/Planner_Properties.thy ===== *)
theory Planner_Properties
  imports Planner
begin

text \<open>
  What the broker lets through: only actions the policy authorises, of allowed types, for the target and the
  evidence of the snapshot, from a planner of another provider family; within the budgets when requests
  follow one another, but not when they overlap. A snapshot of a long text can panic.
\<close>

section \<open>Plans\<close>

lemma check_actions_Inr:
  assumes "check_actions parse ctx as = Inr bs"
  shows "bs = as \<and> (\<forall>a \<in> set as. action_type_name (act_kind a) \<in> set (pv_allowed_actions ctx) \<and>
    \<not> types_prohibited (act_kind a) \<and> authorize parse a (plan_policy_context ctx) = Inr ())"
  using assms
proof (induction as arbitrary: bs)
  case (Cons a as)
  then show ?case by (auto simp: result_simps split: if_splits)
qed simp

lemma validate_plan_Inr:
  assumes "validate_recovery_plan parse plan ctx = Inr as"
  shows "as = rp_actions plan \<and> pv_planner_provider_family ctx \<noteq> pv_failed_provider_family ctx \<and>
    pt_watcher_id (rp_target plan) = pv_watcher_id ctx \<and> pt_pane_id (rp_target plan) = pv_pane_id ctx \<and>
    pt_process_pid (rp_target plan) = pv_process_pid ctx \<and>
    pt_evidence_fingerprint (rp_target plan) = pv_evidence_fingerprint ctx \<and>
    (\<exists>until now. parse (rp_valid_until plan) = Some until \<and> parse (pv_now_rfc3339 ctx) = Some now \<and> now \<le> until) \<and>
    check_actions parse ctx (rp_actions plan) = Inr as"
  using assms check_actions_Inr [of parse ctx "rp_actions plan" as]
  by (auto simp: validate_recovery_plan_def Let_def result_simps not_less split: if_splits)

lemma invoke_one_Inr:
  assumes "invoke_one env p snapshot failed = Inr as"
  shows "\<exists>ctx plan. validation_context_from_snapshot (pe_now env) snapshot failed (rsp_provider_family p) = Inr ctx \<and>
    validate_plan_bounds (pe_parse env) plan = Inr () \<and> validate_recovery_plan (pe_parse env) plan ctx = Inr as"
  using assms by (auto simp: invoke_one_def decode_recovery_plan_def result_simps split: if_splits)

lemma try_planners_Inr:
  assumes "try_planners env snapshot failed i ps e = Inr r"
  shows "\<exists>p \<in> set ps. invoke_one env p snapshot failed = Inr (pres_actions r) \<and>
    pres_provider_family r = rsp_provider_family p \<and> pres_planner_id r = rsp_id p"
  using assms
proof (induction ps arbitrary: i e)
  case (Cons p ps)
  then show ?case by (auto split: sum.splits)
qed simp

text \<open>The context is built from the snapshot alone.\<close>

lemma validation_context_families:
  "validation_context_from_snapshot now snapshot failed planner = Inr ctx \<Longrightarrow>
   pv_failed_provider_family ctx = failed \<and> pv_planner_provider_family ctx = planner \<and> pv_now_rfc3339 ctx = now"
  by (auto simp: validation_context_from_snapshot_def result_simps)

lemma validate_actions_length:
  "validate_plan_bounds parse plan = Inr () \<Longrightarrow> length (rp_actions plan) \<le> 12"
  by (simp add: validate_plan_bounds_def Let_def split: if_splits)

text \<open>C33: Whatever a planner process prints, the broker passes on at most twelve actions, each of a type the snapshot
  allows and each authorised by the policy, and only from a planner whose provider family differs from the
  failed one; in particular every text or key among them is on the policy's allowlist.\<close>

theorem broker_passes_only_authorised_actions:
  assumes "request_plan env planning security q b = (Inr r, b')"
  shows "pres_provider_family r \<noteq> pq_failed_provider_family q \<and> length (pres_actions r) \<le> 12 \<and>
    (\<exists>ctx. validation_context_from_snapshot (pe_now env)
        (fst (redact_json (pe_regex env) (sc_extra_secret_names security) (pq_snapshot_json q)))
        (pq_failed_provider_family q) (pres_provider_family r) = Inr ctx \<and>
      (\<forall>a \<in> set (pres_actions r). action_type_name (act_kind a) \<in> set (pv_allowed_actions ctx) \<and>
        authorize (pe_parse env) a (plan_policy_context ctx) = Inr () \<and>
        (is_input (act_kind a) \<longrightarrow> input_allowed (act_kind a))))"
proof -
  let ?snapshot = "fst (redact_json (pe_regex env) (sc_extra_secret_names security) (pq_snapshot_json q))"
  from assms obtain p where
    i: "invoke_one env p ?snapshot (pq_failed_provider_family q) = Inr (pres_actions r)"
      "pres_provider_family r = rsp_provider_family p"
    by (auto simp: request_plan_def invoke_with_optional_fallback_def Let_def
        dest!: try_planners_Inr split: if_splits sum.splits prod.splits)
  from invoke_one_Inr [OF i(1)] obtain ctx plan where
    ctx: "validation_context_from_snapshot (pe_now env) ?snapshot (pq_failed_provider_family q) (rsp_provider_family p) = Inr ctx"
    and bounds: "validate_plan_bounds (pe_parse env) plan = Inr ()"
    and val: "validate_recovery_plan (pe_parse env) plan ctx = Inr (pres_actions r)" by blast
  note fam = validation_context_families [OF ctx]
  note v = validate_plan_Inr [OF val]
  have acts: "\<forall>a \<in> set (pres_actions r). action_type_name (act_kind a) \<in> set (pv_allowed_actions ctx) \<and>
      authorize (pe_parse env) a (plan_policy_context ctx) = Inr ()"
    using v check_actions_Inr [of "pe_parse env" ctx "rp_actions plan"] by auto
  then have "\<forall>a \<in> set (pres_actions r). is_input (act_kind a) \<longrightarrow> input_allowed (act_kind a)"
    using kind_permitted_input by (fastforce simp: authorize_permits policy_permits_def)
  with acts fam v i(2) ctx validate_actions_length [OF bounds] show ?thesis by metis
qed

definition no_regex :: regex_engine where
  "no_regex = \<lparr>rx_count = (\<lambda>_ _. 0), rx_replace = (\<lambda>_ s. s), rx_urls = (\<lambda>s. [Gap s])\<rparr>"

lemma no_regex_text: "redact_text no_regex [] s = (s, redaction_report_default)"
  by (simp add: redact_text_def apply_and_mark_def apply_pattern_def no_regex_def report_mark_def redact_urls_def
      patterns_def Let_def)

definition example_plan :: recovery_plan where
  "example_plan =
     \<lparr>rp_schema_version = ''1.0'', rp_plan_id = ''p'', rp_generated_at = ''t'', rp_valid_until = ''t'',
      rp_target = \<lparr>pt_watcher_id = ''w'', pt_process_pid = 7, pt_process_start_time = ''9'', pt_mux_kind = ''tmux'',
        pt_mux_server_id = None, pt_pane_id = ''%1'', pt_agent_id = None, pt_session_id = None,
        pt_evidence_fingerprint = ''fedcba9876543210''\<rparr>,
      rp_diagnosis = \<lparr>pd_category = ''usage_limit'', pd_confidence = Finite 1, pd_summary = ''limit'',
        pd_failed_provider_family = ''anthropic'', pd_planner_provider_family = ''openai'',
        pd_human_required = False, pd_uncertainties = []\<rparr>,
      rp_actions = [action_submit_text ''a'' ''continue'' ''why'' ''fedcba9876543210'']\<rparr>"

definition example_planner_env :: planner_env where
  "example_planner_env =
     \<lparr>pe_decoders = \<lparr>decode_string = Inr, decode_number = Inl\<rparr>, pe_from_value = (\<lambda>_. Inr example_plan),
      pe_parse = (\<lambda>_. Some 0), pe_now = ''t'', pe_run = (\<lambda>_ _. Inr ''null''), pe_regex = no_regex\<rparr>"

definition example_planner_request :: planner_request where
  "example_planner_request =
     \<lparr>pq_session_id = ''s'', pq_event_id = ''e'', pq_failed_provider_family = ''anthropic'',
      pq_snapshot_json = JObject
        [(''allowed_actions'', JArray [JString ''SUBMIT_TEXT'']),
         (''target'', JObject [(''mux_kind'', JString ''tmux''), (''pane_id'', JString ''%1''),
           (''process_pid'', JNumber (PosInt 7)), (''process_start_time'', JString ''9'')]),
         (''watcher'', JObject [(''evidence_fingerprint'', JString ''fedcba9876543210''), (''watcher_id'', JString ''w'')])],
      pq_day_key = ''d'',
      pq_resolved = [\<lparr>rsp_id = ''codex'', rsp_executable = ''codex'', rsp_provider_family = ''openai'', rsp_args = []\<rparr>]\<rparr>"

definition example_planner_result :: planner_result where
  "example_planner_result =
     \<lparr>pres_planner_id = ''codex'', pres_provider_family = ''openai'',
      pres_actions = [action_submit_text ''a'' ''continue'' ''why'' ''fedcba9876543210''], pres_used_second_opinion = False\<rparr>"

definition example_validation_context :: plan_validation_context where
  "example_validation_context =
     \<lparr>pv_failed_provider_family = ''anthropic'', pv_planner_provider_family = ''openai'',
      pv_evidence_fingerprint = ''fedcba9876543210'', pv_watcher_id = ''w'', pv_process_pid = 7,
      pv_process_start_time = ''9'', pv_mux_kind = ''tmux'', pv_pane_id = ''%1'', pv_now_rfc3339 = ''t'',
      pv_allowed_actions = [''SUBMIT_TEXT'']\<rparr>"

lemma example_redacted:
  "fst (redact_json no_regex [] (pq_snapshot_json example_planner_request)) = pq_snapshot_json example_planner_request"
  by code_simp

lemma example_decoded:
  "decode_recovery_plan (pe_decoders example_planner_env) (pe_from_value example_planner_env) (pe_parse example_planner_env)
     (str_trim (from_utf8_lossy ''null'')) = Inr example_plan"
  by code_simp

lemma example_context:
  "validation_context_from_snapshot ''t'' (pq_snapshot_json example_planner_request) ''anthropic'' ''openai'' =
     Inr example_validation_context"
  by code_simp

lemma example_validated:
  "validate_recovery_plan (\<lambda>_. Some 0) example_plan example_validation_context = Inr (pres_actions example_planner_result)"
  by code_simp

lemma example_invoked:
  "invoke_one example_planner_env (hd (pq_resolved example_planner_request)) (pq_snapshot_json example_planner_request)
     ''anthropic'' = Inr (pres_actions example_planner_result)"
proof -
  have env: "pe_run example_planner_env p j = Inr ''null''" "pe_now example_planner_env = ''t''"
    "pe_parse example_planner_env = (\<lambda>_. Some 0)"
    "rsp_provider_family (hd (pq_resolved example_planner_request)) = ''openai''"
    "pd_planner_provider_family (rp_diagnosis example_plan) = ''openai''" for p j
    by (simp_all add: example_planner_env_def example_planner_request_def example_plan_def)
  show ?thesis
    using example_decoded by (simp add: invoke_one_def env example_context example_validated result_simps)
qed

lemma example_request_succeeds:
  "fst (request_plan example_planner_env planning_config_default security_config_default example_planner_request
     budget_state_default) = Inr example_planner_result"
proof -
  define p where "p = hd (pq_resolved example_planner_request)"
  have q: "pq_resolved example_planner_request = [p]" "pq_failed_provider_family example_planner_request = ''anthropic''"
    "rsp_provider_family p = ''openai''" "rsp_id p = ''codex''" "pe_regex example_planner_env = no_regex"
    "sc_extra_secret_names security_config_default = []"
    by (simp_all add: p_def example_planner_request_def example_planner_env_def security_config_default_def)
  have take: "take (min (if b then 2 else 1) (length [p])) [p] = [p]" for b :: bool by simp
  have "invoke_with_optional_fallback example_planner_env planning_config_default security_config_default
      example_planner_request = Inr example_planner_result"
    unfolding invoke_with_optional_fallback_def q(1,2) Let_def take
    by (simp add: q(3-6) example_redacted example_invoked [folded p_def] example_planner_result_def)
  moreover have "acquire_budget planning_config_default q budget_state_default =
      (Inr (), budget_state_default\<lparr>bs_active := 1\<rparr>)" for q
    by (simp add: acquire_budget_def planning_config_default_def budget_state_default_def count_of_def)
  moreover have "pq_resolved example_planner_request \<noteq> []" "pl_enabled planning_config_default"
    by (simp_all add: example_planner_request_def planning_config_default_def)
  ultimately show ?thesis by (simp add: request_plan_def)
qed

theorem broker_passes_only_authorised_actions_witness:
  "input_allowed (SubmitText ''continue'') \<and> pres_provider_family example_planner_result \<noteq> ''anthropic''"
proof -
  have run: "request_plan example_planner_env planning_config_default security_config_default example_planner_request
      budget_state_default = (Inr example_planner_result, snd (request_plan example_planner_env planning_config_default
        security_config_default example_planner_request budget_state_default))"
    by (simp add: prod_eq_iff example_request_succeeds)
  from broker_passes_only_authorised_actions [OF run] show ?thesis
    by (auto simp: example_planner_result_def example_planner_request_def action_submit_text_def Let_def)
qed

section \<open>Routing\<close>

lemma route_priority_ids:
  "p \<in> set (route_priority planning failed ids m) \<Longrightarrow>
   \<exists>wid c. bt_get m wid = Some c \<and> eligible_planner planning failed wid c = Some p \<and> wid \<in> set ids"
proof (induction planning failed ids m rule: route_priority.induct)
  case (2 planning failed wid ids m)
  show ?case
  proof (cases "bt_get m wid")
    case None
    with 2 show ?thesis by auto
  next
    case (Some c)
    from 2(3) Some consider "eligible_planner planning failed wid c = Some p"
      | "p \<in> set (route_priority planning failed ids (bt_remove wid m))"
      by (auto simp: Let_def split: option.splits)
    then show ?thesis
    proof cases
      case 1
      with Some show ?thesis by auto
    next
      case 2
      from "2.IH"(2) [OF Some this] show ?thesis by (auto simp: bt.get_del split: if_splits)
    qed
  qed
qed simp

lemma eligible_planner_Some:
  "eligible_planner planning failed wid c = Some p \<Longrightarrow>
   cap_available c \<and> \<not> cap_unsafe_mode c \<and> rsp_id p = cap_id c \<and>
   rsp_provider_family p = normalize_family (cap_resolved_family c) \<and>
   rsp_provider_family p \<noteq> normalize_family failed \<and>
   (rsp_provider_family p = ''unknown'' \<longrightarrow> pl_allow_unknown_provider_family planning)"
  by (auto simp: eligible_planner_def Let_def split: if_splits option.splits)

lemma route_priority_distinct:
  assumes "\<forall>wid c. bt_get m wid = Some c \<longrightarrow> cap_id c = wid"
  shows "distinct (map rsp_id (route_priority planning failed ids m))"
  using assms
proof (induction planning failed ids m rule: route_priority.induct)
  case (2 planning failed wid ids m)
  show ?case
  proof (cases "bt_get m wid")
    case (Some c)
    have keys: "\<forall>k d. bt_get (bt_remove wid m) k = Some d \<longrightarrow> cap_id d = k"
      using 2(3) by (simp add: bt.get_del)
    have "rsp_id p \<noteq> wid" if "p \<in> set (route_priority planning failed ids (bt_remove wid m))" for p
    proof -
      from route_priority_ids [OF that] obtain k d where
        k: "bt_get (bt_remove wid m) k = Some d" "eligible_planner planning failed k d = Some p" by blast
      from k(1) have "k \<noteq> wid" by (auto simp: bt.get_del)
      with keys k eligible_planner_Some [OF k(2)] show ?thesis by auto
    qed
    then have other: "wid \<notin> rsp_id ` set (route_priority planning failed ids (bt_remove wid m))" by auto
    have c: "cap_id c = wid" using 2(3) Some by simp
    have later: "distinct (map rsp_id (route_priority planning failed ids (bt_remove wid m)))"
      by (rule 2(2) [OF Some keys])
    show ?thesis
    proof (cases "eligible_planner planning failed wid c")
      case None
      with Some later show ?thesis by (simp add: Let_def)
    next
      case e: (Some p)
      have "rsp_id p = wid" using eligible_planner_Some [OF e] c by simp
      with Some e later other show ?thesis by (simp add: Let_def)
    qed
  qed (use 2 in simp)
qed simp

text \<open>Routing offers each planner at most once and only planners that were probed, are available, do not run in
  an unsafe mode and have a provider family other than the failed one; an unknown family only when the
  configuration allows it; and a human is required exactly when nobody is left.\<close>

theorem routing_excludes_failed_family:
  assumes "router_select planning failed candidates = out"
  shows "distinct (map rsp_id (ro_eligible out)) \<and> (ro_human_required out \<longleftrightarrow> ro_eligible out = []) \<and>
    list_all (\<lambda>p. rsp_provider_family p \<noteq> normalize_family failed \<and> rsp_id p \<in> set (pl_planner_priority planning) \<and>
      (rsp_provider_family p = ''unknown'' \<longrightarrow> pl_allow_unknown_provider_family planning) \<and>
      list_ex (\<lambda>c. cap_id c = rsp_id p \<and> cap_available c \<and> \<not> cap_unsafe_mode c) candidates) (ro_eligible out)"
proof -
  have out_def: "out = router_select planning failed candidates" using assms by simp
  let ?m = "bt_from_list (map (\<lambda>c. (cap_id c, c)) candidates)"
  have keys: "cap_id c = wid \<and> c \<in> set candidates" if "bt_get ?m wid = Some c" for wid c
    using map_of_SomeD [OF that] bt_from_list_subset [of "map (\<lambda>c. (cap_id c, c)) candidates"] by auto
  have "distinct (map rsp_id (route_priority planning failed (pl_planner_priority planning) ?m))"
    by (rule route_priority_distinct) (use keys in blast)
  then have "distinct (map rsp_id (ro_eligible out))"
    by (simp add: out_def router_select_def resolve_eligible_planners_def Let_def)
  moreover have "rsp_provider_family p \<noteq> normalize_family failed \<and> rsp_id p \<in> set (pl_planner_priority planning) \<and>
      (rsp_provider_family p = ''unknown'' \<longrightarrow> pl_allow_unknown_provider_family planning) \<and>
      list_ex (\<lambda>c. cap_id c = rsp_id p \<and> cap_available c \<and> \<not> cap_unsafe_mode c) candidates"
    if "p \<in> set (ro_eligible out)" for p
  proof -
    from that have "p \<in> set (route_priority planning failed (pl_planner_priority planning) ?m)"
      by (simp add: out_def router_select_def resolve_eligible_planners_def Let_def split: if_splits)
    from route_priority_ids [OF this] obtain wid c where
      c: "bt_get ?m wid = Some c" "eligible_planner planning failed wid c = Some p" "wid \<in> set (pl_planner_priority planning)"
      by blast
    from eligible_planner_Some [OF c(2)] keys [OF c(1)] c(3) show ?thesis by (auto simp: list_ex_iff)
  qed
  ultimately show ?thesis by (simp add: out_def router_select_def Let_def list_all_iff)
qed

definition example_capability :: "string \<Rightarrow> string \<Rightarrow> planner_capability" where
  "example_capability name family =
     \<lparr>cap_id = name, cap_executable = name, cap_configured_family = family, cap_resolved_family = family,
      cap_available = True, cap_unsafe_mode = False\<rparr>"

definition example_planning :: planning_config where
  "example_planning =
     \<lparr>pl_enabled = True, pl_max_calls_per_event = 1, pl_allow_independent_second_opinion = False,
      pl_max_calls_per_session_per_day = 4, pl_max_concurrent_calls = 1, pl_timeout_seconds = 90,
      pl_max_output_bytes = 9, pl_max_snapshot_bytes = 9, pl_allow_unknown_provider_family = False,
      pl_allow_repository_context = False, pl_allow_network = False,
      pl_planner_priority = [''claude'', ''codex''], pl_planners = []\<rparr>"

theorem routing_excludes_failed_family_witness:
  "ro_eligible (router_select example_planning ''Anthropic''
     [example_capability ''claude'' ''anthropic'', example_capability ''codex'' ''OpenAI'']) \<noteq> [] \<and>
   list_all (\<lambda>p. rsp_provider_family p \<noteq> ''anthropic'') (ro_eligible (router_select example_planning ''Anthropic''
     [example_capability ''claude'' ''anthropic'', example_capability ''codex'' ''OpenAI'']))"
proof -
  let ?cs = "[example_capability ''claude'' ''anthropic'', example_capability ''codex'' ''OpenAI'']"
  obtain out where out: "router_select example_planning ''Anthropic'' ?cs = out" by blast
  have m: "bt_from_list (map (\<lambda>c. (cap_id c, c)) ?cs) =
      [(''claude'', example_capability ''claude'' ''anthropic''), (''codex'', example_capability ''codex'' ''OpenAI'')]"
    by code_simp
  have n: "normalize_family ''Anthropic'' = ''anthropic''" by code_simp
  have n': "normalize_family ''anthropic'' = ''anthropic''" by code_simp
  have n'': "normalize_family ''OpenAI'' = ''openai''" by code_simp
  have e: "eligible_planner example_planning ''Anthropic'' ''claude'' (example_capability ''claude'' ''anthropic'') = None"
    "eligible_planner example_planning ''Anthropic'' ''codex'' (example_capability ''codex'' ''OpenAI'') \<noteq> None"
    by (simp_all add: eligible_planner_def example_capability_def example_planning_def n n' n'')
  have "pl_enabled example_planning" "pl_planner_priority example_planning = [''claude'', ''codex'']"
    by (simp_all add: example_planning_def)
  with e(1) e(2) have "ro_eligible out \<noteq> []"
    unfolding out [symmetric] router_select_def resolve_eligible_planners_def m
    by (auto simp: Let_def bt_remove.simps)
  moreover have "list_all (\<lambda>p. rsp_provider_family p \<noteq> normalize_family ''Anthropic'') (ro_eligible out)"
    using routing_excludes_failed_family [OF out] unfolding list_all_iff by blast
  ultimately show ?thesis unfolding out n by simp
qed

section \<open>Process output\<close>

lemma read_capped_spec:
  assumes "length acc \<le> limit" "list_all (\<lambda>c. c \<noteq> []) chunks"
  shows "read_capped limit chunks fails (acc, hit) =
    (take limit (acc @ concat chunks), hit \<or> limit < length (acc @ concat chunks) \<or> fails)"
  using assms
proof (induction chunks arbitrary: acc hit)
  case (Cons chunk chunks)
  show ?case
  proof (cases "limit \<le> length acc")
    case True
    with Cons.prems have "limit = length acc" "0 < length chunk" by auto
    with Cons.IH [of acc True] Cons.prems show ?thesis by auto
  next
    case False
    let ?r = "limit - length acc"
    have "min (length chunk) ?r = length (take ?r chunk)" by (simp add: min.commute)
    with False Cons.IH [of "acc @ take ?r chunk" "hit \<or> ?r < length chunk"] Cons.prems show ?thesis
      by (auto simp: Let_def min_def)
  qed
qed simp

section \<open>Budgets\<close>

definition reaches_planner :: "planning_config \<Rightarrow> planner_request \<Rightarrow> budget_state \<Rightarrow> bool" where
  "reaches_planner planning q b =
     (pl_enabled planning \<and> pq_resolved q \<noteq> [] \<and> is_ok (fst (acquire_budget planning q b)))"

text \<open>The requests of a sequence, one after the other, that reach a planner.\<close>

fun planner_calls ::
  "planner_env \<Rightarrow> planning_config \<Rightarrow> security_config \<Rightarrow> planner_request list \<Rightarrow> budget_state \<Rightarrow> planner_request list" where
  "planner_calls env planning security [] b = []"
| "planner_calls env planning security (q # qs) b =
     (if reaches_planner planning q b then [q] else [])
       @ planner_calls env planning security qs (snd (request_plan env planning security q b))"

lemma acquire_budget_ok:
  "is_ok (fst (acquire_budget planning q b)) \<Longrightarrow>
   count_of (bs_per_event b) (pq_event_id q) < pl_max_calls_per_event planning \<and>
   snd (acquire_budget planning q b) = b\<lparr>bs_active := bs_active b + 1\<rparr>"
  by (auto simp: acquire_budget_def not_le split: if_splits)

lemma request_plan_state:
  "snd (request_plan env planning security q b) =
     (if reaches_planner planning q b then commit_budget q (release_concurrency (b\<lparr>bs_active := bs_active b + 1\<rparr>)) else b)"
proof (cases "acquire_budget planning q b")
  case (Pair r b1)
  then show ?thesis
    using acquire_budget_ok [of planning q b]
    by (cases r) (auto simp: request_plan_def reaches_planner_def acquire_budget_def split: if_splits)
qed

definition event_calls :: "string \<Rightarrow> planner_request list \<Rightarrow> nat" where
  "event_calls e qs = length (filter (\<lambda>q. pq_event_id q = e) qs)"

lemma planner_calls_bounded:
  "unat (count_of (bs_per_event b) e) \<le> unat (pl_max_calls_per_event planning) \<Longrightarrow>
   event_calls e (planner_calls env planning security qs b) + unat (count_of (bs_per_event b) e)
     \<le> unat (pl_max_calls_per_event planning)"
proof (induction qs arbitrary: b)
  case (Cons q qs)
  let ?b = "snd (request_plan env planning security q b)"
  show ?case
  proof (cases "reaches_planner planning q b \<and> pq_event_id q = e")
    case True
    have less: "count_of (bs_per_event b) e < pl_max_calls_per_event planning"
      using True acquire_budget_ok [of planning q b] by (simp add: reaches_planner_def)
    have "count_of (bs_per_event ?b) e = count_of (bs_per_event b) e + 1"
      using True by (simp add: request_plan_state commit_budget_def release_concurrency_def count_of_def Let_def)
    then have inc: "unat (count_of (bs_per_event ?b) e) = unat (count_of (bs_per_event b) e) + 1"
      using unat_inc_below [OF less] by simp
    moreover have "unat (count_of (bs_per_event b) e) < unat (pl_max_calls_per_event planning)"
      using less by (simp add: word_less_nat_alt)
    ultimately show ?thesis using Cons.IH [of ?b] True by (simp add: event_calls_def)
  next
    case False
    then have "count_of (bs_per_event ?b) e = count_of (bs_per_event b) e"
      by (auto simp: request_plan_state commit_budget_def release_concurrency_def count_of_def Let_def)
    with Cons.IH [of ?b] Cons.prems False show ?thesis by (auto simp: event_calls_def)
  qed
qed (simp add: event_calls_def)

text \<open>Requests that follow one another never exceed the budget of an event: in any sequence of them, at most as
  many as the configuration allows per event reach a planner.\<close>

theorem sequential_calls_within_event_budget:
  "event_calls e (planner_calls env planning security qs budget_state_default) \<le> unat (pl_max_calls_per_event planning)"
  using planner_calls_bounded [of budget_state_default e planning env security qs]
  by (simp add: budget_state_default_def count_of_def)

section \<open>Overlapping requests\<close>

text \<open>The broker is shared by threads. A request takes three steps under the lock, with the call of the planner
  between the first and the second.\<close>

datatype phase = Waiting | Calling | Released | Committed

inductive broker_step ::
  "planning_config \<Rightarrow> (nat \<Rightarrow> planner_request) \<Rightarrow> budget_state \<times> (nat \<Rightarrow> phase) \<Rightarrow> budget_state \<times> (nat \<Rightarrow> phase) \<Rightarrow> bool"
  for planning qs where
  acquire: "ph i = Waiting \<Longrightarrow> acquire_budget planning (qs i) b = (Inr (), b') \<Longrightarrow>
    broker_step planning qs (b, ph) (b', ph(i := Calling))"
| release: "ph i = Calling \<Longrightarrow> broker_step planning qs (b, ph) (release_concurrency b, ph(i := Released))"
| commit: "ph i = Released \<Longrightarrow> broker_step planning qs (b, ph) (commit_budget (qs i) b, ph(i := Committed))"

text \<open>C39: Requests that overlap can exceed the budget of an event: with the default configuration, which allows one
  call per event and one at a time, two threads can both call a planner for the same event, because the second
  may acquire after the first has released its slot and before it has recorded its call.\<close>

theorem overlapping_calls_exceed_event_budget:
  "\<exists>b ph. (broker_step planning_config_default (\<lambda>_. q))\<^sup>*\<^sup>* (budget_state_default, \<lambda>_. Waiting) (b, ph) \<and>
     card {i. ph i \<noteq> Waiting} = 2 \<and> pl_max_calls_per_event planning_config_default = 1 \<and>
     pl_max_concurrent_calls planning_config_default = 1"
proof -
  let ?p = planning_config_default
  let ?step = "broker_step ?p (\<lambda>_. q)"
  let ?b1 = "budget_state_default\<lparr>bs_active := 1\<rparr>"
  let ?b2 = "release_concurrency ?b1"
  have conf: "pl_max_calls_per_event ?p = 1" "pl_max_concurrent_calls ?p = 1" "pl_max_calls_per_session_per_day ?p = 4"
    by (simp_all add: planning_config_default_def)
  have acq: "acquire_budget ?p q b = (Inr (), b\<lparr>bs_active := 1\<rparr>)"
    if "bs_active b = 0" "bs_per_event b = Map.empty" "bs_per_session_day b = Map.empty" for b
    using that by (simp add: acquire_budget_def conf count_of_def)
  have s1: "?step (budget_state_default, \<lambda>_. Waiting) (?b1, (\<lambda>_. Waiting)(0 := Calling))"
    by (rule broker_step.acquire) (simp_all add: acq budget_state_default_def)
  have s2: "?step (?b1, (\<lambda>_. Waiting)(0 := Calling)) (?b2, ((\<lambda>_. Waiting)(0 := Calling))(0 := Released))"
    by (rule broker_step.release) simp
  let ?ph = "((\<lambda>_. Waiting)(0 := Calling))(0 := Released)"
  have s3: "?step (?b2, ?ph) (?b2\<lparr>bs_active := 1\<rparr>, ?ph(1 := Calling))"
    by (rule broker_step.acquire) (simp_all add: acq budget_state_default_def release_concurrency_def sat_sub_def)
  have "?step\<^sup>*\<^sup>* (budget_state_default, \<lambda>_. Waiting) (?b2\<lparr>bs_active := 1\<rparr>, ?ph(1 := Calling))"
    using s1 s2 s3 by (meson converse_rtranclp_into_rtranclp rtranclp.rtrancl_refl)
  moreover have "{i :: nat. (?ph(1 := Calling)) i \<noteq> Waiting} = {0, 1}" by auto
  then have "card {i :: nat. (?ph(1 := Calling)) i \<noteq> Waiting} = card {0, 1 :: nat}" by (rule arg_cong)
  then have "card {i :: nat. (?ph(1 := Calling)) i \<noteq> Waiting} = 2" by simp
  ultimately show ?thesis using conf by blast
qed

section \<open>Long terminal texts\<close>

definition terminal_limit :: "snapshot_build_input \<Rightarrow> nat" where
  "terminal_limit input = max (min (si_max_snapshot_bytes input * 3) USIZE_MAX div 4) 256"

text \<open>Building a snapshot panics when the redacted terminal text is longer than its share of the budget and the
  cut falls inside a character: the text is truncated before the loop that looks for a character boundary.\<close>

theorem snapshot_panics_inside_character:
  assumes "si_terminal_text input = Some s" "redact_text rx (si_extra_secret_names input) s = (redacted, report)"
    and "terminal_limit input < length redacted" "\<not> is_char_boundary redacted (terminal_limit input)"
  shows "build_redacted_snapshot rx encoded input = Inl (Panicked ''truncate inside a character'')"
proof -
  have "str_truncate (terminal_limit input) redacted = Inl (Panicked ''truncate inside a character'')"
    using assms(3,4) by (simp add: str_truncate_def del: max_less_iff_conj)
  then have "snapshot_terminal_of rx input s = Inl (Panicked ''truncate inside a character'')"
    using assms(2,3) by (simp add: snapshot_terminal_of_def terminal_limit_def Let_def result_simps)
  then show ?thesis by (simp add: build_redacted_snapshot_def assms(1) result_simps)
qed

definition euro_signs :: string where
  "euro_signs = concat (replicate 90 (map char_of [226 :: nat, 130, 172]))"

definition example_snapshot_input :: snapshot_build_input where
  "example_snapshot_input =
     \<lparr>si_snapshot_id = ''s'', si_created_at = [], si_watcher_id = ''w'', si_watcher_state = [], si_evidence_fingerprint = [],
      si_mux_kind = [], si_pane_id = [], si_process_pid = 1, si_process_start_time = [], si_identity_hash = [],
      si_agent_id = None, si_provider_family = None, si_failed_provider_family = [],
      si_terminal_text = Some euro_signs, si_observations = [], si_allowed_actions = [],
      si_max_snapshot_bytes = 300, si_extra_secret_names = []\<rparr>"

theorem snapshot_panics_inside_character_witness:
  "build_redacted_snapshot no_regex (\<lambda>_. Inr 1) example_snapshot_input = Inl (Panicked ''truncate inside a character'')"
proof (rule snapshot_panics_inside_character)
  have limit: "terminal_limit example_snapshot_input = 256"
    by (simp add: terminal_limit_def example_snapshot_input_def USIZE_MAX_def)
  show "si_terminal_text example_snapshot_input = Some euro_signs" by (simp add: example_snapshot_input_def)
  show "redact_text no_regex (si_extra_secret_names example_snapshot_input) euro_signs = (euro_signs, redaction_report_default)"
    by (simp add: example_snapshot_input_def no_regex_text)
  have len: "length euro_signs = 270" by (simp add: euro_signs_def length_concat sum_list_replicate)
  then show "terminal_limit example_snapshot_input < length euro_signs" by (simp add: limit)
  have "is_cont (euro_signs ! 256)" by code_simp
  then show "\<not> is_char_boundary euro_signs (terminal_limit example_snapshot_input)"
    by (simp add: limit is_char_boundary_def len)
qed

end
