(* ===== verification/Reset_Time.thy ===== *)
theory Reset_Time
  imports Text
begin

text \<open>
  The parser of reset messages (\<open>src/src/recovery/reset_time.rs\<close>): a relative duration, or a wall-clock time
  with an optional date and zone. Dates and the time-zone database are chrono's; the operations the parser uses
  of them are the record \<open>calendar\<close>. An instant is its timestamp with its sub-second part and its offset.
\<close>

section \<open>Dates and zones\<close>

record datetime =
  dt_timestamp :: int
  dt_nanos :: nat
  dt_offset :: int

datatype 'z zone = Iana 'z | FixedZone int

text \<open>
  \<open>cal_date\<close> is the date of an instant in its own offset and \<open>cal_date_in\<close> in a zone; \<open>cal_local\<close> the instants
  that show a local time in a zone (none, one or two) and \<open>cal_fixed\<close> the one in an offset. Adding to an instant
  or to a date panics outside chrono's range, which is None.
\<close>

record ('z, 'd) calendar =
  cal_parse_zone :: "string \<Rightarrow> 'z option"
  cal_zone_name :: "'z \<Rightarrow> string"
  cal_offset_name :: "int \<Rightarrow> string"
  cal_date :: "datetime \<Rightarrow> 'd"
  cal_date_in :: "'z \<Rightarrow> datetime \<Rightarrow> 'd"
  cal_year :: "'d \<Rightarrow> int"
  cal_ymd :: "int \<Rightarrow> nat \<Rightarrow> nat \<Rightarrow> 'd option"
  cal_with_year :: "'d \<Rightarrow> int \<Rightarrow> 'd option"
  cal_add_days :: "'d \<Rightarrow> nat \<Rightarrow> 'd option"
  cal_local :: "'z \<Rightarrow> 'd \<Rightarrow> nat \<Rightarrow> nat \<Rightarrow> datetime list"
  cal_fixed :: "int \<Rightarrow> 'd \<Rightarrow> nat \<Rightarrow> nat \<Rightarrow> datetime option"
  cal_add_seconds :: "datetime \<Rightarrow> int \<Rightarrow> datetime option"

record reset_time =
  rt_at :: datetime
  rt_confidence_milli :: nat
  rt_timezone :: string
  rt_margin_seconds :: nat

definition MIN_WALL_FUTURE_SECONDS :: int where
  "MIN_WALL_FUTURE_SECONDS = 300"

text \<open>\<open>trim_matches\<close>: what is trimmed is no ASCII letter, digit or slash, so trimming bytes trims characters.\<close>

definition trim_bytes :: "(char \<Rightarrow> bool) \<Rightarrow> string \<Rightarrow> string" where
  "trim_bytes P s = rev (dropWhile P (rev (dropWhile P s)))"

fun find_map :: "('a \<Rightarrow> 'b option) \<Rightarrow> 'a list \<Rightarrow> 'b option" where
  "find_map f [] = None"
| "find_map f (x # xs) = (case f x of Some y \<Rightarrow> Some y | None \<Rightarrow> find_map f xs)"

definition zone_from_text :: "('z, 'd) calendar \<Rightarrow> string \<Rightarrow> int \<Rightarrow> 'z zone" where
  "zone_from_text cal s fallback =
     (let tokens = map (trim_bytes (\<lambda>c. \<not> is_ascii_alphanumeric c \<and> c \<noteq> CHR ''/'')) (split_whitespace s)
      in case find_map (\<lambda>t. if CHR ''/'' \<in> set t then cal_parse_zone cal t else None) tokens of
           None \<Rightarrow> FixedZone fallback
         | Some z \<Rightarrow> Iana z)"

fun zone_name :: "('z, 'd) calendar \<Rightarrow> 'z zone \<Rightarrow> string" where
  "zone_name cal (Iana z) = cal_zone_name cal z"
| "zone_name cal (FixedZone offset) = cal_offset_name cal offset"

fun local_date :: "('z, 'd) calendar \<Rightarrow> 'z zone \<Rightarrow> datetime \<Rightarrow> 'd" where
  "local_date cal (Iana z) now = cal_date_in cal z now"
| "local_date cal (FixedZone _) now = cal_date cal now"

fun local_candidates :: "('z, 'd) calendar \<Rightarrow> 'z zone \<Rightarrow> 'd \<Rightarrow> nat \<Rightarrow> nat \<Rightarrow> datetime list" where
  "local_candidates cal (Iana z) date h m = cal_local cal z date h m"
| "local_candidates cal (FixedZone offset) date h m =
     (case cal_fixed cal offset date h m of None \<Rightarrow> [] | Some t \<Rightarrow> [t])"

text \<open>\<open>min_by_key\<close>: the first of the least elements.\<close>

fun earliest :: "datetime list \<Rightarrow> datetime option" where
  "earliest [] = None"
| "earliest (t # ts) =
     (case earliest ts of None \<Rightarrow> Some t
      | Some u \<Rightarrow> if dt_timestamp u < dt_timestamp t then Some u else Some t)"

definition zone_resolve ::
  "('z, 'd) calendar \<Rightarrow> 'z zone \<Rightarrow> 'd \<Rightarrow> nat \<Rightarrow> nat \<Rightarrow> datetime \<Rightarrow> datetime option" where
  "zone_resolve cal zone date h m now =
     (if h < 24 \<and> m < 60
      then earliest (filter (\<lambda>t. dt_timestamp now < dt_timestamp t) (local_candidates cal zone date h m))
      else None)"

section \<open>Words\<close>

definition words :: "string \<Rightarrow> string list" where
  "words s = filter (\<lambda>g. g \<noteq> []) (split_when (\<lambda>c. \<not> is_ascii_alphanumeric c \<and> c \<noteq> CHR '':'') s)"

definition split_meridiem :: "string \<Rightarrow> string \<times> bool option" where
  "split_meridiem token =
     (case strip_suffix ''am'' token of Some v \<Rightarrow> (v, Some False)
      | None \<Rightarrow> (case strip_suffix ''pm'' token of Some v \<Rightarrow> (v, Some True) | None \<Rightarrow> (token, None)))"

definition meridiem :: "string \<Rightarrow> bool option" where
  "meridiem token = (if token = ''am'' then Some False else if token = ''pm'' then Some True else None)"

definition MONTHS :: "(string \<times> nat) list" where
  "MONTHS =
     [(''jan'', 1), (''feb'', 2), (''mar'', 3), (''apr'', 4), (''may'', 5), (''jun'', 6), (''jul'', 7),
      (''aug'', 8), (''sep'', 9), (''oct'', 10), (''nov'', 11), (''dec'', 12)]"

definition month :: "string \<Rightarrow> nat option" where
  "month token = map_of MONTHS (take (min (length token) 3) token)"

section \<open>Durations, times and dates\<close>

definition chk_int :: "nat \<Rightarrow> int \<Rightarrow> int option" where
  "chk_int w x = (if - (2 ^ (w - 1)) \<le> x \<and> x < 2 ^ (w - 1) then Some x else None)"

definition unit_seconds :: "string \<Rightarrow> int option" where
  "unit_seconds token =
     (if starts_with token ''h'' then Some 3600
      else if starts_with token ''m'' then Some 60
      else if starts_with token ''s'' then Some 1 else None)"

fun relative_seconds :: "string list \<Rightarrow> int option \<Rightarrow> int \<Rightarrow> int option" where
  "relative_seconds [] number seconds = Some seconds"
| "relative_seconds (token # tokens) number seconds =
     (case parse_signed 64 token of
        Some v \<Rightarrow> relative_seconds tokens (Some v) seconds
      | None \<Rightarrow>
          (case number of
             None \<Rightarrow> relative_seconds tokens None seconds
           | Some v \<Rightarrow>
               Option.bind (unit_seconds token) (\<lambda>multiplier.
               Option.bind (chk_int 64 (v * multiplier)) (\<lambda>product.
               Option.bind (chk_int 64 (seconds + product)) (\<lambda>total.
                 if 31536000 < total then None else relative_seconds tokens None total)))))"

definition parse_relative :: "string \<Rightarrow> int option" where
  "parse_relative s =
     Option.bind
       (case find_from ''resets in'' s of Some f \<Rightarrow> Some f
        | None \<Rightarrow> (case find_from ''reset in'' s of Some f \<Rightarrow> Some f | None \<Rightarrow> find_from ''try again in'' s))
       (\<lambda>fragment. Option.bind (relative_seconds (words fragment) None 0) (\<lambda>seconds.
          if 0 < seconds then Some seconds else None))"

text \<open>The time a token shows: nothing (the scan goes on), a refusal of the whole message, or hour and minute.\<close>

datatype clock_token = NoClock | BadClock | ClockAt nat nat "bool option"

definition clock_token :: "string \<Rightarrow> string list \<Rightarrow> clock_token" where
  "clock_token token rest =
     (case split_meridiem token of (digits, own) \<Rightarrow>
      let following = (case rest of [] \<Rightarrow> None | t # _ \<Rightarrow> meridiem t);
          shown = (if own \<noteq> None then own else following)
      in case split_once (CHR '':'') digits of
           Some (h, m) \<Rightarrow>
             (case (parse_unsigned 32 h, parse_unsigned 32 m) of
                (Some hour, Some minute) \<Rightarrow> ClockAt hour minute shown | _ \<Rightarrow> BadClock)
         | None \<Rightarrow>
             if shown \<noteq> None
             then (case parse_unsigned 32 digits of Some hour \<Rightarrow> ClockAt hour 0 shown | None \<Rightarrow> BadClock)
             else NoClock)"

definition clock_hour :: "bool option \<Rightarrow> nat \<Rightarrow> nat option" where
  "clock_hour shown hour =
     (case shown of
        Some is_pm \<Rightarrow> if 1 \<le> hour \<and> hour \<le> 12 then Some (hour mod 12 + (if is_pm then 12 else 0)) else None
      | None \<Rightarrow> if hour \<le> 23 then Some hour else None)"

fun parse_clock_tokens :: "string list \<Rightarrow> (nat \<times> nat) option" where
  "parse_clock_tokens [] = None"
| "parse_clock_tokens (token # tokens) =
     (case clock_token token tokens of
        NoClock \<Rightarrow> parse_clock_tokens tokens
      | BadClock \<Rightarrow> None
      | ClockAt h m shown \<Rightarrow>
          (case clock_hour shown h of
             None \<Rightarrow> parse_clock_tokens tokens
           | Some hour \<Rightarrow> if m < 60 then Some (hour, m) else parse_clock_tokens tokens))"

definition parse_clock :: "string \<Rightarrow> (nat \<times> nat) option" where
  "parse_clock s = parse_clock_tokens (words s)"

fun parse_date_tokens :: "('z, 'd) calendar \<Rightarrow> string list \<Rightarrow> 'd \<Rightarrow> ('d \<times> bool \<times> bool) option" where
  "parse_date_tokens cal [] fallback = Some (fallback, False, False)"
| "parse_date_tokens cal (token # tokens) fallback =
     (case month token of
        None \<Rightarrow> parse_date_tokens cal tokens fallback
      | Some mo \<Rightarrow>
          (case tokens of
             [] \<Rightarrow> None
           | d # rest \<Rightarrow>
               Option.bind (parse_unsigned 32 d) (\<lambda>day.
               let explicit = (case rest of y # _ \<Rightarrow> if length y = 4 then parse_signed 32 y else None | [] \<Rightarrow> None)
               in Option.bind (cal_ymd cal (case explicit of Some y \<Rightarrow> y | None \<Rightarrow> cal_year cal fallback) mo day)
                    (\<lambda>date. Some (date, True, explicit \<noteq> None)))))"

definition parse_date :: "('z, 'd) calendar \<Rightarrow> string \<Rightarrow> 'd \<Rightarrow> ('d \<times> bool \<times> bool) option" where
  "parse_date cal s fallback = parse_date_tokens cal (words s) fallback"

section \<open>The parser\<close>

datatype 'a outcome = Returned 'a | Overflowed

text \<open>The next two days, when the time has already passed on the first.\<close>

fun resolve_later ::
  "('z, 'd) calendar \<Rightarrow> 'z zone \<Rightarrow> 'd \<Rightarrow> nat \<Rightarrow> nat \<Rightarrow> datetime \<Rightarrow> nat list \<Rightarrow> datetime option outcome" where
  "resolve_later cal zone date h m now [] = Returned None"
| "resolve_later cal zone date h m now (days # later) =
     (case cal_add_days cal date days of
        None \<Rightarrow> Overflowed
      | Some next \<Rightarrow>
          (case zone_resolve cal zone next h m now of
             Some t \<Rightarrow> Returned (Some t)
           | None \<Rightarrow> resolve_later cal zone date h m now later))"

definition wall_candidate ::
  "('z, 'd) calendar \<Rightarrow> 'z zone \<Rightarrow> 'd \<Rightarrow> nat \<Rightarrow> nat \<Rightarrow> bool \<Rightarrow> bool \<Rightarrow> datetime \<Rightarrow> datetime option outcome" where
  "wall_candidate cal zone date h m named explicit now =
     (case zone_resolve cal zone date h m now of
        Some t \<Rightarrow> Returned (Some t)
      | None \<Rightarrow>
          if named
          then Returned (if explicit then None
            else Option.bind (chk_int 32 (cal_year cal date + 1)) (\<lambda>y.
              Option.bind (cal_with_year cal date y) (\<lambda>next. zone_resolve cal zone next h m now)))
          else resolve_later cal zone date h m now [1, 2])"

definition saturating_i64 :: "int \<Rightarrow> int" where
  "saturating_i64 x = max (- (2 ^ 63)) (min x (2 ^ 63 - 1))"

definition parse_reset :: "('z, 'd) calendar \<Rightarrow> string \<Rightarrow> datetime \<Rightarrow> reset_time option outcome" where
  "parse_reset cal s now =
     (let lower = to_ascii_lowercase s in
      if s = [] \<or> 500 < length s then Returned None
      else if \<not> (str_contains lower ''reset'' \<or> str_contains lower ''try again'') then Returned None
      else case parse_relative lower of
        Some seconds \<Rightarrow>
          (case cal_add_seconds cal now seconds of
             None \<Rightarrow> Overflowed
           | Some t \<Rightarrow> Returned (Some \<lparr>rt_at = t, rt_confidence_milli = 980,
               rt_timezone = cal_offset_name cal (dt_offset now), rt_margin_seconds = 60\<rparr>))
      | None \<Rightarrow>
          let zone = zone_from_text cal s (dt_offset now) in
          (case parse_clock lower of
             None \<Rightarrow> Returned None
           | Some (h, m) \<Rightarrow>
          (case parse_date cal lower (local_date cal zone now) of
             None \<Rightarrow> Returned None
           | Some (date, named, explicit) \<Rightarrow>
          (case wall_candidate cal zone date h m named explicit now of
             Overflowed \<Rightarrow> Overflowed
           | Returned None \<Rightarrow> Returned None
           | Returned (Some t) \<Rightarrow>
               if \<not> named \<and> saturating_i64 (dt_timestamp t - dt_timestamp now) < MIN_WALL_FUTURE_SECONDS
               then Returned None
               else Returned (Some \<lparr>rt_at = t, rt_confidence_milli = (if named then 930 else 860),
                 rt_timezone = zone_name cal zone, rt_margin_seconds = 60\<rparr>)))))"

section \<open>Properties\<close>

lemma earliest_mem: "earliest ts = Some t \<Longrightarrow> t \<in> set ts"
proof (induction ts arbitrary: t)
  case (Cons u ts)
  then show ?case by (cases "earliest ts") (auto split: if_splits)
qed simp

lemma zone_resolve_future: "zone_resolve cal zone date h m now = Some t \<Longrightarrow> dt_timestamp now < dt_timestamp t"
  by (auto simp: zone_resolve_def dest: earliest_mem split: if_splits)

lemma resolve_later_future:
  "resolve_later cal zone date h m now days = Returned (Some t) \<Longrightarrow> dt_timestamp now < dt_timestamp t"
  by (induction days) (auto dest: zone_resolve_future split: option.splits)

lemma wall_candidate_future:
  "wall_candidate cal zone date h m named explicit now = Returned (Some t) \<Longrightarrow> dt_timestamp now < dt_timestamp t"
  by (auto simp: wall_candidate_def bind_eq_Some_conv dest: zone_resolve_future resolve_later_future
      split: option.splits if_splits)

lemma relative_seconds_le:
  "relative_seconds tokens number seconds = Some n \<Longrightarrow> seconds \<le> 31536000 \<Longrightarrow> n \<le> 31536000"
  by (induction tokens number seconds rule: relative_seconds.induct)
    (auto simp: bind_eq_Some_conv split: option.splits if_splits)

lemma parse_relative_bounds: "parse_relative s = Some n \<Longrightarrow> 0 < n \<and> n \<le> 31536000"
  by (auto simp: parse_relative_def bind_eq_Some_conv dest: relative_seconds_le split: if_splits)

definition adds_seconds :: "('z, 'd) calendar \<Rightarrow> bool" where
  "adds_seconds cal \<longleftrightarrow> (\<forall>t s u. cal_add_seconds cal t s = Some u \<longrightarrow> dt_timestamp u = dt_timestamp t + s)"

lemma saturating_ge: "300 \<le> saturating_i64 x \<Longrightarrow> 300 \<le> x"
  by (simp add: saturating_i64_def max_def min_def split: if_splits)

text \<open>C24: A reset time lies in the future: a relative one within a year, a time of day without a date at least five
  minutes ahead. The confidence tells which of the forms was read.\<close>

theorem reset_is_in_the_future:
  assumes "adds_seconds cal" "parse_reset cal s now = Returned (Some r)"
  shows "dt_timestamp now < dt_timestamp (rt_at r) \<and> rt_margin_seconds r = 60 \<and>
    (rt_confidence_milli r = 980 \<and> dt_timestamp (rt_at r) \<le> dt_timestamp now + 31536000 \<or>
     rt_confidence_milli r = 930 \<or>
     rt_confidence_milli r = 860 \<and> dt_timestamp now + 300 \<le> dt_timestamp (rt_at r))"
proof (cases "parse_relative (to_ascii_lowercase s)")
  case (Some n)
  from parse_relative_bounds [OF this] have n: "0 < n" "n \<le> 31536000" by simp_all
  from assms(2) Some obtain t where "cal_add_seconds cal now n = Some t" "r = \<lparr>rt_at = t, rt_confidence_milli = 980,
      rt_timezone = cal_offset_name cal (dt_offset now), rt_margin_seconds = 60\<rparr>"
    by (auto simp: parse_reset_def Let_def split: if_splits option.splits)
  with n assms(1) show ?thesis by (simp add: adds_seconds_def)
next
  case None
  from assms(2) None obtain date named explicit h m t where
    t: "wall_candidate cal (zone_from_text cal s (dt_offset now)) date h m named explicit now = Returned (Some t)"
    and far: "named \<or> MIN_WALL_FUTURE_SECONDS \<le> saturating_i64 (dt_timestamp t - dt_timestamp now)"
    and r: "rt_at r = t" "rt_confidence_milli r = (if named then 930 else 860)" "rt_margin_seconds r = 60"
    by (auto simp: parse_reset_def Let_def not_less split: if_splits option.splits prod.splits outcome.splits)
  from far saturating_ge have "named \<or> 300 \<le> dt_timestamp t - dt_timestamp now"
    by (auto simp: MIN_WALL_FUTURE_SECONDS_def)
  with wall_candidate_future [OF t] r show ?thesis by auto
qed

definition example_calendar :: "(unit, int) calendar" where
  "example_calendar =
     \<lparr>cal_parse_zone = (\<lambda>_. None), cal_zone_name = (\<lambda>_. []), cal_offset_name = (\<lambda>_. ''+00:00''),
      cal_date = (\<lambda>t. dt_timestamp t div 86400), cal_date_in = (\<lambda>_ t. dt_timestamp t div 86400),
      cal_year = (\<lambda>_. 1970), cal_ymd = (\<lambda>_ _ _. None), cal_with_year = (\<lambda>_ _. None),
      cal_add_days = (\<lambda>d n. Some (d + int n)), cal_local = (\<lambda>_ _ _ _. []),
      cal_fixed = (\<lambda>_ d h m. Some \<lparr>dt_timestamp = 86400 * d + 3600 * int h + 60 * int m, dt_nanos = 0, dt_offset = 0\<rparr>),
      cal_add_seconds = (\<lambda>t s. Some (t\<lparr>dt_timestamp := dt_timestamp t + s\<rparr>))\<rparr>"

theorem reset_is_in_the_future_witness:
  "\<exists>r. parse_reset example_calendar ''resets at 5pm'' \<lparr>dt_timestamp = 50000, dt_nanos = 0, dt_offset = 0\<rparr> =
     Returned (Some r) \<and> 50000 < dt_timestamp (rt_at r)"
proof -
  let ?s = "''resets at 5pm''" and ?now = "\<lparr>dt_timestamp = 50000, dt_nanos = 0, dt_offset = 0\<rparr>"
  have low: "to_ascii_lowercase ?s = ?s" by code_simp
  have cue: "str_contains ?s ''reset''" by code_simp
  have rel: "parse_relative ?s = None" by (simp add: parse_relative_def starts_with_def)
  have "find_map (\<lambda>t. if CHR ''/'' \<in> set t then cal_parse_zone example_calendar t else None) ts = None" for ts
    by (induction ts) (simp_all add: example_calendar_def)
  then have zone: "zone_from_text example_calendar ?s 0 = FixedZone 0" by (simp add: zone_from_text_def)
  have words: "words ?s = [''resets'', ''at'', ''5pm'']" by code_simp
  have mer: "split_meridiem ''resets'' = (''resets'', None)" by code_simp
  have mer': "split_meridiem ''at'' = (''at'', None)" by code_simp
  have mer'': "split_meridiem ''5pm'' = (''5'', Some True)" by code_simp
  have five: "parse_unsigned 32 ''5'' = Some 5"
    by (simp add: parse_unsigned_def parse_digits_def strip_sign_def is_ascii_digit_def)
  have clock: "parse_clock ?s = Some (17, 0)"
    by (auto simp: parse_clock_def words clock_token_def mer mer' mer'' meridiem_def split_once_def five clock_hour_def)
  have date: "parse_date example_calendar ?s 0 = Some (0, False, False)"
    by (simp add: parse_date_def words month_def MONTHS_def)
  have d0: "local_date example_calendar (FixedZone 0) ?now = 0" by (simp add: example_calendar_def)
  have cand: "wall_candidate example_calendar (FixedZone 0) 0 17 0 False False ?now =
      Returned (Some \<lparr>dt_timestamp = 61200, dt_nanos = 0, dt_offset = 0\<rparr>)"
    by (simp add: wall_candidate_def zone_resolve_def example_calendar_def)
  have "\<exists>r. parse_reset example_calendar ?s ?now = Returned (Some r)"
    by (simp add: parse_reset_def low cue rel zone clock date d0 cand Let_def saturating_i64_def MIN_WALL_FUTURE_SECONDS_def
        del: str_contains.simps local_date.simps)
  moreover have "adds_seconds example_calendar" by (simp add: adds_seconds_def example_calendar_def)
  ultimately show ?thesis using reset_is_in_the_future by fastforce
qed

section \<open>Messages\<close>

abbreviation word_break :: "char \<Rightarrow> bool" where
  "word_break c \<equiv> \<not> is_ascii_alphanumeric c \<and> c \<noteq> CHR '':''"

definition word :: "string \<Rightarrow> bool" where
  "word s \<longleftrightarrow> s \<noteq> [] \<and> list_all (\<lambda>c. \<not> word_break c) s"

lemma split_when_no_break: "list_all (\<lambda>c. \<not> P c) s \<Longrightarrow> split_when P s = [s]"
  by (induction s) auto

lemma split_when_break: "list_all (\<lambda>c. \<not> P c) s \<Longrightarrow> P c \<Longrightarrow> split_when P (s @ c # t) = s # split_when P t"
  by (induction s) auto

lemma words_word: "word s \<Longrightarrow> words s = [s]"
  by (simp add: words_def word_def split_when_no_break)

lemma words_space: "word s \<Longrightarrow> words (s @ CHR '' '' # t) = s # words t"
proof -
  assume w: "word s"
  have "word_break (CHR '' '')" by (simp add: is_ascii_alphanumeric_def is_ascii_digit_def is_ascii_upper_def is_ascii_lower_def)
  with w split_when_break [of word_break s "CHR '' ''" t] show ?thesis by (simp add: words_def word_def)
qed

lemma word_decimal: "word (decimal n)"
  using decimal_digits [of n] by (auto simp: word_def list_all_iff is_ascii_alphanumeric_def)

lemma find_from_self: "find_from p (p @ s) = Some (p @ s)" if "p \<noteq> []"
  using that by (cases p) (simp_all add: starts_with_def)

definition relative_message :: "nat \<Rightarrow> nat \<Rightarrow> string" where
  "relative_message h m = ''resets in '' @ decimal h @ '' hours '' @ decimal m @ '' minutes''"

text \<open>A duration in hours and minutes of at most a year is read back exactly.\<close>

theorem relative_message_roundtrip:
  assumes "0 < 3600 * h + 60 * m" "3600 * h + 60 * m \<le> 31536000"
  shows "parse_relative (relative_message h m) = Some (3600 * int h + 60 * int m)"
proof -
  have found: "find_from ''resets in'' (relative_message h m) = Some (relative_message h m)"
    using find_from_self [of "''resets in''"] by (simp add: relative_message_def)
  have ws: "word ''resets''" "word ''in''" "word ''hours''" "word ''minutes''"
    by (simp_all add: word_def is_ascii_alphanumeric_def is_ascii_digit_def is_ascii_upper_def is_ascii_lower_def)
  have words: "words (relative_message h m) = [''resets'', ''in'', decimal h, ''hours'', decimal m, ''minutes'']"
    using words_space [OF ws(1)] words_space [OF ws(2)] words_space [OF word_decimal [of h]] words_space [OF ws(3)]
      words_space [OF word_decimal [of m]] words_word [OF ws(4)]
    by (simp add: relative_message_def)
  have none: "parse_signed 64 ''resets'' = None" "parse_signed 64 ''in'' = None" "parse_signed 64 ''hours'' = None"
    "parse_signed 64 ''minutes'' = None"
    by (simp_all add: parse_signed_def parse_digits_def starts_with_def strip_sign_def is_ascii_digit_def)
  have num: "parse_signed 64 (decimal h) = Some (int h)" "parse_signed 64 (decimal m) = Some (int m)"
    using assms by (simp_all add: parse_signed_decimal)
  have units: "unit_seconds ''hours'' = Some 3600" "unit_seconds ''minutes'' = Some 60"
    by (simp_all add: unit_seconds_def starts_with_def)
  have "relative_seconds (words (relative_message h m)) None 0 = Some (3600 * int h + 60 * int m)"
    using assms by (simp add: words none num units chk_int_def)
  moreover have "0 < 3600 * int h + 60 * int m" using assms(1) by linarith
  ultimately show ?thesis by (simp add: parse_relative_def found)
qed

theorem relative_message_roundtrip_witness: "parse_relative (relative_message 4 23) = Some 15780"
  using relative_message_roundtrip [of 4 23] by simp

definition plain_word :: "string \<Rightarrow> bool" where
  "plain_word t \<longleftrightarrow> split_meridiem t = (t, None) \<and> CHR '':'' \<notin> set t"

lemma meridiem_ends: "meridiem t = Some b \<Longrightarrow> split_meridiem t = ([], Some b)"
  by (auto simp: meridiem_def split_meridiem_def strip_suffix_def strip_prefix_def starts_with_def split: if_splits)

lemma clock_token_plain:
  assumes "plain_word t" "case rest of [] \<Rightarrow> True | u # _ \<Rightarrow> meridiem u = None"
  shows "clock_token t rest = NoClock"
  using assms by (cases rest) (simp_all add: clock_token_def plain_word_def split_once_def)

text \<open>The clock scan gives up at the first word that ends in am or pm but is no time: a message whose text has such a
  word before its time of day, such as ''team'' or ''program'', is not read.\<close>

theorem clock_scan_stops_at_word:
  assumes "words s = pre @ w # post" "list_all plain_word pre"
    and "split_meridiem w = (v, Some b)" "v \<noteq> []" "CHR '':'' \<notin> set v" "parse_unsigned 32 v = None"
  shows "parse_clock s = None"
proof -
  have w: "clock_token w post = BadClock"
    using assms(3,5,6) by (simp add: clock_token_def split_once_def Let_def)
  have m: "meridiem w = None" using assms(3,4) meridiem_ends [of w] by (cases "meridiem w") auto
  have "parse_clock_tokens (pre @ w # post) = None"
    using assms(2)
  proof (induction pre)
    case (Cons t pre)
    have plain: "meridiem u = None" if "plain_word u" for u
      using that meridiem_ends [of u] by (cases "meridiem u") (auto simp: plain_word_def)
    have "meridiem (hd (pre @ [w])) = None"
      using Cons.prems m plain by (cases pre) simp_all
    then have "clock_token t (pre @ w # post) = NoClock"
      using Cons.prems by (intro clock_token_plain) (cases pre; simp)+
    with Cons show ?case by simp
  qed (simp add: w)
  with assms(1) show ?thesis by (simp add: parse_clock_def)
qed

theorem clock_scan_stops_at_word_witness: "parse_clock ''your team limit resets at 5pm'' = None"
proof (rule clock_scan_stops_at_word)
  show "words ''your team limit resets at 5pm'' = [''your''] @ ''team'' # [''limit'', ''resets'', ''at'', ''5pm'']"
    by code_simp
  show "list_all plain_word [''your'']" by code_simp
  show "split_meridiem ''team'' = (''te'', Some False)" by code_simp
qed (simp_all add: parse_unsigned_def parse_digits_def strip_sign_def is_ascii_digit_def)

end
