(* ===== verification/Ipc.thy ===== *)
theory Ipc
  imports Lifecycle Text
begin

text \<open>
  The daemon's socket (\<open>src/src/ipc/protocol.rs\<close>, \<open>src/src/ipc/mod.rs\<close>, \<open>src/src/daemon/ipc_service.rs\<close>):
  requests and responses, length-prefixed frames, the checks before a socket is bound and a peer is served, and
  the handling of a request on the registry and the scheduler. The JSON codec of serde is a pair of functions; a
  stream is the bytes that arrive and what follows them.
\<close>

unbundle bit_operations_syntax

section \<open>Messages and frames\<close>

definition PROTOCOL_VERSION :: u16 where
  "PROTOCOL_VERSION = 1"

definition MAX_FRAME_BYTES :: nat where
  "MAX_FRAME_BYTES = 64 * 1024"

datatype request =
    ReqStatus "string option" | ReqList | ReqStop "string option" bool | ReqPause string | ReqResume string
  | ReqWakeObservation string string | ReqRegister watcher_state | ReqShutdown

datatype response =
    RespStatus bool "watcher_state list" | RespWatchers "watcher_state list" | RespRegistered string bool
  | RespUpdated watcher_state | RespStopped | RespAcknowledged | RespError string string

datatype protocol_error = Oversized | MalformedFrame string | UnsupportedFrameVersion u16

record 'a codec =
  to_vec :: "u16 \<Rightarrow> 'a \<Rightarrow> (string, string) result"
  from_slice :: "string \<Rightarrow> (string, u16 \<times> 'a) result"

definition encode_frame :: "'a codec \<Rightarrow> 'a \<Rightarrow> (protocol_error, string) result" where
  "encode_frame c v =
     rbind (map_err MalformedFrame (to_vec c PROTOCOL_VERSION v)) (\<lambda>bytes.
       if MAX_FRAME_BYTES < length bytes then Inl Oversized else Inr bytes)"

definition decode_frame :: "'a codec \<Rightarrow> string \<Rightarrow> (protocol_error, 'a) result" where
  "decode_frame c bytes =
     (if MAX_FRAME_BYTES < length bytes then Inl Oversized
      else rbind (map_err MalformedFrame (from_slice c bytes)) (\<lambda>(version, payload).
        if version \<noteq> PROTOCOL_VERSION then Inl (UnsupportedFrameVersion version) else Inr payload))"

section \<open>Streams\<close>

text \<open>After its bytes a stream ends, or nothing more arrives before the timeout.\<close>

datatype stream_end = Ends | Stalls

record byte_stream =
  st_bytes :: string
  st_end :: stream_end

datatype ipc_error = IpcIo string | IpcProtocol protocol_error | IpcTimeout

definition read_exact_bytes :: "nat \<Rightarrow> byte_stream \<Rightarrow> (ipc_error, string) result \<times> byte_stream" where
  "read_exact_bytes n s =
     (if n \<le> length (st_bytes s) then (Inr (take n (st_bytes s)), s\<lparr>st_bytes := drop n (st_bytes s)\<rparr>)
      else (Inl (if st_end s = Stalls then IpcTimeout else IpcIo ''unexpected end of file''), s\<lparr>st_bytes := []\<rparr>))"

definition be32 :: "nat \<Rightarrow> string" where
  "be32 n = map (\<lambda>i. char_of (n div 256 ^ i)) [3, 2, 1, 0]"

definition of_be32 :: "string \<Rightarrow> nat" where
  "of_be32 s = foldl (\<lambda>n c. n * 256 + byte_of c) 0 s"

definition read_frame :: "'a codec \<Rightarrow> byte_stream \<Rightarrow> (ipc_error, 'a) result \<times> byte_stream" where
  "read_frame c s =
     (case read_exact_bytes 4 s of
        (Inl e, s1) \<Rightarrow> (Inl e, s1)
      | (Inr header, s1) \<Rightarrow>
          if MAX_FRAME_BYTES < of_be32 header then (Inl (IpcProtocol Oversized), s1)
          else (case read_exact_bytes (of_be32 header) s1 of
                  (Inl e, s2) \<Rightarrow> (Inl e, s2)
                | (Inr bytes, s2) \<Rightarrow> (map_err IpcProtocol (decode_frame c bytes), s2)))"

text \<open>The bytes of \<open>write_frame\<close>; sending them is the stream's.\<close>

definition write_frame :: "'a codec \<Rightarrow> 'a \<Rightarrow> (ipc_error, string) result" where
  "write_frame c v = rbind (map_err IpcProtocol (encode_frame c v)) (\<lambda>bytes. Inr (be32 (length bytes) @ bytes))"

section \<open>Who may connect\<close>

text \<open>What the file system says of a path: nothing, a link, or something with a mode.\<close>

datatype path_state = NoPath | SymbolicLink | PathMode u32

definition bind_owner_only :: "path_state \<Rightarrow> path_state \<Rightarrow> (string, unit) result \<Rightarrow> (string, u32) result" where
  "bind_owner_only parent path bound =
     (case parent of
        NoPath \<Rightarrow> Inl ''no such directory''
      | SymbolicLink \<Rightarrow> Inl ''socket parent is not owner-only''
      | PathMode mode \<Rightarrow>
          if mode AND 63 \<noteq> 0 then Inl ''socket parent is not owner-only''
          else if path \<noteq> NoPath then Inl ''socket path already exists''
          else rbind bound (\<lambda>_. Inr 384))"

definition validate_peer_uid :: "u32 \<Rightarrow> u32 \<Rightarrow> (string, unit) result" where
  "validate_peer_uid peer owner = (if peer = owner then Inr () else Inl ''IPC peer is not the daemon owner'')"

section \<open>Requests\<close>

fun request_has_empty_target :: "request \<Rightarrow> bool" where
  "request_has_empty_target (ReqStatus wid) = (wid = Some [])"
| "request_has_empty_target (ReqStop wid _) = (wid = Some [])"
| "request_has_empty_target (ReqPause wid) = (wid = [])"
| "request_has_empty_target (ReqResume wid) = (wid = [])"
| "request_has_empty_target (ReqWakeObservation wid _) = (wid = [])"
| "request_has_empty_target ReqList = False"
| "request_has_empty_target (ReqRegister _) = False"
| "request_has_empty_target ReqShutdown = False"

definition validation_error :: "request \<Rightarrow> response option" where
  "validation_error q =
     (if request_has_empty_target q then Some (RespError ''invalid_target'' ''target ID must not be empty'')
      else if q = ReqStop None False
      then Some (RespError ''invalid_request'' ''stop requires a watcher ID or --all'')
      else None)"

abbreviation registry_list :: "registry \<Rightarrow> watcher_state list" where
  "registry_list r \<equiv> bt_values (reg_watchers r)"

fun is_stopped :: "watcher_lifecycle \<Rightarrow> bool" where
  "is_stopped (Stopped _) = True"
| "is_stopped _ = False"

text \<open>\<open>try_for_each\<close> over the identifiers, with the readings of the clock in order.\<close>

fun stop_each :: "(nat \<Rightarrow> u64) \<Rightarrow> nat \<Rightarrow> string list \<Rightarrow> registry \<Rightarrow> unit registry_result" where
  "stop_each clock i [] r = (Inr (), r)"
| "stop_each clock i (wid # ids) r =
     (case registry_transition wid (Stopped ''requested'') (clock i) r of
        (Inl e, r1) \<Rightarrow> (Inl e, r1)
      | (Inr _, r1) \<Rightarrow> stop_each clock (Suc i) ids r1)"

definition set_lifecycle ::
  "string \<Rightarrow> watcher_lifecycle \<Rightarrow> scheduler_event \<Rightarrow> u64 \<Rightarrow> registry
     \<Rightarrow> (registry_error, response) result \<times> registry \<times> scheduler_event list" where
  "set_lifecycle wid lc ev now r =
     (case registry_transition wid lc now r of
        (Inl e, r1) \<Rightarrow> (Inl e, r1, [])
      | (Inr _, r1) \<Rightarrow>
          (case bt_get (reg_watchers r1) wid of
             Some w \<Rightarrow> (Inr (RespUpdated w), r1, [ev])
           | None \<Rightarrow> (Inl (Unwound ''transitioned watcher exists''), r1, [ev])))"

fun handle_request ::
  "(nat \<Rightarrow> u64) \<Rightarrow> request \<Rightarrow> registry \<Rightarrow> (registry_error, response) result \<times> registry \<times> scheduler_event list" where
  "handle_request clock (ReqStatus wid) r =
     (Inr (RespStatus True (case wid of None \<Rightarrow> registry_list r
        | Some k \<Rightarrow> (case bt_get (reg_watchers r) k of None \<Rightarrow> [] | Some w \<Rightarrow> [w]))), r, [])"
| "handle_request clock ReqList r = (Inr (RespWatchers (registry_list r)), r, [])"
| "handle_request clock (ReqWakeObservation wid fp) r =
     (case wake_observation wid fp (clock 0) r of
        (Inl e, r1) \<Rightarrow> (Inl e, r1, []) | (Inr _, r1) \<Rightarrow> (Inr RespAcknowledged, r1, []))"
| "handle_request clock (ReqRegister w) r =
     (case registry_register w r of
        (Inl e, r1) \<Rightarrow> (Inl e, r1, [])
      | (Inr (Added wid), r1) \<Rightarrow> (Inr (RespRegistered wid False), r1, [Register wid])
      | (Inr (Existing wid), r1) \<Rightarrow> (Inr (RespRegistered wid True), r1, [])
      | (Inr (Revalidated wid), r1) \<Rightarrow> (Inr (RespRegistered wid True), r1, [Resume wid]))"
| "handle_request clock (ReqStop wid every) r =
     (let ids = (if every then map watcher_id (registry_list r) else (case wid of None \<Rightarrow> [] | Some k \<Rightarrow> [k]))
      in case stop_each clock 0 ids r of (res, r1) \<Rightarrow>
           (rbind res (\<lambda>_. Inr RespStopped), r1,
            map (\<lambda>w. Stop (watcher_id w)) (filter (\<lambda>w. is_stopped (ws_lifecycle w)) (registry_list r1))))"
| "handle_request clock (ReqPause wid) r = set_lifecycle wid Paused (Pause wid) (clock 0) r"
| "handle_request clock (ReqResume wid) r = set_lifecycle wid Observing (Resume wid) (clock 0) r"
| "handle_request clock ReqShutdown r = (Inr RespStopped, r, [])"

section \<open>A connection\<close>

record connection =
  cn_peer :: "(string, u32) result"
  cn_stream :: byte_stream
  cn_coordinator_open :: bool
  cn_acknowledged :: bool

record served =
  sv_registry :: registry
  sv_events :: "scheduler_event list"
  sv_responses :: "response list"
  sv_shutdown :: bool

definition request_shutdown :: "connection \<Rightarrow> registry \<Rightarrow> served" where
  "request_shutdown cn r =
     (if \<not> cn_coordinator_open cn
      then \<lparr>sv_registry = r, sv_events = [],
        sv_responses = [RespError ''daemon_stopping'' ''daemon shutdown coordinator is unavailable''], sv_shutdown = False\<rparr>
      else \<lparr>sv_registry = r, sv_events = [],
        sv_responses = (if cn_acknowledged cn then [RespStopped] else []), sv_shutdown = True\<rparr>)"

definition service_connection ::
  "u32 \<Rightarrow> request codec \<Rightarrow> (ipc_error \<Rightarrow> string) \<Rightarrow> (registry_error \<Rightarrow> string) \<Rightarrow> (nat \<Rightarrow> u64) \<Rightarrow> connection
     \<Rightarrow> registry \<Rightarrow> served" where
  "service_connection euid c show_ipc show_registry clock cn r =
     (let reply = (\<lambda>out. \<lparr>sv_registry = r, sv_events = [], sv_responses = out, sv_shutdown = False\<rparr>) in
      if cn_peer cn \<noteq> Inr euid then reply []
      else case fst (read_frame c (cn_stream cn)) of
        Inl e \<Rightarrow> reply [RespError ''invalid_request'' (show_ipc e)]
      | Inr q \<Rightarrow>
          (case validation_error q of
             Some out \<Rightarrow> reply [out]
           | None \<Rightarrow>
               if q = ReqShutdown then request_shutdown cn r
               else (case handle_request clock q r of (res, r1, events) \<Rightarrow>
                 \<lparr>sv_registry = r1, sv_events = events,
                  sv_responses = [case res of Inr out \<Rightarrow> out | Inl e \<Rightarrow> RespError ''daemon_error'' (show_registry e)],
                  sv_shutdown = False\<rparr>)))"

end
