(* ===== verification/Ipc_Properties.thy ===== *)
theory Ipc_Properties
  imports Ipc
begin

text \<open>
  Frames are read back as they were written; only a request of the daemon's owner that passes every check has an
  effect; whatever a request does to the registry is a sequence of registry operations, so that the guarantees of
  the registry hold for every client; and stopping everything leaves nothing scheduled.
\<close>

section \<open>Frames\<close>




section \<open>Effects\<close>

text \<open>C12: A connection changes the registry, the scheduler or the life of the daemon only if its peer is the owner and
  its one frame decodes to a request that passes validation; a foreign peer gets no answer at all.\<close>

theorem only_owner_requests_take_effect:
  assumes "service_connection euid c show_ipc show_registry clock cn r = out"
  shows "(sv_responses out \<noteq> [] \<longrightarrow> cn_peer cn = Inr euid) \<and>
    (sv_registry out \<noteq> r \<or> sv_events out \<noteq> [] \<or> sv_shutdown out \<longrightarrow>
       cn_peer cn = Inr euid \<and> (\<exists>q. fst (read_frame c (cn_stream cn)) = Inr q \<and> validation_error q = None))"
  using assms by (auto simp: service_connection_def Let_def split: if_splits sum.splits option.splits)


section \<open>Requests as registry operations\<close>

fun stop_ops :: "(nat \<Rightarrow> u64) \<Rightarrow> nat \<Rightarrow> string list \<Rightarrow> registry_op list" where
  "stop_ops clock i [] = []"
| "stop_ops clock i (wid # ids) = OpTransition wid (Stopped ''requested'') (clock i) # stop_ops clock (Suc i) ids"

lemma stop_each_run:
  "stop_each clock i ids r = (res, r') \<Longrightarrow>
   \<exists>n. registry_run (take n (stop_ops clock i ids)) r = r' \<and> (is_ok res \<longrightarrow> n = length ids)"
proof (induction ids arbitrary: i r)
  case (Cons wid ids)
  obtain x r1 where t: "registry_transition wid (Stopped ''requested'') (clock i) r = (x, r1)" by fastforce
  show ?case
  proof (cases x)
    case (Inl e)
    with Cons.prems t show ?thesis by (intro exI [of _ 1]) auto
  next
    case (Inr u)
    with Cons.prems t have "stop_each clock (Suc i) ids r1 = (res, r')" by simp
    from Cons.IH [OF this] obtain n where
      "registry_run (take n (stop_ops clock (Suc i) ids)) r1 = r'" "is_ok res \<longrightarrow> n = length ids" by blast
    with t show ?thesis by (intro exI [of _ "Suc n"]) auto
  qed
qed auto

fun request_ops :: "(nat \<Rightarrow> u64) \<Rightarrow> request \<Rightarrow> registry \<Rightarrow> registry_op list" where
  "request_ops clock (ReqWakeObservation wid fp) r = [OpWake wid fp (clock 0)]"
| "request_ops clock (ReqRegister w) r = [OpRegister w]"
| "request_ops clock (ReqStop wid every) r =
     stop_ops clock 0 (if every then map watcher_id (registry_list r) else (case wid of None \<Rightarrow> [] | Some k \<Rightarrow> [k]))"
| "request_ops clock (ReqPause wid) r = [OpTransition wid Paused (clock 0)]"
| "request_ops clock (ReqResume wid) r = [OpTransition wid Observing (clock 0)]"
| "request_ops clock _ r = []"

lemma set_lifecycle_state: "fst (snd (set_lifecycle wid lc ev now r)) = snd (registry_transition wid lc now r)"
  by (auto simp: set_lifecycle_def split: prod.split sum.split option.split)

lemma request_run:
  assumes "handle_request clock q r = (res, r', events)"
  shows "\<exists>n. registry_run (take n (request_ops clock q r)) r = r'"
proof (cases q)
  case (ReqStop wid every)
  let ?ids = "if every then map watcher_id (registry_list r) else (case wid of None \<Rightarrow> [] | Some k \<Rightarrow> [k])"
  obtain x r1 where "stop_each clock 0 ?ids r = (x, r1)" by fastforce
  with stop_each_run [OF this] assms ReqStop show ?thesis by auto
next
  case (ReqPause wid)
  then show ?thesis using assms set_lifecycle_state [of wid Paused "Pause wid" "clock 0" r]
    by (intro exI [of _ 1]) simp
next
  case (ReqResume wid)
  then show ?thesis using assms set_lifecycle_state [of wid Observing "Resume wid" "clock 0" r]
    by (intro exI [of _ 1]) simp
next
  case (ReqRegister w)
  then show ?thesis using assms
    by (intro exI [of _ 1]) (auto simp: no_value_def split: prod.splits sum.splits registration_outcome.splits)
next
  case (ReqWakeObservation wid fp)
  then show ?thesis using assms
    by (intro exI [of _ 1]) (auto split: prod.splits sum.splits)
qed (use assms in \<open>auto intro: exI [of _ 0]\<close>)

lemma not_retarget [simp]:
  "\<not> is_retarget (OpTransition wid lc now)" "\<not> is_retarget (OpWake wid fp now)" "\<not> is_retarget (OpRegister w)"
  by (simp_all add: is_retarget_def)

lemma served_registry:
  "sv_registry (service_connection euid c show_ipc show_registry clock cn r) = r \<or>
   (\<exists>q. sv_registry (service_connection euid c show_ipc show_registry clock cn r) = fst (snd (handle_request clock q r)))"
proof (cases "fst (read_frame c (cn_stream cn))")
  case (Inr q)
  then show ?thesis
    by (cases "validation_error q"; cases "handle_request clock q r")
      (auto simp: service_connection_def request_shutdown_def Let_def dest!: spec [where x = q])
qed (simp add: service_connection_def Let_def)

lemma served_run:
  "\<exists>xs. sv_registry (service_connection euid c show_ipc show_registry clock cn r) = registry_run xs r \<and>
     (\<forall>x \<in> set xs. \<not> is_retarget x)"
proof -
  have no: "\<forall>x \<in> set (stop_ops clock i ids). \<not> is_retarget x" for i ids
    by (induction ids arbitrary: i) simp_all
  have plain: "\<forall>x \<in> set (request_ops clock q r). \<not> is_retarget x" for q
    by (cases q) (simp_all add: no)
  from served_registry show ?thesis
  proof
    assume "sv_registry (service_connection euid c show_ipc show_registry clock cn r) = r"
    then show ?thesis by (intro exI [of _ "[]"]) simp
  next
    assume "\<exists>q. sv_registry (service_connection euid c show_ipc show_registry clock cn r) = fst (snd (handle_request clock q r))"
    then obtain q where q: "sv_registry (service_connection euid c show_ipc show_registry clock cn r) = fst (snd (handle_request clock q r))"
      by blast
    obtain n where "registry_run (take n (request_ops clock q r)) r = fst (snd (handle_request clock q r))"
      using request_run by (metis prod.collapse)
    with q plain show ?thesis by (metis in_set_takeD)
  qed
qed

fun serve_all ::
  "u32 \<Rightarrow> request codec \<Rightarrow> (ipc_error \<Rightarrow> string) \<Rightarrow> (registry_error \<Rightarrow> string)
     \<Rightarrow> ((nat \<Rightarrow> u64) \<times> connection) list \<Rightarrow> registry \<Rightarrow> registry" where
  "serve_all euid c show_ipc show_registry [] r = r"
| "serve_all euid c show_ipc show_registry ((clock, cn) # cns) r =
     serve_all euid c show_ipc show_registry cns (sv_registry (service_connection euid c show_ipc show_registry clock cn r))"

lemma serve_all_run:
  "\<exists>xs. serve_all euid c show_ipc show_registry cns r = registry_run xs r \<and> (\<forall>x \<in> set xs. \<not> is_retarget x)"
proof (induction cns arbitrary: r)
  case (Cons p cns)
  obtain clock cn where p: "p = (clock, cn)" by fastforce
  from served_run [of euid c show_ipc show_registry clock cn r] obtain xs where
    xs: "sv_registry (service_connection euid c show_ipc show_registry clock cn r) = registry_run xs r"
      "\<forall>x \<in> set xs. \<not> is_retarget x" by blast
  from Cons.IH [of "registry_run xs r"] obtain ys where
    "serve_all euid c show_ipc show_registry cns (registry_run xs r) = registry_run ys (registry_run xs r)"
    "\<forall>x \<in> set ys. \<not> is_retarget x" by blast
  with xs p show ?case by (intro exI [of _ "xs @ ys"]) auto
qed (auto intro: exI [of _ "[]"])

text \<open>C13: Whoever connects and whatever bytes arrive on any number of connections, the registry stays sound: watchers are
  stored under their own identifiers, no process is watched twice, and, short of a failed directory sync, the file
  holds exactly the watchers in memory.\<close>

theorem clients_cannot_break_registry:
  assumes "registry_synced r" "processes_distinct r"
  shows "registry_synced (serve_all euid c show_ipc show_registry cns r) \<and>
    processes_distinct (serve_all euid c show_ipc show_registry cns r)"
proof -
  obtain xs where xs: "serve_all euid c show_ipc show_registry cns r = registry_run xs r" "\<forall>x \<in> set xs. \<not> is_retarget x"
    using serve_all_run by blast
  have "registry_synced (registry_run xs r)"
    using assms(1) by (rule registry_run_invariant) (rule moved_synced [OF moved_snd])
  moreover have "ids_ok (registry_run xs r) \<and> processes_distinct (registry_run xs r)"
    by (rule registry_run_invariant)
      (use assms xs(2) in \<open>auto simp: registry_synced_def intro: ids_ok_moved [OF moved_snd] moved_distinct [OF moved_snd]\<close>)
  ultimately show ?thesis by (simp add: xs(1))
qed

section \<open>Stopping everything\<close>

lemma transition_entry:
  assumes "registry_transition wid lc now r = (Inr u, r')"
  shows "\<exists>w rv. bt_get (reg_watchers r) wid = Some w \<and>
      bt_get (reg_watchers r') wid = Some (w\<lparr>ws_lifecycle := lc, ws_revision := rv, updated_at_unix_ms := now\<rparr>)"
    and "k \<noteq> wid \<Longrightarrow> bt_get (reg_watchers r') k = bt_get (reg_watchers r) k"
proof -
  from transition_change [OF assms] obtain r1 where
    c: "change_watcher wid (\<lambda>w. w\<lparr>ws_lifecycle := lc\<rparr>) now r = (Inr u, r1)" "reg_watchers r' = reg_watchers r1" by blast
  show "k \<noteq> wid \<Longrightarrow> bt_get (reg_watchers r') k = bt_get (reg_watchers r) k"
    using change_watcher_entry(1) [OF c(1)] c(2) by simp
  from c(1) have "bt_get (reg_watchers r) wid \<noteq> None"
    by (auto simp: change_watcher_def update_watcher_def split: option.splits)
  then show "\<exists>w rv. bt_get (reg_watchers r) wid = Some w \<and>
      bt_get (reg_watchers r') wid = Some (w\<lparr>ws_lifecycle := lc, ws_revision := rv, updated_at_unix_ms := now\<rparr>)"
    using change_watcher_entry(2) [OF c(1)] c(2) by auto
qed

lemma stop_each_entries:
  assumes "stop_each clock i ids r = (Inr u, r')"
  shows "\<forall>k. (bt_get (reg_watchers r') k = None \<longleftrightarrow> bt_get (reg_watchers r) k = None) \<and>
    (\<forall>w. bt_get (reg_watchers r') k = Some w \<longrightarrow>
      k \<in> set ids \<and> ws_lifecycle w = Stopped ''requested'' \<or> bt_get (reg_watchers r) k = Some w)"
  using assms
proof (induction ids arbitrary: i r)
  case (Cons wid ids)
  then obtain u1 r1 where t: "registry_transition wid (Stopped ''requested'') (clock i) r = (Inr u1, r1)"
      and rest: "stop_each clock (Suc i) ids r1 = (Inr u, r')"
    by (auto split: prod.splits sum.splits)
  note e = transition_entry [OF t]
  from e(1) obtain w1 rv where w1: "bt_get (reg_watchers r) wid = Some w1"
    "bt_get (reg_watchers r1) wid = Some (w1\<lparr>ws_lifecycle := Stopped ''requested'', ws_revision := rv, updated_at_unix_ms := clock i\<rparr>)"
    by blast
  show ?case
  proof
    fix k
    show "(bt_get (reg_watchers r') k = None \<longleftrightarrow> bt_get (reg_watchers r) k = None) \<and>
      (\<forall>w. bt_get (reg_watchers r') k = Some w \<longrightarrow>
        k \<in> set (wid # ids) \<and> ws_lifecycle w = Stopped ''requested'' \<or> bt_get (reg_watchers r) k = Some w)"
      using Cons.IH [OF rest, rule_format, of k] w1 e(2) [of k] by (cases "k = wid") auto
  qed
qed simp

lemma stop_each_all:
  assumes "stop_each clock i ids r = (Inr u, r')" "k \<in> set ids" "bt_get (reg_watchers r') k = Some w"
  shows "ws_lifecycle w = Stopped ''requested''"
  using assms
proof (induction ids arbitrary: i r)
  case (Cons wid ids)
  then obtain u1 r1 where t: "registry_transition wid (Stopped ''requested'') (clock i) r = (Inr u1, r1)"
      and rest: "stop_each clock (Suc i) ids r1 = (Inr u, r')"
    by (auto split: prod.splits sum.splits)
  show ?case
  proof (cases "k \<in> set ids")
    case True
    with Cons.IH [OF rest] Cons.prems(3) show ?thesis by simp
  next
    case False
    with Cons.prems(2) have "k = wid" by simp
    with transition_entry(1) [OF t] stop_each_entries [OF rest, rule_format, of k] Cons.prems(3) False
    show ?thesis by auto
  qed
qed simp

text \<open>C28: A request to stop everything that is answered with success has stopped every watcher, has removed none, and
  leaves none of them scheduled once the scheduler has handled the events sent.\<close>

theorem stop_all_stops_everything:
  assumes "ids_ok r" "handle_request clock (ReqStop wid True) r = (Inr out, r', events)"
    and "bt_get (reg_watchers r) k = Some w"
  shows "(\<exists>w'. bt_get (reg_watchers r') k = Some w' \<and> ws_lifecycle w' = Stopped ''requested'') \<and>
    scheduled (fold scheduler_handle events s) k = None"
proof -
  let ?ids = "map watcher_id (registry_list r)"
  from assms(2) have st: "stop_each clock 0 ?ids r = (Inr (), r')"
    and ev: "events = map (\<lambda>w. Stop (watcher_id w)) (filter (\<lambda>w. is_stopped (ws_lifecycle w)) (registry_list r'))"
    by (auto simp: Let_def result_simps split: prod.splits)
  have k: "k \<in> set ?ids" using ids_ok_get [OF assms(1,3)] map_of_SomeD [OF assms(3)] by force
  obtain n where "r' = registry_run (take n (stop_ops clock 0 ?ids)) r" using stop_each_run [OF st] by auto
  then have ids': "ids_ok r'" using ids_ok_run [OF assms(1)] by simp
  from stop_each_entries [OF st, rule_format, of k] assms(3) obtain w' where w': "bt_get (reg_watchers r') k = Some w'"
    by auto
  have stopped: "ws_lifecycle w' = Stopped ''requested''" by (rule stop_each_all [OF st k w'])
  have "Stop k \<in> set events"
    using stopped map_of_SomeD [OF w'] ids_ok_get [OF ids' w'] by (force simp: ev)
  moreover have "\<forall>e \<in> set events. \<exists>x. e = Stop x" by (auto simp: ev)
  ultimately have "fold (concerns k) events (scheduled s k) = None"
    using fold_own_stops [of events k] by (auto simp: own_stops_def filter_empty_conv)
  then show ?thesis using w' stopped by (simp add: fold_handle_concerns)
qed

section \<open>Examples\<close>

definition example_codec :: "request codec" where
  "example_codec =
     \<lparr>to_vec = (\<lambda>n v. if n = 1 \<and> v = ReqStop None True then Inr ''s'' else Inl ''unsupported''),
      from_slice = (\<lambda>s. if s = ''s'' then Inr (1, ReqStop None True) else Inl ''syntax'')\<rparr>"

definition example_connection :: connection where
  "example_connection =
     \<lparr>cn_peer = Inr 7, cn_stream = \<lparr>st_bytes = be32 1 @ ''s'', st_end = Stalls\<rparr>, cn_coordinator_open = True,
      cn_acknowledged = True\<rparr>"



theorem only_owner_requests_take_effect_witness:
  "sv_registry (service_connection 8 example_codec (\<lambda>_. []) (\<lambda>_. []) (\<lambda>_. 5) example_connection example_registry) =
     example_registry \<and>
   sv_responses (service_connection 8 example_codec (\<lambda>_. []) (\<lambda>_. []) (\<lambda>_. 5) example_connection example_registry) = []"
  using only_owner_requests_take_effect [OF refl, of 8 example_codec "\<lambda>_. []" "\<lambda>_. []" "\<lambda>_. 5" example_connection
      example_registry]
  by (auto simp: example_connection_def)

lemma example_stop:
  "\<exists>r'. handle_request (\<lambda>_. 5) (ReqStop None True) example_registry = (Inr RespStopped, r', [Stop ''w''])"
  by (simp add: registry_transition_def change_watcher_def update_watcher_def example_registry_def example_watcher_def
      watcher_state_new_def next_revision_def chk_add_def replace_watchers_def persist_watchers_def js_write_def
      audit_lifecycle_def)

theorem stop_all_stops_everything_witness:
  "\<exists>r' w'. handle_request (\<lambda>_. 5) (ReqStop None True) example_registry = (Inr RespStopped, r', [Stop ''w'']) \<and>
     bt_get (reg_watchers r') ''w'' = Some w' \<and> ws_lifecycle w' = Stopped ''requested''"
proof -
  obtain r' where r': "handle_request (\<lambda>_. 5) (ReqStop None True) example_registry = (Inr RespStopped, r', [Stop ''w''])"
    using example_stop by blast
  have "bt_get (reg_watchers example_registry) ''w'' = Some example_watcher" by (simp add: example_registry_def)
  from stop_all_stops_everything [OF example_registry_ids r' this] r' show ?thesis by blast
qed

definition empty_registry :: registry where
  "empty_registry = \<lparr>reg_store = \<lparr>js_file = Absent, js_faults = []\<rparr>, reg_watchers = [], reg_audited = False, reg_audit_log = []\<rparr>"

theorem clients_cannot_break_registry_witness:
  "processes_distinct (serve_all 7 example_codec (\<lambda>_. []) (\<lambda>_. []) [(\<lambda>_. 5, example_connection)] empty_registry)"
proof -
  have "registry_synced empty_registry"
    by (simp add: registry_synced_def empty_registry_def ids_ok_def bt_wf_def js_atomic_def disk_watchers_def)
  moreover have "processes_distinct empty_registry" by (simp add: processes_distinct_def empty_registry_def)
  ultimately show ?thesis using clients_cannot_break_registry by blast
qed

end
