(* ===== verification/Runtime.thy ===== *)
theory Runtime
  imports Engine Registry_Properties Process Config Text
begin

text \<open>
  The ground of a recovery job of the daemon (\<open>src/src/daemon/recovery_runtime.rs\<close>, \<open>codex_composer.rs\<close> and the
  target helpers of \<open>src/src/daemon/mod.rs\<close>): the identities of targets, the reading of a composer, the host and
  the live evidence. \<open>Executor\<close> and \<open>Recovery_Job\<close> build on it. The daemon is the registry, the ledger and a host;
  the host is everything outside: processes, multiplexers, clocks, the cancellation flag and the other tasks,
  which may apply any registry operations whenever the job takes the registry's lock. Two histories record
  what reached the executor and what was dispatched to a multiplexer.
\<close>

section \<open>Identities of targets\<close>

definition process_identity_key :: "target_identity \<Rightarrow> string" where
  "process_identity_key t =
     ''process:'' @ decimal (unat (pi_pid (ti_process t))) @ '':'' @ decimal (unat (pi_start_time (ti_process t)))"

definition mux_identity_key :: "mux_identity \<Rightarrow> string" where
  "mux_identity_key i =
     str_join '':'' [mi_provider i, mi_server i, mi_server_instance i, mi_session_id i, mi_window_id i, mi_pane_id i,
       decimal (unat (pi_pid (mi_process i))), decimal (unat (pi_start_time (mi_process i)))]"

definition context_identity ::
  "string \<Rightarrow> string \<Rightarrow> string \<Rightarrow> process_identity \<Rightarrow> multiplexer_context \<Rightarrow> mux_identity option" where
  "context_identity provider server pane process ctx =
     (case ctx of
        Tmux socket instance session window p tty \<Rightarrow>
          if provider = ''tmux'' \<and> server = socket \<and> pane = p
          then Some \<lparr>mi_provider = provider, mi_server_instance = instance, mi_server = socket, mi_session_id = session,
            mi_window_id = window, mi_pane_id = p, mi_tty = tty, mi_process = process\<rparr> else None
      | Herdr socket instance workspace tab p tty _ \<Rightarrow>
          if provider = ''herdr'' \<and> server = socket \<and> pane = p
          then Some \<lparr>mi_provider = provider, mi_server_instance = instance, mi_server = socket, mi_session_id = workspace,
            mi_window_id = tab, mi_pane_id = p, mi_tty = tty, mi_process = process\<rparr> else None)"

definition watcher_mux_identity :: "watcher_state \<Rightarrow> (mux_error, mux_identity option) result" where
  "watcher_mux_identity w =
     (case ws_target w of
        Multiplexer provider server pane process _ (Some ctx) _ False \<Rightarrow>
          (case context_identity provider server pane process ctx of
             Some i \<Rightarrow> Inr (Some i)
           | None \<Rightarrow> Inl (IdentityChanged ''stored mux context contradicts target''))
      | _ \<Rightarrow> Inr None)"

section \<open>The composer\<close>

datatype composer_state = ComposerSafe | ComposerUnsafe | ComposerUnknown | ComposerStale

definition prompt_marker :: string where
  "prompt_marker = map char_of [226 :: nat, 128, 186]"

definition footer_separator :: string where
  "footer_separator = CHR '' '' # map char_of [194 :: nat, 183] @ '' ''"

text \<open>\<open>str::matches\<close>: occurrences that do not overlap, from the left.\<close>

function count_matches :: "string \<Rightarrow> string \<Rightarrow> nat" where
  "count_matches p s =
     (if p = [] \<or> length s < length p then 0
      else if starts_with s p then Suc (count_matches p (drop (length p) s)) else count_matches p (tl s))"
  by pat_completeness auto
termination by (relation "measure (\<lambda>(p, s). length s)") (auto simp: not_less neq_Nil_conv)

definition EMPTY_PLACEHOLDERS :: "string list" where
  "EMPTY_PLACEHOLDERS =
     [''Explain this codebase'', ''Summarize recent commits'', ''Implement {feature}'',
      ''Find and fix a bug in @filename'', ''Write tests for @filename'', ''Improve documentation in @filename'',
      ''Run /review on my current changes'', ''Use /skills to list available skills'',
      ''Check recently modified functions for compatibility'', ''How many files have been modified?'',
      ''Will this algorithm scale well?'']"

definition blank :: "string \<Rightarrow> bool" where
  "blank line = (str_trim line = [])"

text \<open>\<open>rposition\<close>: the last element with a property, with what comes before and after it.\<close>

definition rsplit_at :: "('a \<Rightarrow> bool) \<Rightarrow> 'a list \<Rightarrow> ('a list \<times> 'a \<times> 'a list) option" where
  "rsplit_at P xs =
     (case dropWhile (\<lambda>x. \<not> P x) (rev xs) of
        [] \<Rightarrow> None | x # before \<Rightarrow> Some (rev before, x, rev (takeWhile (\<lambda>x. \<not> P x) (rev xs))))"

definition looks_like_codex_footer :: "string \<Rightarrow> bool" where
  "looks_like_codex_footer footer =
     (2 \<le> count_matches footer_separator footer
      \<and> (str_contains footer ''Context '' \<or> str_contains footer ''Goal blocked'' \<or> str_contains footer ''Pursuing goal''))"

definition state_from_recent :: "string \<Rightarrow> composer_state" where
  "state_from_recent screen =
     (case rsplit_at (\<lambda>line. starts_with (trim_start line) prompt_marker) (str_lines screen) of
        None \<Rightarrow> ComposerUnknown
      | Some (_, line, after) \<Rightarrow>
          let prompt = str_trim (drop (length prompt_marker) (trim_start line)) in
          (case rsplit_at (\<lambda>line. \<not> blank line) after of
             None \<Rightarrow> ComposerUnknown
           | Some (between, last_line, _) \<Rightarrow>
               if \<not> list_all blank between \<or> \<not> looks_like_codex_footer (str_trim last_line) then ComposerUnsafe
               else if prompt = [] \<or> prompt \<in> set EMPTY_PLACEHOLDERS then ComposerSafe else ComposerUnsafe))"

section \<open>The host\<close>

text \<open>\<open>ComposerSafety\<close>, which the sending operations of a multiplexer call before they type.\<close>

type_synonym 'h composer_safety = "mux_identity \<Rightarrow> 'h \<Rightarrow> (mux_error, composer_state) result \<times> 'h"

record 'h host =
  ho_others :: "'h \<Rightarrow> registry_op list \<times> 'h"
  ho_inspect :: "u32 \<Rightarrow> 'h \<Rightarrow> (process_error, process_record) result \<times> 'h"
  ho_adapter :: "multiplexer_context \<Rightarrow> 'h composer_safety \<Rightarrow> (mux_error, 'h multiplexer) result"
  ho_herdr_state :: "multiplexer_context \<Rightarrow> mux_identity \<Rightarrow> u64 \<Rightarrow> nat \<Rightarrow> 'h \<Rightarrow> (string, string) result \<times> 'h"
  ho_progress :: "watcher_state \<Rightarrow> event \<Rightarrow> 'h \<Rightarrow> event option \<times> 'h"
  ho_cancelled :: "'h \<Rightarrow> bool \<times> 'h"
  ho_now_ms :: "'h \<Rightarrow> u64 \<times> 'h"
  ho_monotonic_ms :: "'h \<Rightarrow> u64 \<times> 'h"
  ho_observation_ms :: "'h \<Rightarrow> u64 \<times> 'h"
  ho_wall_secs :: "'h \<Rightarrow> int \<times> 'h"
  ho_wall :: "'h \<Rightarrow> string \<times> 'h"
  ho_sleep :: "u64 \<Rightarrow> 'h \<Rightarrow> 'h"
  ho_notifications :: "'h \<Rightarrow> notifications_config \<times> 'h"
  ho_herdr_notify :: "multiplexer_context \<Rightarrow> mux_identity \<Rightarrow> string \<Rightarrow> string \<Rightarrow> 'h \<Rightarrow> (string, bool) result \<times> 'h"
  ho_desktop_notify :: "string \<Rightarrow> string \<Rightarrow> 'h \<Rightarrow> (string, unit) result \<times> 'h"
  ho_stderr :: "string \<Rightarrow> 'h \<Rightarrow> 'h"
  ho_target_hash :: "target_identity \<Rightarrow> string"
  ho_parse :: rfc3339
  ho_snapshot :: "live_evidence \<Rightarrow> action \<Rightarrow> (string, string) result"
  ho_debug :: "execution_output \<Rightarrow> string"

datatype decision_phase = PolicyAllow | PolicyDeny | ActionBegin | ActionVerify | ActionCancel

record decision =
  dc_watcher :: watcher_state
  dc_phase :: decision_phase
  dc_policy :: string
  dc_action :: string
  dc_outcome :: string

record 'h daemon =
  dm_registry :: registry
  dm_store :: json_action_store
  dm_host :: 'h
  dm_decisions :: "decision list"
  dm_sent :: "execution list"
  dm_dispatched :: "(action \<times> registry) list"

definition on_host :: "('h \<Rightarrow> 'a \<times> 'h) \<Rightarrow> 'h daemon \<Rightarrow> 'a \<times> 'h daemon" where
  "on_host f d = (case f (dm_host d) of (x, s) \<Rightarrow> (x, d\<lparr>dm_host := s\<rparr>))"

text \<open>\<open>registry.blocking_lock()\<close>: other tasks had the lock before.\<close>

definition lock :: "'h host \<Rightarrow> 'h daemon \<Rightarrow> 'h daemon" where
  "lock h d = (case on_host (ho_others h) d of (ops, d1) \<Rightarrow> d1\<lparr>dm_registry := registry_run ops (dm_registry d1)\<rparr>)"

definition on_registry :: "(registry \<Rightarrow> 'a \<times> registry) \<Rightarrow> 'h daemon \<Rightarrow> 'a \<times> 'h daemon" where
  "on_registry f d = (case f (dm_registry d) of (x, r) \<Rightarrow> (x, d\<lparr>dm_registry := r\<rparr>))"

definition target_process_is_alive :: "'h host \<Rightarrow> target_identity \<Rightarrow> 'h daemon \<Rightarrow> bool \<times> 'h daemon" where
  "target_process_is_alive h t d =
     (case on_host (ho_inspect h (pi_pid (ti_process t))) d of (found, d1) \<Rightarrow>
      (case found of Inr actual \<Rightarrow> pr_start_time actual = pi_start_time (ti_process t) | Inl _ \<Rightarrow> False, d1))"

text \<open>
  The adapter for the watcher's multiplexer, built for each call: a tmux client for the socket, or a Herdr
  client, whose construction may fail. Only the sending operations look at the composer.
\<close>

definition with_adapter ::
  "'h host \<Rightarrow> watcher_state \<Rightarrow> 'h composer_safety \<Rightarrow> ('h multiplexer \<Rightarrow> 'h \<Rightarrow> (mux_error, 'a) result \<times> 'h) \<Rightarrow> 'h
     \<Rightarrow> (mux_error, 'a) result \<times> 'h" where
  "with_adapter h w safety f s =
     (case observation_context (ws_target w) of
        None \<Rightarrow> (Inl (IdentityChanged ''missing concrete multiplexer context''), s)
      | Some ctx \<Rightarrow> (case ho_adapter h ctx safety of Inl e \<Rightarrow> (Inl e, s) | Inr mux \<Rightarrow> f mux s))"

definition no_composer :: "'h composer_safety" where
  "no_composer i s = (Inr ComposerUnknown, s)"

definition validate_mux_target ::
  "'h host \<Rightarrow> watcher_state \<Rightarrow> mux_identity \<Rightarrow> 'h \<Rightarrow> (mux_error, unit) result \<times> 'h" where
  "validate_mux_target h w i = with_adapter h w no_composer (\<lambda>mux. mux_validate_identity mux i)"

definition capture_mux_target ::
  "'h host \<Rightarrow> watcher_state \<Rightarrow> mux_identity \<Rightarrow> nat \<Rightarrow> nat \<Rightarrow> 'h \<Rightarrow> (mux_error, mux_capture) result \<times> 'h" where
  "capture_mux_target h w i lines bytes = with_adapter h w no_composer (\<lambda>mux. mux_capture_tail mux i lines bytes)"

definition native_codex :: "watcher_state \<Rightarrow> bool" where
  "native_codex w =
     (ws_codex_session w \<noteq> None \<and>
      (case observation_context (ws_target w) of Some (Herdr _ _ _ _ _ _ wire) \<Rightarrow> wire = Native16 | _ \<Rightarrow> False))"

definition composer_observe ::
  "'h host \<Rightarrow> watcher_state \<Rightarrow> 'h composer_safety" where
  "composer_observe h w i d =
     (case capture_mux_target h w i (if native_codex w then 12 else 3) (if native_codex w then 4096 else 1024) d of
        (Inl e, d1) \<Rightarrow> (Inl e, d1)
      | (Inr c, d1) \<Rightarrow>
          (Inr (if native_codex w then state_from_recent (cap_text c)
                else if str_lines (cap_text c) = [] \<or> blank (last (str_lines (cap_text c)))
                then ComposerSafe else ComposerUnsafe), d1))"

section \<open>Live evidence\<close>

definition evidence_watcher :: "'h host \<Rightarrow> string \<Rightarrow> 'h daemon \<Rightarrow> (string, watcher_state) result \<times> 'h daemon" where
  "evidence_watcher h wid d =
     (let d1 = lock h d in (ok_or ''recovery watcher disappeared'' (bt_get (reg_watchers (dm_registry d1)) wid), d1))"

fun small_integer :: "json \<Rightarrow> bool" where
  "small_integer (JNumber (PosInt n)) = (unat n \<le> 127)"
| "small_integer (JNumber (NegInt n)) = (- 128 \<le> n \<and> n \<le> 127)"
| "small_integer _ = False"

definition bounded_claude_menu :: "event \<Rightarrow> bool" where
  "bounded_claude_menu e =
     (src_kind (ev_source e) = ScreenDetection \<and> source_id (ev_source e) = ''claude''
      \<and> (case bt_get (ev_metadata e) ''claude_menu_moves'' of None \<Rightarrow> False | Some v \<Rightarrow> small_integer v))"

fun lifecycle_in_human_hands :: "watcher_lifecycle \<Rightarrow> bool" where
  "lifecycle_in_human_hands Paused = True"
| "lifecycle_in_human_hands (watcher_lifecycle.Stopped _) = True"
| "lifecycle_in_human_hands (watcher_lifecycle.HumanRequired _) = True"
| "lifecycle_in_human_hands TargetTerminated = True"
| "lifecycle_in_human_hands _ = False"

definition human_intervened_in :: "watcher_state \<Rightarrow> watcher_state \<Rightarrow> event \<Rightarrow> bool" where
  "human_intervened_in snap w e =
     (\<not> (ws_target w = ws_target snap \<and> ws_lifecycle w = ws_lifecycle snap)
      \<or> lifecycle_in_human_hands (ws_lifecycle w) \<or> ev_category e = HumanIntervention)"

text \<open>Target, pane and composer as the multiplexer shows them.\<close>

definition live_identity ::
  "'h host \<Rightarrow> watcher_state \<Rightarrow> bool \<Rightarrow> 'h daemon \<Rightarrow> (bool \<times> bool \<times> string \<times> bool) \<times> 'h daemon" where
  "live_identity h w alive d =
     (case watcher_mux_identity w of
        Inr (Some i) \<Rightarrow>
          (case on_host (validate_mux_target h w i) d of (checked, d1) \<Rightarrow>
           if is_ok checked
           then (case on_host (composer_observe h w i) d1 of (c, d2) \<Rightarrow> ((True, True, mux_identity_key i, c = Inr ComposerSafe), d2))
           else ((False, False, mux_identity_key i, False), d1))
      | Inr None \<Rightarrow> ((alive, True, process_identity_key (ws_target w), False), d)
      | Inl _ \<Rightarrow> ((False, False, process_identity_key (ws_target w), False), d))"

definition fresh_read ::
  "'h host \<Rightarrow> watcher_state \<Rightarrow> 'h daemon \<Rightarrow> (string, live_evidence) result \<times> 'h daemon" where
  "fresh_read h snap d =
     (case evidence_watcher h (watcher_id snap) d of
        (Inl e, d1) \<Rightarrow> (Inl e, d1)
      | (Inr w, d1) \<Rightarrow>
          (case ws_last_observation w of
             None \<Rightarrow> (Inl ''missing current observation'', d1)
           | Some e \<Rightarrow>
               (case target_process_is_alive h (ws_target w) d1 of (alive, d2) \<Rightarrow>
               (case live_identity h w alive d2 of ((bound, pane, identity, composer), d3) \<Rightarrow>
                 (Inr \<lparr>le_identity = identity, le_target_revalidated = bound, le_process_alive = alive,
                   le_pane_matches = pane,
                   le_evidence_current = (ev_watcher_id e = watcher_id w
                     \<and> target_identity_hash e = ho_target_hash h (ws_target w)),
                   le_composer_safe = (composer \<or> bounded_claude_menu e),
                   le_human_intervened = human_intervened_in snap w e, le_event = e\<rparr>, d3)))))"

definition fresh_read_verification ::
  "'h host \<Rightarrow> watcher_state \<Rightarrow> live_evidence \<Rightarrow> 'h daemon \<Rightarrow> (string, live_evidence) result \<times> 'h daemon" where
  "fresh_read_verification h snap baseline d =
     (case fresh_read h snap d of
        (Inl e, d1) \<Rightarrow> (Inl e, d1)
      | (Inr live, d1) \<Rightarrow>
          (case evidence_watcher h (watcher_id snap) d1 of
             (Inl e, d2) \<Rightarrow> (Inl e, d2)
           | (Inr w, d2) \<Rightarrow>
               (case on_host (ho_progress h w (le_event baseline)) d2 of (progress, d3) \<Rightarrow>
                 (Inr (case progress of None \<Rightarrow> live | Some e \<Rightarrow> live\<lparr>le_event := e\<rparr>), d3))))"

end
