(* ===== verification/Executor.thy ===== *)
theory Executor
  imports Runtime
begin

text \<open>
  The executor the daemon hands to the transaction (\<open>DaemonActionExecutor\<close> of
  \<open>src/src/daemon/recovery_runtime.rs\<close>), the daemon's runtime services (\<open>src/src/daemon/runtime_services.rs\<close>) and
  the delivery of notifications (\<open>src/src/notify.rs\<close>). Input reaches a multiplexer only in the critical region
  of \<open>mux_dispatch\<close>: under the registry's lock, after the snapshot was compared.
\<close>

section \<open>Notifications\<close>

datatype notification_outcome = Delivered string | Suppressed string

record notify_request =
  nr_title :: string
  nr_body :: string

record 'h notify_target =
  nt_herdr :: "(string \<Rightarrow> string \<Rightarrow> 'h \<Rightarrow> (string, bool) result \<times> 'h) option"
  nt_desktop :: "(string \<Rightarrow> string \<Rightarrow> 'h \<Rightarrow> (string, unit) result \<times> 'h) option"
  nt_stderr :: "(string \<Rightarrow> 'h \<Rightarrow> (string, unit) result \<times> 'h) option"

definition notify_line :: "notify_request \<Rightarrow> string" where
  "notify_line q = ''watchme notify: '' @ nr_title q @ '': '' @ nr_body q @ [CHR 0x0A]"

definition try_herdr ::
  "notifications_config \<Rightarrow> notify_request \<Rightarrow> 'h notify_target \<Rightarrow> 'h \<Rightarrow> bool \<times> 'h" where
  "try_herdr c q t s =
     (case nt_herdr t of
        Some send \<Rightarrow> if nc_herdr c then (case send (nr_title q) (nr_body q) s of (r, s1) \<Rightarrow> (r = Inr True, s1)) else (False, s)
      | None \<Rightarrow> (False, s))"

definition try_desktop ::
  "notifications_config \<Rightarrow> notify_request \<Rightarrow> 'h notify_target \<Rightarrow> 'h \<Rightarrow> bool \<times> 'h" where
  "try_desktop c q t s =
     (case nt_desktop t of
        Some send \<Rightarrow> if nc_desktop c then (case send (nr_title q) (nr_body q) s of (r, s1) \<Rightarrow> (is_ok r, s1)) else (False, s)
      | None \<Rightarrow> (False, s))"

definition deliver ::
  "notifications_config \<Rightarrow> notify_request \<Rightarrow> 'h notify_target \<Rightarrow> bool \<Rightarrow> 'h \<Rightarrow> notification_outcome \<times> 'h" where
  "deliver c q t cleanup s =
     (let failed = Suppressed (if cleanup then ''all notification channels failed during cleanup''
                               else ''all notification channels failed'') in
      case try_herdr c q t s of
        (True, s1) \<Rightarrow> (Delivered ''herdr'', s1)
      | (False, s1) \<Rightarrow>
     (case try_desktop c q t s1 of
        (True, s2) \<Rightarrow> (Delivered ''desktop'', s2)
      | (False, s2) \<Rightarrow>
     (case nt_stderr t of
        Some write \<Rightarrow>
          if nc_stderr c
          then (case write (notify_line q) s2 of
                  (Inr _, s3) \<Rightarrow> (Delivered ''stderr'', s3)
                | (Inl reason, s3) \<Rightarrow> (if cleanup then Suppressed reason else failed, s3))
          else (failed, s2)
      | None \<Rightarrow> (failed, s2))))"

definition notify_during_cleanup ::
  "notifications_config \<Rightarrow> notify_request \<Rightarrow> 'h notify_target \<Rightarrow> 'h \<Rightarrow> notification_outcome \<times> 'h" where
  "notify_during_cleanup c q t = deliver c q t True"

section \<open>Runtime services\<close>

fun registry_error_display :: "registry_error \<Rightarrow> string" where
  "registry_error_display (StoreFailed e) = e"
| "registry_error_display (Unknown wid) = ''unknown watcher '' @ wid"
| "registry_error_display (IdCollision wid) = ''watcher ID collision: '' @ wid"
| "registry_error_display (RevisionOverflow wid) = ''watcher revision overflow: '' @ wid"
| "registry_error_display (CorruptRegistry e) = ''corrupt watcher registry quarantined at '' @ e"
| "registry_error_display (Unwound e) = e"

definition parse_wait_deadline :: "rfc3339 \<Rightarrow> string \<Rightarrow> u64 \<Rightarrow> (string, u64) result" where
  "parse_wait_deadline parse deadline now =
     (case Option.bind (strip_prefix ''monotonic+'' deadline) (strip_suffix ''s'') of
        Some seconds \<Rightarrow>
          (case parse_unsigned 64 seconds of
             None \<Rightarrow> Inl ''invalid monotonic wait deadline''
           | Some n \<Rightarrow> Inr (sat_add now (sat_mul (of_nat n) 1000)))
      | None \<Rightarrow>
          (case parse deadline of
             None \<Rightarrow> Inl ''invalid wall-clock wait deadline''
           | Some nanos \<Rightarrow>
               if nanos < 0 then Inl ''wait deadline predates Unix epoch''
               else if nat (nanos div 1000000) < unat now then Inl ''wait deadline is in the past''
               else Inr (word_of_int (nanos div 1000000))))"

definition schedule_wait :: "string \<Rightarrow> u64 \<Rightarrow> u64 \<Rightarrow> registry \<Rightarrow> (string, unit) result \<times> registry" where
  "schedule_wait wid until now r =
     (case bt_get (reg_watchers r) wid of
        None \<Rightarrow> (Inl ''unknown watcher for scheduled action'', r)
      | Some w \<Rightarrow>
          (case persist_observation_schedule wid
                  ((ws_observation_schedule w)\<lparr>next_due_wall_ms := until, event_wake_pending := False\<rparr>) now r of
             (Inl e, r1) \<Rightarrow> (Inl (registry_error_display e), r1)
           | (Inr _, r1) \<Rightarrow>
               (case registry_transition wid (Waiting until ''recovery wait scheduled'') now r1 of
                  (res, r2) \<Rightarrow> (map_err registry_error_display res, r2))))"

definition service_schedule :: "'h host \<Rightarrow> string \<Rightarrow> string \<Rightarrow> 'h daemon \<Rightarrow> (string, unit) result \<times> 'h daemon" where
  "service_schedule h wid deadline d =
     (case on_host (ho_now_ms h) d of (now, d1) \<Rightarrow>
      case parse_wait_deadline (ho_parse h) deadline now of
        Inl e \<Rightarrow> (Inl e, d1)
      | Inr until \<Rightarrow> on_registry (schedule_wait wid until now) (lock h d1))"

definition service_capture :: "string \<Rightarrow> u16 \<Rightarrow> 'h daemon \<Rightarrow> (string, string) result \<times> 'h daemon" where
  "service_capture source n d = (Inl ''capture requires the target-bound multiplexer dispatcher'', d)"

definition service_check ::
  "'h host \<Rightarrow> string \<Rightarrow> string \<Rightarrow> string option \<Rightarrow> 'h daemon \<Rightarrow> (string, bool) result \<times> 'h daemon" where
  "service_check h wid kind expected d =
     (if kind \<noteq> ''PROCESS_ALIVE'' then (Inl ''unsupported runtime status check'', d)
      else let d1 = lock h d in
        case bt_get (reg_watchers (dm_registry d1)) wid of
          None \<Rightarrow> (Inl ''unknown watcher for status check'', d1)
        | Some w \<Rightarrow> (case target_process_is_alive h (ws_target w) d1 of (alive, d2) \<Rightarrow> (Inr alive, d2)))"

definition notification_allowed :: "notifications_config \<Rightarrow> string \<Rightarrow> bool" where
  "notification_allowed c shown =
     (let sev = to_ascii_lowercase (str_trim shown) in
      if str_contains sev ''human'' \<or> sev = ''error'' \<or> sev = ''critical'' then nc_notify_on_human_required c
      else if str_contains sev ''exit'' \<or> str_contains sev ''terminat'' then nc_notify_on_target_exit c
      else nc_notify_on_recovery c)"

definition herdr_backend_for_watcher ::
  "'h host \<Rightarrow> watcher_state \<Rightarrow> (string \<Rightarrow> string \<Rightarrow> 'h \<Rightarrow> (string, bool) result \<times> 'h) option" where
  "herdr_backend_for_watcher h w =
     (case (watcher_mux_identity w, observation_context (ws_target w)) of
        (Inr (Some i), Some (Herdr a b c e f g wire)) \<Rightarrow> Some (ho_herdr_notify h (Herdr a b c e f g wire) i)
      | _ \<Rightarrow> None)"

definition service_notify ::
  "'h host \<Rightarrow> string \<Rightarrow> string \<Rightarrow> string \<Rightarrow> 'h daemon \<Rightarrow> (string, unit) result \<times> 'h daemon" where
  "service_notify h wid level msg d =
     (case on_host (ho_notifications h) d of (config, d1) \<Rightarrow>
      if \<not> notification_allowed config level then (Inr (), d1)
      else let d2 = lock h d1 in
        case bt_get (reg_watchers (dm_registry d2)) wid of
          None \<Rightarrow> (Inl ''unknown watcher for notify'', d2)
        | Some w \<Rightarrow>
            (case on_host (notify_during_cleanup config \<lparr>nr_title = ''watchme:'' @ level, nr_body = msg\<rparr>
                     \<lparr>nt_herdr = herdr_backend_for_watcher h w, nt_desktop = Some (ho_desktop_notify h),
                      nt_stderr = Some (\<lambda>line s. (Inr (), ho_stderr h line s))\<rparr>) d2 of
               (Delivered _, d3) \<Rightarrow> (Inr (), d3)
             | (Suppressed reason, d3) \<Rightarrow> (Inl reason, d3)))"

text \<open>\<open>now_ms()\<close> is read under the lock, as the argument of the transition.\<close>

definition locked_transition ::
  "'h host \<Rightarrow> string \<Rightarrow> watcher_lifecycle \<Rightarrow> 'h daemon \<Rightarrow> (string, unit) result \<times> 'h daemon" where
  "locked_transition h wid lc d =
     (case on_host (ho_now_ms h) (lock h d) of (now, d1) \<Rightarrow>
      case on_registry (registry_transition wid lc now) d1 of (r, d2) \<Rightarrow> (map_err registry_error_display r, d2))"

definition service_escalate :: "'h host \<Rightarrow> string \<Rightarrow> string \<Rightarrow> 'h daemon \<Rightarrow> (string, unit) result \<times> 'h daemon" where
  "service_escalate h wid level d =
     (if level \<noteq> ''human_required'' then (Inl ''planner escalation is not available in the daemon runtime'', d)
      else locked_transition h wid (watcher_lifecycle.HumanRequired ''recovery escalation requested'') d)"

definition service_stop_watching :: "'h host \<Rightarrow> string \<Rightarrow> 'h daemon \<Rightarrow> (string, unit) result \<times> 'h daemon" where
  "service_stop_watching h wid = locked_transition h wid (watcher_lifecycle.Stopped ''recovery action stopped watcher'')"

definition daemon_services :: "'h host \<Rightarrow> string \<Rightarrow> 'h daemon runtime_services" where
  "daemon_services h wid =
     \<lparr>rs_schedule = service_schedule h wid, rs_capture = service_capture, rs_check = service_check h wid,
      rs_notify = service_notify h wid, rs_escalate = service_escalate h wid,
      rs_stop_watching = service_stop_watching h wid\<rparr>"

section \<open>Input\<close>

text \<open>The key loop's \<open>expect\<close> cannot fire (\<open>mux_kind_execute_no_panic\<close>), so the panic case is not reached.\<close>

fun raised :: "mux_result \<Rightarrow> (execution_error, execution_output) result" where
  "raised (Inl (Raised e)) = Inl e"
| "raised (Inl (Panicked e)) = Inl (PossibleSideEffect e)"
| "raised (Inr out) = Inr out"

definition execute_mux_action ::
  "'h host \<Rightarrow> watcher_state \<Rightarrow> action \<Rightarrow> 'h \<Rightarrow> (execution_error, execution_output) result \<times> 'h" where
  "execute_mux_action h w a s =
     (case ws_last_observation w of
        None \<Rightarrow> (Inl (Unsafe ''mux action requires a current observation source''), s)
      | Some e \<Rightarrow>
     (case watcher_mux_identity w of
        Inl err \<Rightarrow> (Inl (Integration (mux_error_display err)), s)
      | Inr None \<Rightarrow> (Inl (Unsafe ''input or capture requires a multiplexer target''), s)
      | Inr (Some i) \<Rightarrow>
     (case observation_context (ws_target w) of
        None \<Rightarrow> (Inl (Unsafe ''missing concrete multiplexer context''), s)
      | Some ctx \<Rightarrow>
     (case ho_adapter h ctx (composer_observe h w) of
        Inl err \<Rightarrow> (Inl (Integration (mux_error_display err)), s)
      | Inr mux \<Rightarrow> (case mux_execute (ho_parse h) mux i (ev_source e) a s of (r, s1) \<Rightarrow> (raised r, s1))))))"

definition confirm_live_evidence ::
  "'h host \<Rightarrow> watcher_state \<Rightarrow> 'h daemon \<Rightarrow> (execution_error, unit) result \<times> 'h daemon" where
  "confirm_live_evidence h snap d =
     (case fresh_read h snap d of
        (Inl e, d1) \<Rightarrow> (Inl (Integration e), d1)
      | (Inr live, d1) \<Rightarrow>
          (if le_human_intervened live \<or> \<not> le_target_revalidated live \<or> \<not> le_process_alive live \<or> \<not> le_pane_matches live
           then Inl (Unsafe ''target changed before dispatch'') else Inr (), d1))"

text \<open>The lock, held on success; the registry is the one whose watcher is the snapshot's.\<close>

definition locked_snapshot_watcher ::
  "'h host \<Rightarrow> dispatch_snapshot \<Rightarrow> 'h daemon \<Rightarrow> (execution_error, unit) result \<times> 'h daemon" where
  "locked_snapshot_watcher h snap d =
     (let d1 = lock h d in
      (if matches_dispatch_snapshot snap (dm_registry d1) then Inr () else Inl (Unsafe ''target changed before dispatch''), d1))"

definition mux_dispatch ::
  "'h host \<Rightarrow> dispatch_snapshot \<Rightarrow> action \<Rightarrow> 'h daemon \<Rightarrow> (execution_error, execution_output) result \<times> 'h daemon" where
  "mux_dispatch h snap a d =
     (case confirm_live_evidence h (ds_watcher snap) d of
        (Inl e, d1) \<Rightarrow> (Inl e, d1)
      | (Inr _, d1) \<Rightarrow>
     (case locked_snapshot_watcher h snap d1 of
        (Inl e, d2) \<Rightarrow> (Inl e, d2)
      | (Inr _, d2) \<Rightarrow>
     (case on_host (execute_mux_action h (ds_watcher snap) a)
             (d2\<lparr>dm_dispatched := dm_dispatched d2 @ [(a, dm_registry d2)]\<rparr>) of (result, d3) \<Rightarrow>
     (case on_host (ho_cancelled h) d3 of (stop, d4) \<Rightarrow>
        (if stop then Inl (PossibleSideEffect ''recovery cancellation arrived after multiplexer dispatch'') else result,
         d4)))))"

section \<open>Captures\<close>

definition herdr_typed_state :: "event_source \<Rightarrow> bool" where
  "herdr_typed_state src =
     (src_kind src = HerdrAgentState \<and> source_id src = ''herdr'' \<and> rule_or_field src = ''typed_pane_state'')"

definition capture_source_matches :: "watcher_state \<Rightarrow> string \<Rightarrow> bool" where
  "capture_source_matches w requested =
     (case (ws_last_observation w, observation_context (ws_target w)) of
        (Some e, Some (Tmux _ _ _ _ _ _)) \<Rightarrow>
          (requested = ''screen_detection'' \<or> requested = ''screen_recent'')
          \<and> src_kind (ev_source e) = ScreenDetection \<and> source_id (ev_source e) = ''tmux''
      | (Some e, Some (Herdr _ _ _ _ _ _ _)) \<Rightarrow> requested = ''structured_state'' \<and> herdr_typed_state (ev_source e)
      | _ \<Rightarrow> False)"

definition capture_herdr_structured_state ::
  "'h host \<Rightarrow> watcher_state \<Rightarrow> mux_identity \<Rightarrow> u16 \<Rightarrow> 'h \<Rightarrow> (execution_error, execution_output) result \<times> 'h" where
  "capture_herdr_structured_state h w i n s =
     (case observation_context (ws_target w) of
        Some (Herdr a b c e f g wire) \<Rightarrow>
          (case ws_last_observation w of
             None \<Rightarrow> (Inl (Unsafe ''missing current observation''), s)
           | Some ev \<Rightarrow>
               if \<not> herdr_typed_state (ev_source ev)
               then (Inl (Unsafe ''structured state source is not Herdr typed state''), s)
               else (case ho_herdr_state h (Herdr a b c e f g wire) i (herdr_after_sequence (ws_observation_schedule w))
                         (unat n) s of
                       (Inl err, s1) \<Rightarrow> (Inl (Integration err), s1)
                     | (Inr state, s1) \<Rightarrow> (Inr (Captured state), s1)))
      | _ \<Rightarrow> (Inl (Unsafe ''structured state requires a Herdr target''), s))"

definition execute_capture ::
  "'h host \<Rightarrow> watcher_state \<Rightarrow> string \<Rightarrow> u16 \<Rightarrow> 'h \<Rightarrow> (execution_error, execution_output) result \<times> 'h" where
  "execute_capture h w source n s =
     (if \<not> capture_source_matches w source
      then (Inl (Unsafe ''capture source does not match current adapter observation''), s)
      else
     (case watcher_mux_identity w of
        Inl err \<Rightarrow> (Inl (Integration (mux_error_display err)), s)
      | Inr None \<Rightarrow> (Inl (Unsafe ''capture requires a multiplexer target''), s)
      | Inr (Some i) \<Rightarrow>
          if source = ''structured_state'' then capture_herdr_structured_state h w i n s
          else (case capture_mux_target h w i (unat n) (32 * 1024) s of
                  (Inl err, s1) \<Rightarrow> (Inl (Integration (mux_error_display err)), s1)
                | (Inr c, s1) \<Rightarrow> (Inr (Captured (cap_text c)), s1))))"

definition capture_dispatch ::
  "'h host \<Rightarrow> dispatch_snapshot \<Rightarrow> string \<Rightarrow> u16 \<Rightarrow> 'h daemon \<Rightarrow> (execution_error, execution_output) result \<times> 'h daemon" where
  "capture_dispatch h snap source n d =
     (case confirm_live_evidence h (ds_watcher snap) d of
        (Inl e, d1) \<Rightarrow> (Inl e, d1)
      | (Inr _, d1) \<Rightarrow>
     (case locked_snapshot_watcher h snap d1 of
        (Inl e, d2) \<Rightarrow> (Inl e, d2)
      | (Inr _, d2) \<Rightarrow>
     (case on_host (execute_capture h (ds_watcher snap) source n) d2 of (result, d3) \<Rightarrow>
     (case on_host (ho_cancelled h) d3 of (stop, d4) \<Rightarrow>
        (if stop then Inl (Unsafe ''recovery cancellation requested'') else result, d4)))))"

section \<open>The executor\<close>

definition daemon_execute ::
  "'h host \<Rightarrow> dispatch_snapshot \<Rightarrow> action \<Rightarrow> 'h daemon \<Rightarrow> (execution_error, execution_output) result \<times> 'h daemon" where
  "daemon_execute h snap a d =
     (case on_host (ho_cancelled h) d of (stop, d1) \<Rightarrow>
      if stop then (Inl (Unsafe ''recovery cancellation requested''), d1)
      else (case act_kind a of
          SendText _ \<Rightarrow> mux_dispatch h snap a d1
        | SubmitText _ \<Rightarrow> mux_dispatch h snap a d1
        | SendKeys _ \<Rightarrow> mux_dispatch h snap a d1
        | Capture source n \<Rightarrow> capture_dispatch h snap source n d1
        | Notify _ _ \<Rightarrow> (Inl (Unsafe ''notification is not an autonomous recovery action''), d1)
        | _ \<Rightarrow> runtime_execute (ho_parse h) (daemon_services h (watcher_id (ds_watcher snap))) a d1))"

text \<open>The environment of the daemon's transactions: fresh evidence, this executor, the daemon's ledger and clock.\<close>

definition on_ledger :: "(json_action_store \<Rightarrow> 'a \<times> json_action_store) \<Rightarrow> 'h daemon \<Rightarrow> 'a \<times> 'h daemon" where
  "on_ledger f d = (case f (dm_store d) of (x, s) \<Rightarrow> (x, d\<lparr>dm_store := s\<rparr>))"

definition executor_env :: "'h host \<Rightarrow> dispatch_snapshot \<Rightarrow> 'h daemon txn_env" where
  "executor_env h snap =
     \<lparr>te_parse = ho_parse h, te_snapshot = ho_snapshot h, te_debug = ho_debug h,
      te_read = fresh_read h (ds_watcher snap),
      te_read_verification = fresh_read_verification h (ds_watcher snap),
      te_execute = (\<lambda>a d. case daemon_execute h snap a d of (out, d1) \<Rightarrow>
         (out, d1\<lparr>dm_sent := dm_sent d1 @ [(a, ledger_active (dm_store d), out)]\<rparr>)),
      te_monotonic_ms = on_host (ho_monotonic_ms h),
      te_wall = on_host (ho_wall h),
      te_sleep = (\<lambda>n d. d\<lparr>dm_host := ho_sleep h n (dm_host d)\<rparr>),
      te_claim = (\<lambda>t r. on_ledger (claim_prepared t r)),
      te_append = (\<lambda>t r. on_ledger (jas_append t r)),
      te_escalate = (\<lambda>t r reason. on_ledger (escalate_uncertain t r reason)),
      te_active = (\<lambda>t d. (jas_active t (dm_store d), d))\<rparr>"

end
