(* ===== verification/Transaction_Invariant.thy ===== *)
theory Transaction_Invariant
  imports Transaction
begin

text \<open>
  Invariants of a transaction (\<open>src/src/recovery/transaction.rs\<close>): a predicate on the world that every operation
  of the environment keeps, the executor only for the transaction's own action, holds when the transaction ends.
  The locale is interpreted on the daemon's environment.
\<close>

locale txn_invariant =
  fixes env :: "'w txn_env" and act :: action and inv :: "'w \<Rightarrow> bool"
  assumes inv_read: "inv w \<Longrightarrow> te_read env w = (x, w1) \<Longrightarrow> inv w1"
    and inv_read_verification: "inv w \<Longrightarrow> te_read_verification env b w = (x, w1) \<Longrightarrow> inv w1"
    and inv_execute: "inv w \<Longrightarrow> te_execute env act w = (y, w1) \<Longrightarrow> inv w1"
    and inv_monotonic: "inv w \<Longrightarrow> te_monotonic_ms env w = (n, w1) \<Longrightarrow> inv w1"
    and inv_wall: "inv w \<Longrightarrow> te_wall env w = (s, w1) \<Longrightarrow> inv w1"
    and inv_sleep: "inv w \<Longrightarrow> inv (te_sleep env n w)"
    and inv_claim: "inv w \<Longrightarrow> te_claim env t r w = (c, w1) \<Longrightarrow> inv w1"
    and inv_append: "inv w \<Longrightarrow> te_append env t r w = (p, w1) \<Longrightarrow> inv w1"
    and inv_escalate: "inv w \<Longrightarrow> te_escalate env t r s w = (e, w1) \<Longrightarrow> inv w1"
begin

lemma persist: "inv w \<Longrightarrow> txn_persist env t r phase reason w = (x, w1) \<Longrightarrow> inv w1"
  by (auto simp: txn_persist_def Let_def split: prod.splits sum.splits dest: inv_append)

lemma terminate: "inv w \<Longrightarrow> txn_terminate env t r phase err w = (x, w1) \<Longrightarrow> inv w1"
  by (auto simp: txn_terminate_def split: prod.splits sum.splits dest: inv_append)

lemma uncertain: "inv w \<Longrightarrow> txn_uncertain env t r reason w = (x, w1) \<Longrightarrow> inv w1"
  by (auto simp: txn_uncertain_def split: prod.splits sum.splits dest: inv_escalate)

lemma revalidate: "inv w \<Longrightarrow> txn_revalidate env a b w = (x, w1) \<Longrightarrow> inv w1"
  by (auto simp: txn_revalidate_def split: prod.splits sum.splits dest: inv_read)

lemma step:
  assumes "inv w" "te_read_verification env b w = (x, w1)" "te_monotonic_ms env w1 = (n, w2)"
  shows "inv w1" "inv w2" "inv (te_sleep env k w2)"
  using assms by (auto dest: inv_read_verification inv_monotonic intro: inv_sleep)

lemma loop:
  assumes "verify_loop env t a b r deadline w = Some (res, w')" "inv w"
  shows "inv w'"
proof -
  have "env = env \<longrightarrow> inv w \<longrightarrow> inv (snd (res, w'))"
  proof (rule verify_loop.raw_induct [OF _ assms(1), where P = "\<lambda>env' t a b r d w out.
      env' = env \<longrightarrow> inv w \<longrightarrow> inv (snd out)"], intro impI, hypsubst)
    fix f t a b r deadline w out
    assume IH: "\<And>env' t a b r d w out. f env' t a b r d w = Some out \<Longrightarrow> env' = env \<longrightarrow> inv w \<longrightarrow> inv (snd out)"
      and eq: "(case te_read_verification env b w of
          (Inl e, w1) \<Rightarrow> Some (txn_uncertain env t r (''verification evidence unavailable: '' @ e) w1)
        | (Inr after, w1) \<Rightarrow>
            if le_human_intervened after \<or> le_identity after \<noteq> le_identity b
            then Some (txn_uncertain env t r ''human intervention or identity contradiction during verification'' w1)
            else if verified b after (expected_outcomes a)
            then Some (txn_persist env t r Succeeded ''canonical expected outcome verified'' w1)
            else (case te_monotonic_ms env w1 of (now, w2) \<Rightarrow>
              if deadline \<le> now then Some (txn_uncertain env t r ''verification timed out after possible side effect'' w2)
              else f env t a b r deadline (te_sleep env POLL_MS w2))) = Some out"
      and inv: "inv w"
    obtain x w1 where rd: "te_read_verification env b w = (x, w1)" by fastforce
    obtain n w2 where mono: "te_monotonic_ms env w1 = (n, w2)" by fastforce
    note i = step [OF inv rd mono]
    show "inv (snd out)"
      using eq rd mono IH [of env t a b r deadline "te_sleep env POLL_MS w2" out] i
        uncertain [OF i(1) prod.collapse [symmetric]] uncertain [OF i(2) prod.collapse [symmetric]]
        persist [OF i(1) prod.collapse [symmetric]]
      by (auto split: sum.splits if_splits)
  qed
  with assms(2) show ?thesis by simp
qed

lemma after_execute:
  "inv w \<Longrightarrow> txn_after_execute env t a b r out w = Some (res, w') \<Longrightarrow> inv w'"
  by (auto simp: txn_after_execute_def Let_def split: prod.splits sum.splits if_splits
      dest: persist [rotated] uncertain [rotated] inv_monotonic [rotated] loop)

lemma commit:
  assumes "txn_commit env t act b c r w = Some (res, w')" "inv w"
  shows "inv w'"
proof -
  obtain x w1 where cl: "te_claim env t r w = (x, w1)" by fastforce
  obtain v w2 where rv: "txn_revalidate env act (Some c) w1 = (v, w2)" by fastforce
  obtain p w3 where pb: "txn_persist env t r Begun ''commit boundary entered'' w2 = (p, w3)" by fastforce
  have i: "inv w1" "inv w2" "inv w3"
    using assms(2) cl rv pb inv_claim revalidate persist by blast+
  show ?thesis
  proof (cases "x = Inr True \<and> is_ok v \<and> is_ok p")
    case False
    with assms(1) cl rv pb i show ?thesis
      by (auto simp: txn_commit_def is_ok_iff split: sum.splits bool.splits dest: terminate [rotated])
  next
    case True
    then obtain live r1 where ok: "x = Inr True" "v = Inr live" "p = Inr r1"
      by (auto simp: is_ok_iff)
    obtain y w4 where ex: "te_execute env act w3 = (y, w4)" by fastforce
    have "inv w4" by (rule inv_execute [OF i(3) ex])
    with assms(1) cl rv pb ok ex show ?thesis
      by (auto simp: txn_commit_def split: sum.splits execution_error.splits
          dest: terminate [rotated] uncertain [rotated] after_execute [rotated])
  qed
qed

lemma run:
  assumes "txn_run env t owner act ctx w = Some (res, w')" "inv w"
  shows "inv w'"
proof -
  obtain v1 w1 where r1: "txn_revalidate env act None w = (v1, w1)" by fastforce
  obtain wall w2 where wl: "te_wall env w1 = (wall, w2)" by fastforce
  have i: "inv w1" "inv w2" using assms(2) r1 wl revalidate inv_wall by blast+
  show ?thesis
  proof (cases v1)
    case (Inl e)
    with assms r1 i show ?thesis by (auto simp: txn_run_def split: sum.splits)
  next
    case (Inr b)
    obtain v2 w3 where r2: "txn_revalidate env act (Some b) w2 = (v2, w3)" by fastforce
    obtain now w4 where mn: "te_monotonic_ms env w3 = (now, w4)" by fastforce
    have j: "inv w3" "inv w4" using i r2 mn revalidate inv_monotonic by blast+
    with assms i r1 wl r2 mn Inr show ?thesis
      by (auto simp: txn_run_def split: sum.splits dest: commit)
  qed
qed

end

end
