(* ===== verification/Recovery_Job.thy ===== *)
theory Recovery_Job
  imports Executor Transaction_Invariant
begin

text \<open>
  One recovery job (\<open>execute_recovery_action_with_cancellation\<close> of \<open>src/src/daemon/recovery_runtime.rs\<close>): from the
  proposed action through the coordinator, the dispatch snapshot and the engine to the recorded outcome.
  \<open>None\<close> stands for a job that never ends, which the verification loop allows when the clock stands still.
\<close>

section \<open>The job\<close>

fun action_type_label :: "action_kind \<Rightarrow> string" where
  "action_type_label (WaitUntil _) = ''WAIT_UNTIL''"
| "action_type_label (WaitDuration _) = ''WAIT_DURATION''"
| "action_type_label (Capture _ _) = ''CAPTURE''"
| "action_type_label (CheckStatus _) = ''CHECK_STATUS''"
| "action_type_label (SendText _) = ''SEND_TEXT''"
| "action_type_label (SubmitText _) = ''SUBMIT_TEXT''"
| "action_type_label (SendKeys _) = ''SEND_KEYS''"
| "action_type_label (Notify _ _) = ''NOTIFY''"
| "action_type_label (Escalate _) = ''ESCALATE''"
| "action_type_label StopWatching = ''STOP_WATCHING''"
| "action_type_label Noop = ''NOOP''"

fun phase_lowercase :: "action_phase \<Rightarrow> string" where
  "phase_lowercase Prepared = ''prepared''"
| "phase_lowercase Begun = ''begun''"
| "phase_lowercase Sent = ''sent''"
| "phase_lowercase action_phase.Verifying = ''verifying''"
| "phase_lowercase Succeeded = ''succeeded''"
| "phase_lowercase action_phase.Failed = ''failed''"
| "phase_lowercase action_phase.Uncertain = ''uncertain''"
| "phase_lowercase action_phase.HumanRequired = ''humanrequired''"

definition record_recovery_decision ::
  "watcher_state \<Rightarrow> decision_phase \<Rightarrow> string \<Rightarrow> string \<Rightarrow> string \<Rightarrow> 'h daemon \<Rightarrow> 'h daemon" where
  "record_recovery_decision w phase policy label outcome d =
     d\<lparr>dm_decisions := dm_decisions d @ [\<lparr>dc_watcher = w, dc_phase = phase, dc_policy = policy, dc_action = label,
        dc_outcome = outcome\<rparr>]\<rparr>"

definition mark_resume_sent :: "string \<Rightarrow> event \<Rightarrow> event" where
  "mark_resume_sent fp e =
     (if fp = [] then e
      else e\<lparr>ev_metadata := bt_insert ''codex_resume_sent_fingerprint'' (JString fp) (ev_metadata e)\<rparr>)"

text \<open>The exactly-once marker of a Codex resume, persisted before anything is sent.\<close>

definition mark_codex_resume :: "'h host \<Rightarrow> string \<Rightarrow> string \<Rightarrow> 'h daemon \<Rightarrow> 'h daemon" where
  "mark_codex_resume h wid fp d =
     (case Option.bind (bt_get (reg_watchers (dm_registry d)) wid) ws_last_observation of
        Some e \<Rightarrow>
          if bt_get (ev_metadata e) ''codex_resume'' = Some (JBool True)
          then (case on_host (ho_now_ms h) d of (now, d1) \<Rightarrow>
                snd (on_registry (persist_observation_event wid (mark_resume_sent fp e) now) d1))
          else d
      | None \<Rightarrow> d)"

text \<open>Everything that happens under the one lock: begin, record, mark, take the snapshot.\<close>

definition begin_dispatch ::
  "'h host \<Rightarrow> watcher_state \<Rightarrow> string \<Rightarrow> string \<Rightarrow> 'h daemon \<Rightarrow> dispatch_snapshot option \<times> 'h daemon" where
  "begin_dispatch h w fp label d =
     (case on_host (ho_monotonic_ms h) (lock h d) of (ticks, d1) \<Rightarrow>
     (case on_host (ho_wall_secs h) d1 of (wall, d2) \<Rightarrow>
     (case on_host (ho_now_ms h) d2 of (now, d3) \<Rightarrow>
     (case on_registry (coordinator_begin_action (watcher_id w) fp
             \<lparr>monotonic_seconds = ticks div 1000, wall_seconds = wall\<rparr> now) d3 of
        (Inl _, d4) \<Rightarrow>
          (None, record_recovery_decision w PolicyDeny ''DENY recovery begin refused'' label ''cancelled'' d4)
      | (Inr _, d4) \<Rightarrow>
          (let d5 = record_recovery_decision w PolicyAllow (''ALLOW '' @ label) label ''authorized'' d4;
               d6 = record_recovery_decision w ActionBegin (''ALLOW '' @ label) label ''begun'' d5;
               d7 = mark_codex_resume h (watcher_id w) fp d6 in
           (case dispatch_snapshot_of (watcher_id w) (dm_registry d7) of Inr snap \<Rightarrow> Some snap | Inl _ \<Rightarrow> None, d7))))))"

definition job_succeeded :: "'h host \<Rightarrow> watcher_state \<Rightarrow> string \<Rightarrow> string \<Rightarrow> 'h daemon \<Rightarrow> 'h daemon" where
  "job_succeeded h current fp label d =
     (case on_host (ho_cancelled h) d of (stop, d1) \<Rightarrow>
      if stop
      then snd (locked_transition h (watcher_id current)
             (watcher_lifecycle.HumanRequired ''recovery cancellation followed a completed side effect'')
             (record_recovery_decision current ActionCancel (''ALLOW '' @ label) label ''cancelled_after_side_effect'' d1))
      else (case on_host (ho_now_ms h) (lock h d1) of (now, d2) \<Rightarrow>
        record_recovery_decision current ActionVerify (''ALLOW '' @ label) label ''verified''
          (snd (on_registry (coordinator_action_succeeded (watcher_id current) fp now) d2))))"

definition job_failed :: "'h host \<Rightarrow> watcher_state \<Rightarrow> string \<Rightarrow> txn_error \<Rightarrow> 'h daemon \<Rightarrow> 'h daemon" where
  "job_failed h current label err d =
     (let denied = (case err of txn_error.PolicyDenied _ \<Rightarrow> True | _ \<Rightarrow> False) in
      snd (locked_transition h (watcher_id current)
        (watcher_lifecycle.HumanRequired (''recovery action requires review: '' @ txn_error_display err))
        (record_recovery_decision current (if denied then PolicyDeny else ActionCancel)
          (if denied then ''DENY '' @ txn_error_display err else ''ALLOW '' @ label) label ''cancelled'' d)))"

definition job_outcome ::
  "'h host \<Rightarrow> watcher_state \<Rightarrow> string \<Rightarrow> string \<Rightarrow> (txn_error, action_record option) result \<Rightarrow> 'h daemon \<Rightarrow> 'h daemon" where
  "job_outcome h current fp label res d =
     (case res of
        Inr (Some r) \<Rightarrow>
          if ar_phase r = Succeeded then job_succeeded h current fp label d
          else record_recovery_decision current ActionCancel (''ALLOW '' @ label) label (phase_lowercase (ar_phase r)) d
      | Inr None \<Rightarrow>
          record_recovery_decision current PolicyDeny ''DENY no executable action'' label ''no_action'' d
      | Inl err \<Rightarrow> job_failed h current label err d)"

definition recovery_job ::
  "'h host \<Rightarrow> (watcher_state \<Rightarrow> action option) \<Rightarrow> owner_identity \<Rightarrow> watcher_state \<Rightarrow> 'h daemon \<Rightarrow> 'h daemon option" where
  "recovery_job h recipes owner w d =
     (case on_host (ho_cancelled h) d of (stop, d1) \<Rightarrow>
      if stop then Some d1
      else (case recipes w of
        None \<Rightarrow> Some (record_recovery_decision w PolicyDeny ''DENY no recovery recipe'' ''NONE'' ''no_action'' d1)
      | Some a \<Rightarrow>
          let label = action_type_label (act_kind a); fp = action_fingerprint a in
          if fp = []
          then Some (record_recovery_decision w PolicyDeny ''DENY missing evidence fingerprint'' label ''cancelled'' d1)
          else (case begin_dispatch h w fp label d1 of
              (None, d2) \<Rightarrow> Some d2
            | (Some snap, d2) \<Rightarrow>
                map_option (\<lambda>(res, d3). job_outcome h (ds_watcher snap) fp label res d3)
                  (engine_execute (executor_env h snap) recipes (ds_watcher snap) owner d2))))"

section \<open>Frames\<close>

text \<open>The registry operations a running job performs itself, apart from those of the recovery coordinator.\<close>

fun job_op :: "registry_op \<Rightarrow> bool" where
  "job_op (OpTransition _ _ _) = True"
| "job_op (OpPersistSchedule _ _ _) = True"
| "job_op _ = False"

lemma schedule_wait_run:
  "\<exists>ops. snd (schedule_wait wid until now r) = registry_run ops r \<and> (\<forall>x \<in> set ops. job_op x)"
proof (cases "bt_get (reg_watchers r) wid")
  case None
  then show ?thesis by (auto simp: schedule_wait_def intro: exI [of _ "[]"])
next
  case (Some w)
  let ?s = "(ws_observation_schedule w)\<lparr>next_due_wall_ms := until, event_wake_pending := False\<rparr>"
  let ?p = "OpPersistSchedule wid ?s now"
  let ?t = "OpTransition wid (Waiting until ''recovery wait scheduled'') now"
  obtain e r1 where p: "persist_observation_schedule wid ?s now r = (e, r1)" by fastforce
  then have one: "r1 = registry_run [?p] r" by simp
  have "snd (schedule_wait wid until now r) = registry_run (if is_ok e then [?p, ?t] else [?p]) r"
    using one by (cases e) (simp_all add: schedule_wait_def Some p case_prod_unfold)
  moreover have "\<forall>x \<in> set (if is_ok e then [?p, ?t] else [?p]). job_op x" by simp
  ultimately show ?thesis by blast
qed

text \<open>What relates the daemon before and after every step of a job that types nothing: a relation that is closed
  under composition and holds across the host's answers, the other tasks' work at a lock, the job's own
  registry operations and its decision log. Each step of the job is shown once to be such a composition.\<close>

locale daemon_frame =
  fixes h :: "'h host" and rel :: "'h daemon \<Rightarrow> 'h daemon \<Rightarrow> bool"
  assumes rel_trans: "rel d1 d2 \<Longrightarrow> rel d2 d3 \<Longrightarrow> rel d1 d3"
    and rel_host: "rel d (d\<lparr>dm_host := s\<rparr>)"
    and rel_lock: "rel d (lock h d)"
    and rel_ops: "\<forall>x \<in> set ops. job_op x \<Longrightarrow> rel d (d\<lparr>dm_registry := registry_run ops (dm_registry d)\<rparr>)"
    and rel_decisions: "rel d (d\<lparr>dm_decisions := ds\<rparr>)"
begin

lemma same [simp]: "rel d d"
  using rel_host [of d "dm_host d"] by simp

lemma host: "on_host f d = (x, d') \<Longrightarrow> rel d d'"
  by (auto simp: on_host_def rel_host split: prod.splits)

lemma on_reg:
  assumes "on_registry f d = (x, d')" "snd (f (dm_registry d)) = registry_run ops (dm_registry d)"
    and "\<forall>x \<in> set ops. job_op x"
  shows "rel d d'"
  using assms rel_ops [OF assms(3), of d] by (auto simp: on_registry_def split: prod.splits)

lemma transition: "on_registry (registry_transition wid lc now) d = (x, d') \<Longrightarrow> rel d d'"
  by (erule on_reg [where ops = "[OpTransition wid lc now]"]) simp_all

lemma decision: "rel d e \<Longrightarrow> rel d (record_recovery_decision w p q l r e)"
  by (auto simp: record_recovery_decision_def intro: rel_trans rel_decisions)

lemma locked_change: "locked_transition h wid lc d = (x, d') \<Longrightarrow> rel d d'"
  by (auto simp: locked_transition_def split: prod.splits
      dest!: host transition
      intro: rel_trans rel_trans [OF rel_lock])

lemma evidence: "evidence_watcher h wid d = (x, d') \<Longrightarrow> rel d d'"
  by (auto simp: evidence_watcher_def Let_def rel_lock)

lemma alive_check: "target_process_is_alive h t d = (x, d') \<Longrightarrow> rel d d'"
  by (auto simp: target_process_is_alive_def split: prod.splits dest: host)

lemma identity: "live_identity h w alive d = (x, d') \<Longrightarrow> rel d d'"
  by (auto simp: live_identity_def split: prod.splits sum.splits option.splits if_splits
      dest!: host intro: rel_trans)

lemma fresh:
  assumes "fresh_read h snap d = (x, d')"
  shows "rel d d'"
proof -
  obtain v d1 where e: "evidence_watcher h (watcher_id snap) d = (v, d1)" by fastforce
  note d1 = evidence [OF e]
  show ?thesis
  proof (cases "\<exists>w ev. v = Inr w \<and> ws_last_observation w = Some ev")
    case False
    with assms e d1 show ?thesis by (auto simp: fresh_read_def split: sum.splits option.splits)
  next
    case True
    then obtain w ev where w: "v = Inr w" "ws_last_observation w = Some ev" by blast
    obtain alive d2 where al: "target_process_is_alive h (ws_target w) d1 = (alive, d2)" by fastforce
    obtain y d3 where id: "live_identity h w alive d2 = (y, d3)" by fastforce
    have "d' = d3" using assms e w al id by (auto simp: fresh_read_def split: prod.splits)
    with d1 alive_check [OF al] identity [OF id] show ?thesis
      by (blast intro: rel_trans)
  qed
qed

lemma verification:
  "fresh_read_verification h snap b d = (x, d') \<Longrightarrow> rel d d'"
  by (auto simp: fresh_read_verification_def split: prod.splits sum.splits
      dest!: fresh evidence host intro: rel_trans)

lemma confirm: "confirm_live_evidence h snap d = (x, d') \<Longrightarrow> rel d d'"
  by (auto simp: confirm_live_evidence_def split: prod.splits sum.splits dest: fresh)

lemma locked: "locked_snapshot_watcher h snap d = (x, d') \<Longrightarrow> rel d d'"
  by (auto simp: locked_snapshot_watcher_def Let_def rel_lock)

lemma capture: "capture_dispatch h snap src n d = (x, d') \<Longrightarrow> rel d d'"
  by (auto simp: capture_dispatch_def split: prod.splits sum.splits
      dest!: confirm locked host intro: rel_trans)

lemma schedule: "service_schedule h wid deadline d = (x, d') \<Longrightarrow> rel d d'"
proof (cases "on_host (ho_now_ms h) d")
  case (Pair now d1)
  assume run: "service_schedule h wid deadline d = (x, d')"
  note d1 = host [OF Pair]
  show ?thesis
  proof (cases "parse_wait_deadline (ho_parse h) deadline now")
    case (Inl e)
    with run Pair d1 show ?thesis by (simp add: service_schedule_def)
  next
    case (Inr until)
    with run Pair have "on_registry (schedule_wait wid until now) (lock h d1) = (x, d')"
      by (simp add: service_schedule_def)
    from on_reg [OF this] schedule_wait_run have "rel (lock h d1) d'" by blast
    with d1 show ?thesis by (blast intro: rel_trans rel_lock)
  qed
qed

lemma check: "service_check h wid kind v d = (x, d') \<Longrightarrow> rel d d'"
  by (auto simp: service_check_def Let_def split: prod.splits option.splits if_splits
      dest!: alive_check intro: rel_lock rel_trans)

lemma notify: "service_notify h wid level msg d = (x, d') \<Longrightarrow> rel d d'"
  by (auto simp: service_notify_def Let_def split: prod.splits option.splits if_splits notification_outcome.splits
      dest!: host) (meson rel_lock rel_trans)+

lemma runtime:
  "runtime_execute parse (daemon_services h wid) a d = (x, d') \<Longrightarrow> rel d d'"
  by (auto simp: runtime_execute_def runtime_def daemon_services_def service_capture_def service_escalate_def
      service_stop_watching_def split: sum.splits action_kind.splits prod.splits if_splits
      dest: schedule check notify locked_change)

lemma mux_step:
  assumes "mux_dispatch h snap a d = (x, d')"
  obtains (quiet) "rel d d'"
  | (typed) d1 d2 where "rel d d2" "confirm_live_evidence h (ds_watcher snap) d = (Inr (), d1)"
      "matches_dispatch_snapshot snap (dm_registry d2)" "dm_dispatched d' = dm_dispatched d2 @ [(a, dm_registry d2)]"
      "dm_registry d' = dm_registry d2" "dm_store d' = dm_store d2" "dm_sent d' = dm_sent d2"
proof -
  obtain c d1 where cf: "confirm_live_evidence h (ds_watcher snap) d = (c, d1)" by fastforce
  obtain l d2 where lk: "locked_snapshot_watcher h snap d1 = (l, d2)" by fastforce
  have d2: "rel d d2" using confirm [OF cf] locked [OF lk] by (rule rel_trans)
  show thesis
  proof (cases "c = Inr () \<and> l = Inr ()")
    case False
    with assms cf lk d2 confirm [OF cf] have "rel d d'" by (auto simp: mux_dispatch_def split: sum.splits)
    then show thesis by (rule quiet)
  next
    case True
    have "matches_dispatch_snapshot snap (dm_registry d2)"
      using lk True by (auto simp: locked_snapshot_watcher_def Let_def split: if_splits)
    moreover have "dm_dispatched d' = dm_dispatched d2 @ [(a, dm_registry d2)]" "dm_registry d' = dm_registry d2"
        "dm_store d' = dm_store d2" "dm_sent d' = dm_sent d2"
      using assms cf lk True by (auto simp: mux_dispatch_def on_host_def split: prod.splits)
    ultimately show thesis using typed d2 cf True by blast
  qed
qed

lemma execute_step:
  assumes "daemon_execute h snap a d = (x, d')"
  obtains (quiet) "rel d d'"
  | (typed) d1 where "rel d d1" "is_input (act_kind a)" "mux_dispatch h snap a d1 = (x, d')"
proof -
  obtain stop d1 where st: "on_host (ho_cancelled h) d = (stop, d1)" by fastforce
  note d1 = host [OF st]
  have "rel d1 d' \<or> is_input (act_kind a) \<and> mux_dispatch h snap a d1 = (x, d')"
    using assms st
    by (auto simp: daemon_execute_def split: action_kind.splits if_splits dest: capture runtime)
  with d1 quiet typed show thesis by (blast intro: rel_trans)
qed

end

text \<open>A step that at most runs registry operations and the host.\<close>

definition registry_only :: "'h daemon \<Rightarrow> 'h daemon \<Rightarrow> bool" where
  "registry_only d d' \<longleftrightarrow> dm_store d' = dm_store d \<and> dm_sent d' = dm_sent d \<and> dm_dispatched d' = dm_dispatched d \<and>
     registry_step\<^sup>*\<^sup>* (dm_registry d) (dm_registry d')"

lemma on_host_registry: "on_host f d = (x, d') \<Longrightarrow> dm_registry d' = dm_registry d"
  by (auto simp: on_host_def split: prod.splits)

lemma registry_only_on_registry:
  assumes "on_registry f d = (x, d')" "snd (f (dm_registry d)) = registry_run ops (dm_registry d)"
  shows "registry_only d d'"
  using assms by (auto simp: on_registry_def registry_only_def registry_run_steps split: prod.splits)

interpretation ro: daemon_frame h registry_only for h :: "'h host"
  by unfold_locales
    (auto simp: lock_def on_host_def registry_only_def registry_run_steps split: prod.splits)

lemma registry_only_decision [simp]:
  "registry_only d (record_recovery_decision w p q l r e) = registry_only d e"
  by (simp add: registry_only_def record_recovery_decision_def)

section \<open>Dispatch\<close>

text \<open>The step that typed: the registry at that moment was the snapshot's, and the watcher in nobody's hands.\<close>

definition dispatched_once :: "dispatch_snapshot \<Rightarrow> action \<Rightarrow> 'h daemon \<Rightarrow> 'h daemon \<Rightarrow> bool" where
  "dispatched_once snap a d d' \<longleftrightarrow>
     (\<exists>r. registry_step\<^sup>*\<^sup>* (dm_registry d) r \<and> matches_dispatch_snapshot snap r \<and>
       \<not> lifecycle_in_human_hands (ws_lifecycle (ds_watcher snap)) \<and>
       dm_dispatched d' = dm_dispatched d @ [(a, r)] \<and> dm_registry d' = r) \<and>
     dm_store d' = dm_store d \<and> dm_sent d' = dm_sent d"

lemma confirmed_not_in_human_hands:
  assumes "confirm_live_evidence h snap d = (Inr u, d')"
  shows "\<not> lifecycle_in_human_hands (ws_lifecycle snap)"
  using assms
  by (auto simp: confirm_live_evidence_def fresh_read_def human_intervened_in_def
      split: prod.splits sum.splits option.splits if_splits)

lemma mux_dispatch_cases:
  assumes "mux_dispatch h snap a d = (x, d')"
  shows "registry_only d d' \<or> dispatched_once snap a d d'"
  using assms
proof (cases rule: ro.mux_step)
  case (typed d1 d2)
  from confirmed_not_in_human_hands [OF typed(2)] typed show ?thesis
    by (auto simp: dispatched_once_def registry_only_def)
qed simp

lemma daemon_execute_cases:
  assumes "daemon_execute h snap a d = (x, d')"
  shows "registry_only d d' \<or> is_input (act_kind a) \<and> dispatched_once snap a d d'"
  using assms
proof (cases rule: ro.execute_step)
  case (typed d1)
  with mux_dispatch_cases [OF typed(3)] show ?thesis
    by (auto simp: dispatched_once_def registry_only_def dest: rtranclp_trans)
qed simp

section \<open>The daemon's transactions\<close>

definition daemon_active :: "'h daemon \<Rightarrow> string \<Rightarrow> action_record option" where
  "daemon_active d = ledger_active (dm_store d)"

definition daemon_audit :: "'h daemon \<Rightarrow> string \<Rightarrow> action_record list" where
  "daemon_audit d = ledger_audit (dm_store d)"

definition daemon_keys :: "'h daemon \<Rightarrow> string set" where
  "daemon_keys d = ledger_keys (dm_store d)"

lemmas daemon_views = daemon_active_def daemon_audit_def daemon_keys_def

lemma on_ledger_eq:
  "on_ledger f d = (x, d') \<longleftrightarrow> (\<exists>s. f (dm_store d) = (x, s) \<and> d' = d\<lparr>dm_store := s\<rparr>)"
  by (auto simp: on_ledger_def split: prod.splits)

lemma executor_frame:
  assumes "daemon_execute h snap a d = (x, d')"
  shows "dm_store d' = dm_store d \<and> dm_sent d' = dm_sent d"
  using daemon_execute_cases [OF assms] by (auto simp: dispatched_once_def registry_only_def)

lemma registry_only_views:
  "registry_only d d' \<Longrightarrow> dm_store d' = dm_store d \<and> dm_sent d' = dm_sent d"
  by (simp add: registry_only_def)

interpretation dt: transaction_env "executor_env h snap" daemon_active daemon_audit daemon_keys dm_sent for h snap
proof (unfold_locales, goal_cases)
  case (1 t r d d')
  then show ?case by (auto simp: executor_env_def on_ledger_eq daemon_views dest: jas.claim_ok)
next
  case (2 t r d res d')
  then show ?case by (auto simp: executor_env_def on_ledger_eq daemon_views dest: jas.claim_refused)
next
  case (3 d t r)
  then show ?case
    using jas.claim_taken [of "dm_store d" t r]
    by (auto simp: executor_env_def on_ledger_def daemon_views split: prod.splits)
next
  case (4 t r d u d')
  then show ?case by (auto simp: executor_env_def on_ledger_eq daemon_views dest: jas.app_ok)
next
  case (5 t r d e d')
  then show ?case by (auto simp: executor_env_def on_ledger_eq daemon_views dest: jas.app_err)
next
  case (6 t r reason d h' d')
  then show ?case by (auto simp: executor_env_def on_ledger_eq daemon_views dest: jas.escalate_ok)
next
  case (7 t r reason d e d')
  then show ?case by (auto simp: executor_env_def on_ledger_eq daemon_views dest: jas.escalate_err)
qed (auto simp: executor_env_def on_ledger_eq daemon_views jas_active_def ledger_active_def
    split: if_splits prod.splits
    dest!: ro.fresh ro.verification ro.host executor_frame registry_only_views)

section \<open>Discipline of the dispatches\<close>

text \<open>What a transaction may have dispatched since \<open>d0\<close>: only its own action, only on the snapshot.\<close>

definition disciplined :: "dispatch_snapshot \<Rightarrow> action \<Rightarrow> 'h daemon \<Rightarrow> 'h daemon \<Rightarrow> bool" where
  "disciplined snap a d0 d \<longleftrightarrow> registry_step\<^sup>*\<^sup>* (dm_registry d0) (dm_registry d) \<and>
     (\<exists>xs. dm_dispatched d = dm_dispatched d0 @ xs \<and> length xs + length (dm_sent d0) \<le> length (dm_sent d) \<and>
       (\<forall>(b, r) \<in> set xs. b = a \<and> is_input (act_kind a) \<and> matches_dispatch_snapshot snap r \<and>
          \<not> lifecycle_in_human_hands (ws_lifecycle (ds_watcher snap)) \<and> registry_step\<^sup>*\<^sup>* (dm_registry d0) r))"

lemma disciplined_refl: "disciplined snap a d d"
  by (simp add: disciplined_def)

lemma disciplined_registry_only: "disciplined snap a d0 d \<Longrightarrow> registry_only d d' \<Longrightarrow> disciplined snap a d0 d'"
  by (auto simp: disciplined_def registry_only_def dest: rtranclp_trans)

lemma disciplined_ledger: "disciplined snap a d0 d \<Longrightarrow> on_ledger f d = (x, d') \<Longrightarrow> disciplined snap a d0 d'"
  by (auto simp: disciplined_def on_ledger_eq)

lemma disciplined_execute:
  assumes "disciplined snap a d0 d" "te_execute (executor_env h snap) a d = (x, d')"
  shows "disciplined snap a d0 d'"
proof -
  obtain y d1 where ex: "daemon_execute h snap a d = (y, d1)"
      and d': "d' = d1\<lparr>dm_sent := dm_sent d1 @ [(a, ledger_active (dm_store d), y)]\<rparr>"
    using assms(2) by (auto simp: executor_env_def split: prod.splits)
  from daemon_execute_cases [OF ex] assms(1) show ?thesis
    by (auto simp: d' disciplined_def registry_only_def dispatched_once_def dest: rtranclp_trans)
qed

interpretation dd: txn_invariant "executor_env h snap" a "disciplined snap a d0" for h snap a d0
proof (unfold_locales, goal_cases)
  case (1 d x d')
  then show ?case by (auto simp: executor_env_def dest: ro.fresh disciplined_registry_only)
next
  case (2 d b x d')
  then show ?case by (auto simp: executor_env_def dest: ro.verification disciplined_registry_only)
next
  case (3 d x d')
  then show ?case by (rule disciplined_execute)
next
  case (6 d n)
  have "registry_only d (te_sleep (executor_env h snap) n d)" by (simp add: executor_env_def registry_only_def)
  with 6 show ?case by (rule disciplined_registry_only)
qed (auto simp: executor_env_def dest: ro.host disciplined_registry_only disciplined_ledger)

lemma engine_disciplined:
  assumes "engine_execute (executor_env h snap) recipes w owner d = Some (res, d')"
  shows "(\<exists>a. recipes w = Some a \<and> disciplined snap a d d') \<or> d' = d"
proof (cases "recipes w")
  case None
  with assms show ?thesis by (simp add: engine_execute_def)
next
  case (Some a)
  obtain now d1 where mn: "te_monotonic_ms (executor_env h snap) d = (now, d1)" by fastforce
  have one: "disciplined snap a d d1" by (rule dd.inv_monotonic [OF disciplined_refl mn])
  with assms Some mn show ?thesis
    by (auto simp: engine_execute_def split: sum.splits dest: dd.run)
qed

lemma engine_sent:
  assumes "engine_execute (executor_env h snap) recipes w owner d = Some (res, d')"
  shows "dm_sent d' = dm_sent d \<or> (\<exists>a m x b. recipes w = Some a \<and> dm_sent d' = dm_sent d @ [(a, m, x)] \<and>
    m (watcher_id w) = Some b \<and> ar_phase b = Begun)"
proof (cases "recipes w")
  case None
  with assms show ?thesis by (simp add: engine_execute_def)
next
  case (Some a)
  obtain now d1 where mn: "te_monotonic_ms (executor_env h snap) d = (now, d1)" by fastforce
  note fr = dt.monotonic_frame [OF mn]
  show ?thesis
  proof (cases "recovery_context_from_watcher w (now div 1000)")
    case (Inl e)
    with assms Some mn fr show ?thesis by (simp add: engine_execute_def)
  next
    case (Inr ctx)
    with assms Some mn obtain r0 where
      "txn_run (executor_env h snap) (watcher_id w) owner a ctx d1 = Some (r0, d')"
      by (auto simp: engine_execute_def)
    from dt.run_outcome [OF this] fr Some show ?thesis by (auto simp: dt.untouched_def)
  qed
qed

section \<open>Beginning\<close>

lemma begin_recovery_ok:
  assumes "coordinator_begin_action wid fp clk now r = (Inr x, r')"
  shows "\<exists>w m. bt_get (reg_watchers r') wid = Some w \<and> ws_recovery w = Some m \<and>
    rm_state m = recovery_state.Acting \<and> rm_current m = Some fp"
  using assms unfolding coordinator_begin_action_def apply_recovery_transition_def
proof (cases rule: update_watcher_cases)
  case (stored w w1 y rv)
  then obtain m0 m where m: "ws_recovery w1 = Some m" "begin_action fp clk m0 = (Inr (), m)"
    by (auto simp: apply_command_Inr result_simps)
  from stored have "bt_get (reg_watchers r') wid = Some (w1\<lparr>ws_revision := rv, updated_at_unix_ms := now\<rparr>)"
    by (simp add: wrote_def bt.get_put)
  with m begin_action_ok(2,4,8) [OF m(2)] show ?thesis by simp
qed auto

lemma persist_event_recovery:
  assumes "persist_observation_event wid e now r = (x, r')" "bt_get (reg_watchers r) wid = Some w"
  shows "\<exists>w'. bt_get (reg_watchers r') wid = Some w' \<and> ws_recovery w' = ws_recovery w"
  using assms
  by (auto simp: persist_observation_event_def change_watcher_def wrote_def untouched_map_def bt.get_put
      elim!: update_watcher_cases)

lemma mark_codex_resume_frame:
  assumes "bt_get (reg_watchers (dm_registry d)) wid = Some w"
  shows "registry_only d (mark_codex_resume h wid fp d) \<and>
    (\<exists>w'. bt_get (reg_watchers (dm_registry (mark_codex_resume h wid fp d))) wid = Some w' \<and>
       ws_recovery w' = ws_recovery w)"
proof -
  have run: "registry_only d d2 \<and> (\<exists>w'. bt_get (reg_watchers (dm_registry d2)) wid = Some w' \<and> ws_recovery w' = ws_recovery w)"
    if "on_host f d = (now, d1)" "on_registry (persist_observation_event wid e now) d1 = (x, d2)" for f now d1 e x d2
  proof -
    have "registry_only d1 d2"
      by (rule registry_only_on_registry [OF that(2), where ops = "[OpPersistEvent wid e now]"]) simp
    moreover have "\<exists>w'. bt_get (reg_watchers (dm_registry d2)) wid = Some w' \<and> ws_recovery w' = ws_recovery w"
      using that(2) assms on_host_registry [OF that(1)] persist_event_recovery
      by (auto simp: on_registry_def split: prod.splits)
    ultimately show ?thesis using ro.host [OF that(1)] ro.rel_trans by blast
  qed
  show ?thesis
    using assms run
    by (auto simp: mark_codex_resume_def split: option.split prod.split) (metis prod.collapse)+
qed

lemma begin_dispatch_cases:
  assumes "begin_dispatch h w fp label d = (got, d')"
  obtains (refused) "got = None" "registry_only d d'"
  | (begun) snap m where "got = Some snap" "registry_only d d'"
      "bt_get (reg_watchers (dm_registry d')) (watcher_id w) = Some (ds_watcher snap)"
      "ws_recovery (ds_watcher snap) = Some m" "rm_state m = recovery_state.Acting" "rm_current m = Some fp"
proof -
  obtain t d1 where d1: "on_host (ho_monotonic_ms h) (lock h d) = (t, d1)" by fastforce
  obtain wall d2 where d2: "on_host (ho_wall_secs h) d1 = (wall, d2)" by fastforce
  obtain now d3 where d3: "on_host (ho_now_ms h) d2 = (now, d3)" by fastforce
  let ?clk = "\<lparr>monotonic_seconds = t div 1000, wall_seconds = wall\<rparr>"
  obtain x d4 where d4: "on_registry (coordinator_begin_action (watcher_id w) fp ?clk now) d3 = (x, d4)" by fastforce
  note run = assms [unfolded begin_dispatch_def d1 d2 d3 d4 prod.case Let_def]
  have "registry_only d3 d4"
    by (rule registry_only_on_registry [OF d4, where ops = "[OpRecovery (watcher_id w) (BeginAction fp ?clk) now]"])
      (simp add: coordinator_begin_action_def no_value_def)
  then have f4: "registry_only d d4"
    using ro.host [OF d1] ro.host [OF d2] ro.host [OF d3]
      ro.rel_lock ro.rel_trans by metis
  show thesis
  proof (cases x)
    case (Inl e)
    with run f4 refused show thesis by auto
  next
    case (Inr y)
    with d4 have "coordinator_begin_action (watcher_id w) fp ?clk now (dm_registry d3) = (Inr y, dm_registry d4)"
      by (auto simp: on_registry_def split: prod.splits)
    from begin_recovery_ok [OF this] obtain v m where v:
        "bt_get (reg_watchers (dm_registry d4)) (watcher_id w) = Some v"
        "ws_recovery v = Some m" "rm_state m = recovery_state.Acting" "rm_current m = Some fp" by blast
    define d6 where "d6 = record_recovery_decision w ActionBegin (''ALLOW '' @ label) label ''begun''
       (record_recovery_decision w PolicyAllow (''ALLOW '' @ label) label ''authorized'' d4)"
    have "bt_get (reg_watchers (dm_registry d6)) (watcher_id w) = Some v"
      using v(1) by (simp add: d6_def record_recovery_decision_def)
    note mk = mark_codex_resume_frame [OF this, of h fp]
    then obtain v' where v': "bt_get (reg_watchers (dm_registry (mark_codex_resume h (watcher_id w) fp d6))) (watcher_id w) = Some v'"
        "ws_recovery v' = ws_recovery v" by blast
    have d': "d' = mark_codex_resume h (watcher_id w) fp d6" "got = Some \<lparr>ds_watcher = v'\<rparr>"
      using run v' by (auto simp: Inr d6_def dispatch_snapshot_of_def)
    have "registry_only d4 d6" by (simp add: d6_def)
    with f4 mk d'(1) have "registry_only d d'" by (blast intro: ro.rel_trans)
    with begun [of "\<lparr>ds_watcher = v'\<rparr>" m] v v' d' show thesis by simp
  qed
qed

section \<open>The job's guarantees\<close>

lemma job_outcome_frame: "registry_only d (job_outcome h w fp label res d)"
proof -
  have transition: "registry_only d (snd (locked_transition h wid lc (record_recovery_decision v p q l o' e)))"
    if "registry_only d e" for e wid lc v p q l o'
    using that ro.locked_change [OF prod.collapse [symmetric]]
    by (metis registry_only_decision ro.rel_trans)
  have "registry_only d (job_succeeded h w fp label d)"
  proof (cases "on_host (ho_cancelled h) d")
    case (Pair stop d1)
    note d1 = ro.host [OF Pair]
    obtain now d2 where d2: "on_host (ho_now_ms h) (lock h d1) = (now, d2)" by fastforce
    have "registry_only d2 (snd (on_registry (coordinator_action_succeeded (watcher_id w) fp now) d2))"
      by (rule registry_only_on_registry [OF prod.collapse [symmetric],
            where ops = "[OpRecovery (watcher_id w) (ActionSucceeded fp) now]"])
        (simp add: coordinator_action_succeeded_def no_value_def)
    then have "registry_only d (snd (on_registry (coordinator_action_succeeded (watcher_id w) fp now) d2))"
      using d1 ro.host [OF d2] by (blast intro: ro.rel_trans ro.rel_lock)
    with Pair d1 d2 transition [of d1] show ?thesis by (simp add: job_succeeded_def)
  qed
  moreover have "registry_only d (job_failed h w label err d)" for err
    by (simp add: job_failed_def Let_def transition)
  ultimately show ?thesis by (simp add: job_outcome_def split: sum.split option.split)
qed

lemma recovery_job_cases:
  assumes "recovery_job h recipes owner w d = Some d'"
  obtains (idle) "registry_only d d'"
  | (ran) a snap m d1 d2 res where "recipes w = Some a" "registry_only d d1"
      "bt_get (reg_watchers (dm_registry d1)) (watcher_id w) = Some (ds_watcher snap)"
      "ws_recovery (ds_watcher snap) = Some m" "rm_state m = recovery_state.Acting"
      "rm_current m = Some (action_fingerprint a)"
      "engine_execute (executor_env h snap) recipes (ds_watcher snap) owner d1 = Some (res, d2)"
      "d' = job_outcome h (ds_watcher snap) (action_fingerprint a) (action_type_label (act_kind a)) res d2"
proof -
  obtain stop d0 where st: "on_host (ho_cancelled h) d = (stop, d0)" by fastforce
  note d0 = ro.host [OF st]
  show thesis
  proof (cases "stop \<or> recipes w = None \<or> (\<exists>a. recipes w = Some a \<and> action_fingerprint a = [])")
    case True
    then have "registry_only d0 d'"
      using assms st by (auto simp: recovery_job_def Let_def split: if_splits)
    with d0 show thesis by (blast intro: idle ro.rel_trans)
  next
    case False
    then obtain a where a: "recipes w = Some a" "action_fingerprint a \<noteq> []" "\<not> stop" by auto
    obtain got d1 where bd: "begin_dispatch h w (action_fingerprint a) (action_type_label (act_kind a)) d0 = (got, d1)"
      by fastforce
    from bd show thesis
    proof (cases rule: begin_dispatch_cases)
      case refused
      with assms st a bd have "registry_only d0 d'" by (auto simp: recovery_job_def Let_def)
      with d0 show thesis by (blast intro: idle ro.rel_trans)
    next
      case (begun snap m)
      with assms st a bd obtain res d2 where
        "engine_execute (executor_env h snap) recipes (ds_watcher snap) owner d1 = Some (res, d2)"
        "d' = job_outcome h (ds_watcher snap) (action_fingerprint a) (action_type_label (act_kind a)) res d2"
        by (auto simp: recovery_job_def Let_def)
      with ran [OF a(1) ro.rel_trans [OF d0 begun(2)] begun(3-6)] show thesis by blast
    qed
  qed
qed

lemma matches_snapshot_entry:
  assumes "matches_dispatch_snapshot snap r" "watcher_id (ds_watcher snap) = wid"
  shows "bt_get (reg_watchers r) wid = Some (ds_watcher snap)"
  using assms by (auto simp: matches_dispatch_snapshot_def watcher_eq_def split: option.splits)

lemma ids_ok_steps: "registry_step\<^sup>*\<^sup>* r r' \<Longrightarrow> ids_ok r \<Longrightarrow> ids_ok r'"
  by (induction rule: rtranclp_induct) (auto simp: registry_step_def intro: ids_ok_moved [OF moved_snd])

text \<open>C2: The daemon types into a pane only under all its guards: a recovery job, whatever the other tasks do to
  the registry whenever the job does not hold its lock, hands at most one action to a multiplexer, and when it
  does, the registry at that moment holds a watcher that is in nobody's hands, whose recovery machine is
  acting, and for which the recipes propose exactly that action; and the ledger holds its Begun record.\<close>

theorem recovery_input_is_guarded:
  assumes "recovery_job h recipes owner w d = Some d'" "ids_ok (dm_registry d)"
  shows "\<exists>xs. dm_dispatched d' = dm_dispatched d @ xs \<and> length xs \<le> 1 \<and>
    (\<forall>(a, r) \<in> set xs. is_input (act_kind a) \<and>
       (\<exists>s m. bt_get (reg_watchers r) (watcher_id w) = Some s \<and> recipes s = Some a \<and>
          \<not> lifecycle_in_human_hands (ws_lifecycle s) \<and> ws_recovery s = Some m \<and> rm_state m = recovery_state.Acting) \<and>
       (\<exists>active x b. dm_sent d' = dm_sent d @ [(a, active, x)] \<and> active (watcher_id w) = Some b \<and> ar_phase b = Begun))"
  using assms(1)
proof (cases rule: recovery_job_cases)
  case idle
  then show ?thesis by (auto simp: registry_only_def)
next
  case (ran a snap m d1 d2 res)
  have out: "dm_dispatched d' = dm_dispatched d2" "dm_sent d' = dm_sent d2"
    using job_outcome_frame [of d2] ran(8) by (auto simp: registry_only_def)
  have one: "dm_dispatched d1 = dm_dispatched d" "dm_sent d1 = dm_sent d" "ids_ok (dm_registry d1)"
    using ran(2) assms(2) ids_ok_steps by (auto simp: registry_only_def)
  have wid: "watcher_id (ds_watcher snap) = watcher_id w" by (rule ids_ok_get [OF one(3) ran(3)])
  from engine_disciplined [OF ran(7)] show ?thesis
  proof
    assume "d2 = d1"
    with out one show ?thesis by simp
  next
    assume "\<exists>b. recipes (ds_watcher snap) = Some b \<and> disciplined snap b d1 d2"
    then obtain b xs where b: "recipes (ds_watcher snap) = Some b" "dm_dispatched d2 = dm_dispatched d1 @ xs"
        "length xs + length (dm_sent d1) \<le> length (dm_sent d2)"
        "\<forall>(c, r) \<in> set xs. c = b \<and> is_input (act_kind b) \<and> matches_dispatch_snapshot snap r \<and>
          \<not> lifecycle_in_human_hands (ws_lifecycle (ds_watcher snap))"
      by (fastforce simp: disciplined_def)
    from engine_sent [OF ran(7)] show ?thesis
    proof
      assume "dm_sent d2 = dm_sent d1"
      with b out one show ?thesis by auto
    next
      assume "\<exists>c active x e. recipes (ds_watcher snap) = Some c \<and> dm_sent d2 = dm_sent d1 @ [(c, active, x)] \<and>
        active (watcher_id (ds_watcher snap)) = Some e \<and> ar_phase e = Begun"
      with b out one wid ran(4,5) show ?thesis
        by (fastforce dest: matches_snapshot_entry [OF _ wid])
    qed
  qed
qed

section \<open>A concrete job\<close>

definition job_target :: target_identity where
  "job_target = Multiplexer ''tmux'' ''/tmp/s'' ''%0'' (process_identity_new 7 9) None
     (Some (Tmux ''/tmp/s'' ''1'' ''$0'' ''@0'' ''%0'' ''/dev/pts/1'')) None False"

definition job_watcher :: watcher_state where
  "job_watcher = (watcher_state_new ''w'' job_target watcher_lifecycle.Observing 0 1)
     \<lparr>ws_recovery := Some (rm_run [recovery_command.Revalidated, Confirm ''fedcba9876543210'']
         (rm_new \<lparr>max_attempts = 3, max_cumulative_wait = 0, budget_planner_calls = 0, cooldown = 0\<rparr>)),
      ws_last_observation := Some example_event\<rparr>"

definition job_mux :: "string list multiplexer" where
  "job_mux = example_mux\<lparr>mux_capture_tail := \<lambda>i n b w. (Inr \<lparr>cap_text = [], cap_bytes = 0, cap_truncated = False, cap_elapsed = 0\<rparr>, w),
     mux_submit_literal := \<lambda>i t w. (Inr (), w @ [t])\<rparr>"

definition job_host :: "string list host" where
  "job_host = \<lparr>ho_others = \<lambda>s. ([], s), ho_inspect = \<lambda>pid s. (Inr (synthetic pid 1 9 ''claude''), s),
     ho_adapter = \<lambda>_ _. Inr job_mux, ho_herdr_state = \<lambda>_ _ _ _ s. (Inl [], s),
     ho_progress = \<lambda>_ _ s. (if s = [] then None else Some (le_event example_after), s),
     ho_cancelled = \<lambda>s. (False, s), ho_now_ms = \<lambda>s. (5, s), ho_monotonic_ms = \<lambda>s. (0, s), ho_observation_ms = \<lambda>s. (0, s),
     ho_wall_secs = \<lambda>s. (0, s),
     ho_wall = \<lambda>s. (''now'', s), ho_sleep = \<lambda>_ s. s, ho_notifications = \<lambda>s. (notifications_config_default, s),
     ho_herdr_notify = \<lambda>_ _ _ _ s. (Inr True, s), ho_desktop_notify = \<lambda>_ _ s. (Inr (), s), ho_stderr = \<lambda>_ s. s,
     ho_target_hash = \<lambda>_. ''0123456789abcdef'', ho_parse = \<lambda>_. Some 0, ho_snapshot = \<lambda>_ _. Inr ''{}'',
     ho_debug = \<lambda>_. ''Committed''\<rparr>"

definition job_daemon :: "string list daemon" where
  "job_daemon = \<lparr>dm_registry = example_registry\<lparr>reg_watchers := [(''w'', job_watcher)]\<rparr>, dm_store = fresh_ledger [],
     dm_host = [], dm_decisions = [], dm_sent = [], dm_dispatched = []\<rparr>"

lemma job_daemon_ids: "ids_ok (dm_registry job_daemon)"
  by (simp add: ids_ok_def job_daemon_def example_registry_def job_watcher_def watcher_state_new_def bt_wf_def)

lemma job_run:
  "map_option (\<lambda>d. (map (\<lambda>x. act_kind (fst x)) (dm_dispatched d), dm_host d))
     (recovery_job job_host (\<lambda>_. Some example_submit) example_owner job_watcher job_daemon) =
   Some ([SubmitText ''continue''], [''continue''])"
  by code_simp

theorem recovery_input_is_guarded_witness:
  "\<exists>d' a r s. recovery_job job_host (\<lambda>_. Some example_submit) example_owner job_watcher job_daemon = Some d' \<and>
     dm_dispatched d' = [(a, r)] \<and> act_kind a = SubmitText ''continue'' \<and> bt_get (reg_watchers r) ''w'' = Some s \<and>
     \<not> lifecycle_in_human_hands (ws_lifecycle s)"
proof -
  obtain d' where run: "recovery_job job_host (\<lambda>_. Some example_submit) example_owner job_watcher job_daemon = Some d'"
      "map (\<lambda>x. act_kind (fst x)) (dm_dispatched d') = [SubmitText ''continue'']"
    using job_run by auto
  then obtain a r where d: "dm_dispatched d' = [(a, r)]" "act_kind a = SubmitText ''continue''" by auto
  have "dm_dispatched job_daemon = []" "watcher_id job_watcher = ''w''"
    by (simp_all add: job_daemon_def job_watcher_def watcher_state_new_def)
  with recovery_input_is_guarded [OF run(1) job_daemon_ids] d run(1) show ?thesis by auto
qed

end
