(* ===== verification/Recovery_Outcome.thy ===== *)
theory Recovery_Outcome
  imports Recovery_Job
begin

text \<open>
  What a failed recovery job leaves behind (\<open>execute_recovery_action_with_cancellation\<close> of
  \<open>src/src/daemon/recovery_runtime.rs\<close>). The job hands the watcher to a human but does not tell the recovery
  coordinator, so the recovery machine stays acting; and it writes the hand-over whatever lifecycle the
  watcher has by then.
\<close>

section \<open>The machine after a failure\<close>

text \<open>The registry operations that leave the recovery machine of \<open>wid\<close> where it is when it is acting: all but a
  registration, which may replace the watcher's record by a fresh one (\<open>refresh_existing\<close>), a write of the whole
  machine (\<open>persist_recovery\<close>, which nothing but its tests calls) and the coordinator's commands other than
  \<open>begin_action\<close>, both for this watcher.\<close>

fun keeps_machine :: "string \<Rightarrow> registry_op \<Rightarrow> bool" where
  "keeps_machine wid (OpRegister _) = False"
| "keeps_machine wid (OpPersistRecovery k _ _) = (k \<noteq> wid)"
| "keeps_machine wid (OpRecovery _ (BeginAction _ _) _) = True"
| "keeps_machine wid (OpRecovery k _ _) = (k \<noteq> wid)"
| "keeps_machine wid _ = True"

definition acting :: "string \<Rightarrow> registry \<Rightarrow> bool" where
  "acting wid r \<longleftrightarrow> (\<exists>w m. bt_get (reg_watchers r) wid = Some w \<and> ws_recovery w = Some m \<and>
     rm_state m = recovery_state.Acting)"

lemma acting_update:
  assumes "acting wid r" "update_watcher k change now r = (x, r')"
    and "\<And>w m w1 y. wid = k \<Longrightarrow> ws_recovery w = Some m \<Longrightarrow> rm_state m = recovery_state.Acting \<Longrightarrow> change w = Inr (w1, y) \<Longrightarrow>
      ws_recovery w1 = Some m"
  shows "acting wid r'"
  using assms(2)
proof (cases rule: update_watcher_cases)
  case (stored w w1 y rv)
  then have get: "bt_get (reg_watchers r') wid =
      (if wid = k then Some (w1\<lparr>ws_revision := rv, updated_at_unix_ms := now\<rparr>) else bt_get (reg_watchers r) wid)"
    by (simp add: wrote_def bt.get_put)
  show ?thesis
  proof (cases "wid = k")
    case True
    with assms(1) stored obtain m where m: "ws_recovery w = Some m" "rm_state m = recovery_state.Acting"
      by (auto simp: acting_def)
    from assms(3) [OF True this] stored get True m show ?thesis by (auto simp: acting_def)
  next
    case False
    with get assms(1) show ?thesis by (simp add: acting_def)
  qed
qed (use assms(1) in \<open>auto simp: acting_def untouched_map_def\<close>)

lemma acting_change:
  assumes "acting wid r" "change_watcher k f now r = (x, r')" "\<And>w. ws_recovery (f w) = ws_recovery w"
  shows "acting wid r'"
  using assms(1,2) unfolding change_watcher_def by (rule acting_update) (use assms(3) in auto)

lemma acting_schedule: "acting wid r \<Longrightarrow> persist_observation_schedule k s now r = (x, r') \<Longrightarrow> acting wid r'"
  unfolding persist_observation_schedule_def by (erule acting_change, assumption) simp

lemma acting_observed:
  assumes "observed_watcher s ev now w = Inr w1" "ws_recovery w = Some m" "rm_state m = recovery_state.Acting"
  shows "ws_recovery w1 = Some m"
  using assms
  by (auto simp: observed_watcher_def observe_machine_def rearms_def fresh_claude_limit_after_menu_def Let_def
      result_simps split: option.splits)

lemma begin_needs_confirmed:
  "rm_state m = recovery_state.Acting \<Longrightarrow> apply_command (BeginAction fp clk) m \<noteq> Inr m1"
  by (auto simp: apply_command_Inr dest: begin_action_ok(1))

lemma acting_apply:
  assumes "acting wid r" "keeps_machine wid x"
  shows "acting wid (snd (registry_apply x r))"
proof -
  obtain y r' where run: "registry_apply x r = (y, r')" by fastforce
  have audit: "acting wid (audit_lifecycle k msg q) = acting wid q" for k msg q by (simp add: acting_def)
  have "acting wid r'"
  proof (cases x)
    case (OpTransition k lc now)
    obtain z q where c: "change_watcher k (\<lambda>w. w\<lparr>ws_lifecycle := lc\<rparr>) now r = (z, q)" by fastforce
    have "acting wid q" by (rule acting_change [OF assms(1) c]) simp
    with run OpTransition audit c show ?thesis by (auto simp: registry_transition_def split: sum.splits)
  next
    case (OpRecovery k cmd now)
    then have cmd: "k \<noteq> wid \<or> (\<exists>fp clk. cmd = BeginAction fp clk)" using assms(2) by (cases cmd) auto
    from run OpRecovery have "apply_recovery_transition k cmd now r = (fst (apply_recovery_transition k cmd now r), r')"
      by (auto simp: no_value_def)
    from acting_update [OF assms(1) this [unfolded apply_recovery_transition_def]] show ?thesis
      using cmd by (auto simp: result_simps begin_needs_confirmed)
  next
    case (OpPersistRecovery k m now)
    with run have "change_watcher k (\<lambda>w. w\<lparr>ws_recovery := Some m\<rparr>) now r = (fst (persist_recovery k m now r), r')"
      by (auto simp: no_value_def persist_recovery_def)
    from acting_update [OF assms(1) this [unfolded change_watcher_def]] OpPersistRecovery assms(2) show ?thesis by auto
  next
    case (OpCommit k s ev now)
    with run have "commit_observation k s ev now r = (y, r')" by simp
    from acting_update [OF assms(1) this [unfolded commit_observation_def]] show ?thesis
      by (auto simp: result_simps acting_observed)
  next
    case (OpComplete k ev now)
    with run have "complete_observation k ev now r = (y, r')" by simp
    then show ?thesis
      by (auto simp: complete_observation_def Let_def intro!: acting_change [OF assms(1)] split: option.splits)
  next
    case (OpWake k fp now)
    with run assms(1) show ?thesis
      by (auto simp: wake_observation_def Let_def split: if_splits option.splits
          intro: acting_schedule)
  qed (use run assms in \<open>auto simp: retarget_process_def persist_observation_schedule_def
      persist_observation_event_def intro: acting_change [OF assms(1)]\<close>)
  with run show ?thesis by simp
qed

lemma acting_run: "acting wid r \<Longrightarrow> \<forall>x \<in> set xs. keeps_machine wid x \<Longrightarrow> acting wid (registry_run xs r)"
  by (rule registry_run_invariant [of "acting wid"]) (use acting_apply in auto)

lemma acting_refuses_begin:
  assumes "acting wid r"
  shows "\<not> is_ok (fst (coordinator_begin_action wid fp clk now r))"
proof -
  obtain v n where v: "bt_get (reg_watchers r) wid = Some v" "ws_recovery v = Some n" "rm_state n = recovery_state.Acting"
    using assms by (auto simp: acting_def)
  have "\<not> is_ok (apply_command (BeginAction fp clk) n)"
    using begin_needs_confirmed [OF v(3)] by (cases "apply_command (BeginAction fp clk) n") auto
  then show ?thesis
    using v by (cases "apply_command (BeginAction fp clk) n")
      (auto simp: coordinator_begin_action_def apply_recovery_transition_def update_watcher_def)
qed

text \<open>Nothing a job does between its begin and its end moves the machine, provided the other tasks do not.\<close>

definition others_keep :: "'h host \<Rightarrow> string \<Rightarrow> bool" where
  "others_keep h wid \<longleftrightarrow> (\<forall>s. \<forall>x \<in> set (fst (ho_others h s)). keeps_machine wid x)"

definition stays_acting :: "'h host \<Rightarrow> string \<Rightarrow> 'h daemon \<Rightarrow> 'h daemon \<Rightarrow> bool" where
  "stays_acting h wid d d' \<longleftrightarrow>
     (others_keep h wid \<longrightarrow> acting wid (dm_registry d) \<longrightarrow> acting wid (dm_registry d'))"

lemma job_op_keeps: "job_op x \<Longrightarrow> keeps_machine wid x"
  by (cases x) auto

lemma stays_acting_lock: "stays_acting h wid d (lock h d)"
proof -
  obtain xs s where "ho_others h (dm_host d) = (xs, s)" by fastforce
  moreover from this have "\<forall>x \<in> set xs. keeps_machine wid x" if "others_keep h wid"
    using that by (metis others_keep_def fst_conv)
  ultimately show ?thesis
    by (auto simp: stays_acting_def lock_def on_host_def intro: acting_run)
qed

interpretation sa: daemon_frame h "stays_acting h wid" for h :: "'h host" and wid
  by unfold_locales
    (auto simp: stays_acting_def job_op_keeps intro: acting_run stays_acting_lock [unfolded stays_acting_def, rule_format])

lemma stays_acting_execute:
  assumes "daemon_execute h snap a d = (x, d')"
  shows "stays_acting h wid d d'"
  using assms
proof (cases rule: sa.execute_step [of _ _ _ _ _ _ wid])
  case (typed d1)
  from typed(3) show ?thesis
  proof (cases rule: sa.mux_step [of _ _ _ _ _ _ wid])
    case quiet
    with typed(1) show ?thesis by (rule sa.rel_trans)
  next
    case (typed e d2)
    with sa.rel_trans [OF \<open>stays_acting h wid d d1\<close> typed(1)] show ?thesis by (simp add: stays_acting_def)
  qed
qed

lemma stays_acting_ledger: "on_ledger f d = (x, d') \<Longrightarrow> stays_acting h wid d d'"
  by (auto simp: on_ledger_eq stays_acting_def)

interpretation ta: txn_invariant "executor_env h snap" a "stays_acting h wid d0" for h snap a wid d0
proof (unfold_locales, goal_cases)
  case (3 d x d')
  then obtain y d1 where ex: "daemon_execute h snap a d = (y, d1)" "dm_registry d' = dm_registry d1"
    by (auto simp: executor_env_def split: prod.splits)
  from sa.rel_trans [OF 3(1) stays_acting_execute [OF ex(1)]] ex(2) show ?case by (simp add: stays_acting_def)
next
  case (6 d n)
  then show ?case by (simp add: executor_env_def stays_acting_def)
qed (auto simp: executor_env_def
    dest: sa.fresh sa.verification sa.host stays_acting_ledger intro: sa.rel_trans)

lemma engine_stays_acting:
  assumes "engine_execute (executor_env h snap) recipes w owner d = Some (res, d')"
  shows "stays_acting h wid d d'"
proof (cases "recipes w")
  case None
  with assms show ?thesis by (simp add: engine_execute_def)
next
  case (Some a)
  obtain now d1 where mn: "te_monotonic_ms (executor_env h snap) d = (now, d1)" by fastforce
  have one: "stays_acting h wid d d1" by (rule ta.inv_monotonic [OF sa.same mn])
  with assms Some mn show ?thesis
    by (auto simp: engine_execute_def split: sum.splits dest: ta.run)
qed

lemma job_failed_stays_acting: "stays_acting h wid d (job_failed h current label err d)"
  unfolding job_failed_def Let_def
  by (rule sa.rel_trans [OF sa.decision [OF sa.same] sa.locked_change [OF prod.collapse [symmetric]]])

text \<open>C18: A recovery job that fails is the watcher's last one. Let a job begin its action, let its transaction
  end with any error, and let the job hand the watcher over. Then the recovery machine is still acting, it is
  so after any later operations on the registry (observations, wake-ups, pauses, resumes, re-targets, attempts
  to begin, operations on other watchers), and every attempt to begin another action for this watcher is
  refused. Excluded, during the job and after it, are registrations, which may replace the watcher, and the
  coordinator's other commands for this watcher; \<open>action_failed\<close>, which would free the machine, has no caller
  in the daemon.\<close>

theorem failed_action_strands_watcher:
  assumes "begin_dispatch h w fp label d = (Some snap, d1)"
    and "engine_execute (executor_env h snap) recipes (ds_watcher snap) owner d1 = Some (Inl err, d2)"
    and "d3 = job_outcome h (ds_watcher snap) fp label (Inl err) d2"
    and "\<forall>s. \<forall>x \<in> set (fst (ho_others h s)). keeps_machine (watcher_id w) x"
    and "\<forall>x \<in> set xs. keeps_machine (watcher_id w) x"
  shows "(\<exists>v m. bt_get (reg_watchers (registry_run xs (dm_registry d3))) (watcher_id w) = Some v \<and>
        ws_recovery v = Some m \<and> rm_state m = recovery_state.Acting) \<and>
      \<not> is_ok (fst (coordinator_begin_action (watcher_id w) fp' clk now (registry_run xs (dm_registry d3))))"
proof -
  have begun: "acting (watcher_id w) (dm_registry d1)"
    using assms(1) by (cases rule: begin_dispatch_cases) (auto simp: acting_def)
  have "stays_acting h (watcher_id w) d1 d3"
    unfolding assms(3) job_outcome_def sum.case
    by (rule sa.rel_trans [OF engine_stays_acting [OF assms(2)] job_failed_stays_acting])
  with begun assms(4) have "acting (watcher_id w) (dm_registry d3)" by (simp add: stays_acting_def others_keep_def)
  then have run: "acting (watcher_id w) (registry_run xs (dm_registry d3))" using assms(5) by (rule acting_run)
  from acting_refuses_begin [OF run] run show ?thesis by (simp add: acting_def)
qed

section \<open>The lifecycle after a failure\<close>

lemma lock_decision: "dm_registry (lock h (record_recovery_decision w p q l o' d)) = dm_registry (lock h d)"
  by (simp add: lock_def on_host_def record_recovery_decision_def split: prod.splits)

lemma transition_applies:
  assumes "bt_get (reg_watchers r) wid = Some v" "ws_revision v < - 1" "js_faults (reg_store r) = []"
  shows "\<exists>v'. bt_get (reg_watchers (snd (registry_transition wid lc now r))) wid = Some v' \<and> ws_lifecycle v' = lc"
proof -
  have "chk_add (ws_revision v) 1 = Some (ws_revision v + 1)"
    using assms(2) by (simp add: chk_add_Some_iff word_less_nat_alt unat_word_ariths unat_max_word)
  then show ?thesis
    using assms(1,3)
    by (simp add: registry_transition_def change_watcher_def update_watcher_def next_revision_def
        replace_watchers_def persist_watchers_def js_write_def bt.get_put)
qed

text \<open>C19: A failed job takes the watcher out of the user's hands: whatever lifecycle another task gave the watcher
  while the job ran, \<open>Stopped\<close> and \<open>Paused\<close> included, the job overwrites it with \<open>HumanRequired\<close>, which the
  observation loop observes again.\<close>

theorem failed_job_overrides_lifecycle:
  assumes "bt_get (reg_watchers (dm_registry (lock h d))) (watcher_id current) = Some v" "ws_revision v < - 1"
    and "js_faults (reg_store (dm_registry (lock h d))) = []"
  shows "\<exists>v'. bt_get (reg_watchers (dm_registry (job_failed h current label err d))) (watcher_id current) = Some v' \<and>
    ws_lifecycle v' = watcher_lifecycle.HumanRequired (''recovery action requires review: '' @ txn_error_display err)"
proof -
  obtain d0 where d0: "dm_registry (lock h d0) = dm_registry (lock h d)" and
    job: "job_failed h current label err d = snd (locked_transition h (watcher_id current)
      (watcher_lifecycle.HumanRequired (''recovery action requires review: '' @ txn_error_display err)) d0)"
    using lock_decision unfolding job_failed_def Let_def by blast
  obtain now d1 where d1: "on_host (ho_now_ms h) (lock h d0) = (now, d1)" by fastforce
  have "dm_registry d1 = dm_registry (lock h d)" using on_host_registry [OF d1] d0 by simp
  then show ?thesis
    using transition_applies [OF assms] unfolding job locked_transition_def d1
    by (simp add: on_registry_def case_prod_unfold)
qed

section \<open>A job that fails\<close>

text \<open>A pane whose client answers nothing, and a user who stops the watcher as soon as something was typed.\<close>

definition stopped_host :: "string list host" where
  "stopped_host = job_host\<lparr>
     ho_others := \<lambda>s. (if s = [] then [] else [OpTransition ''w'' (watcher_lifecycle.Stopped ''user'') 6], s),
     ho_adapter := \<lambda>_ _. Inr (job_mux\<lparr>mux_submit_literal := \<lambda>i t w. (Inl Timeout, w @ [t])\<rparr>)\<rparr>"

definition failed_daemon :: "string list daemon" where
  "failed_daemon = job_daemon\<lparr>dm_host := [''continue'']\<rparr>"

lemma stopped_run:
  "map_option (\<lambda>d. map_option ws_lifecycle (bt_get (reg_watchers (dm_registry d)) ''w''))
     (recovery_job stopped_host (\<lambda>_. Some example_submit) example_owner job_watcher job_daemon) =
   Some (Some (watcher_lifecycle.HumanRequired
     ''recovery action requires review: action outcome is uncertain: tmux command timed out''))"
  by code_simp

lemma stopped_lock:
  "map_option ws_lifecycle (bt_get (reg_watchers (dm_registry (lock stopped_host failed_daemon))) ''w'') =
     Some (watcher_lifecycle.Stopped ''user'')"
  "map_option ws_revision (bt_get (reg_watchers (dm_registry (lock stopped_host failed_daemon))) ''w'') = Some 1"
  "js_faults (reg_store (dm_registry (lock stopped_host failed_daemon))) = []"
  by code_simp+

theorem failed_job_overrides_lifecycle_witness:
  "map_option ws_lifecycle (bt_get (reg_watchers (dm_registry (lock stopped_host failed_daemon))) ''w'') =
     Some (watcher_lifecycle.Stopped ''user'') \<and>
   map_option ws_lifecycle (bt_get (reg_watchers (dm_registry
     (job_failed stopped_host job_watcher ''SUBMIT_TEXT'' (UncertainOutcome ''timed out'') failed_daemon))) ''w'') =
     Some (watcher_lifecycle.HumanRequired
       ''recovery action requires review: action outcome is uncertain: timed out'')"
proof -
  have id: "watcher_id job_watcher = ''w''" by (simp add: job_watcher_def watcher_state_new_def)
  obtain v where v: "bt_get (reg_watchers (dm_registry (lock stopped_host failed_daemon))) ''w'' = Some v"
      "ws_revision v = 1" using stopped_lock(2) by auto
  have "ws_revision v < - 1" by (simp add: v(2) word_less_nat_alt unat_max_word)
  from failed_job_overrides_lifecycle [of stopped_host failed_daemon job_watcher v "''SUBMIT_TEXT''"
      "UncertainOutcome ''timed out''", unfolded id, OF v(1) this stopped_lock(3)] stopped_lock(1)
  show ?thesis by auto
qed

text \<open>The job whose client answers nothing, in its three steps.\<close>

definition failing_start :: "dispatch_snapshot option \<times> string list daemon" where
  "failing_start = begin_dispatch stopped_host job_watcher ''fedcba9876543210'' ''SUBMIT_TEXT'' job_daemon"

lemma failing_job:
  "(case failing_start of
      (Some snap, d1) \<Rightarrow> (case engine_execute (executor_env stopped_host snap) (\<lambda>_. Some example_submit)
          (ds_watcher snap) example_owner d1 of
        Some (Inl err, d2) \<Rightarrow> True
      | _ \<Rightarrow> False)
    | _ \<Rightarrow> False) = True"
  by code_simp

theorem failed_action_strands_watcher_witness:
  "\<exists>snap d1 err d2. failing_start = (Some snap, d1) \<and>
     engine_execute (executor_env stopped_host snap) (\<lambda>_. Some example_submit) (ds_watcher snap) example_owner d1 =
       Some (Inl err, d2) \<and>
     \<not> is_ok (fst (coordinator_begin_action ''w'' ''fedcba9876543210'' \<lparr>monotonic_seconds = 900, wall_seconds = 900\<rparr> 9
       (registry_run [OpTransition ''w'' watcher_lifecycle.Observing 7, OpWake ''w'' ''0123456789abcdef'' 8]
         (dm_registry (job_outcome stopped_host (ds_watcher snap) ''fedcba9876543210'' ''SUBMIT_TEXT'' (Inl err) d2)))))"
proof -
  obtain snap d1 err d2 where run: "failing_start = (Some snap, d1)"
      "engine_execute (executor_env stopped_host snap) (\<lambda>_. Some example_submit) (ds_watcher snap) example_owner d1 =
         Some (Inl err, d2)"
    using failing_job by (auto split: prod.splits option.splits sum.splits)
  have id: "watcher_id job_watcher = ''w''" by (simp add: job_watcher_def watcher_state_new_def)
  have others: "\<forall>s. \<forall>x \<in> set (fst (ho_others stopped_host s)). keeps_machine ''w'' x"
    by (simp add: stopped_host_def)
  have xs: "\<forall>x \<in> set [OpTransition ''w'' watcher_lifecycle.Observing 7, OpWake ''w'' ''0123456789abcdef'' 8].
      keeps_machine ''w'' x" by simp
  from failed_action_strands_watcher [OF run(1) [unfolded failing_start_def] run(2) refl, unfolded id, OF others xs]
    run show ?thesis by blast
qed

end
