(* ===== verification/Observation_Loop.thy ===== *)
theory Observation_Loop
  imports Recovery_Job
begin

text \<open>
  The observation loop and the owner of its recovery jobs (\<open>src/src/daemon/recovery_jobs.rs\<close>): which watchers
  are due at a tick, how an observation is debounced, committed and followed by a job, and how the
  supervisor accepts jobs and drains them at shutdown. The observer is a parameter, as it is in the code.
\<close>

section \<open>Intervals\<close>

definition recovery_observation_interval_ms :: "watcher_state \<Rightarrow> u64" where
  "recovery_observation_interval_ms w =
     (case ws_recovery w of
        Some m \<Rightarrow> if rm_state m = recovery_state.Acting then 1000 else 60000
      | None \<Rightarrow> 60000)"

definition observation_jitter_seconds :: "string \<Rightarrow> u64 \<Rightarrow> int" where
  "observation_jitter_seconds wid sequence =
     uint (foldl (\<lambda>acc byte. acc * 109 + of_nat (of_char byte)) sequence wid mod 11) - 5"

fun observable :: "watcher_lifecycle \<Rightarrow> bool" where
  "observable Paused = False"
| "observable (watcher_lifecycle.Stopped _) = False"
| "observable TargetTerminated = False"
| "observable _ = True"

section \<open>A tick\<close>

definition next_interval :: "watcher_state \<Rightarrow> u64 \<Rightarrow> u64" where
  "next_interval w sequence =
     (let interval = recovery_observation_interval_ms w in
      if interval < 60000 then interval
      else word_of_int (max (60000 + observation_jitter_seconds (watcher_id w) sequence * 1000) 1))"

definition due_at :: "u64 \<Rightarrow> u64 \<Rightarrow> watcher_state \<Rightarrow> u64 btree \<Rightarrow> u64" where
  "due_at now ticks w due =
     min (case bt_get due (watcher_id w) of
            Some t \<Rightarrow> t
          | None \<Rightarrow> sat_add ticks (min (sat_sub (next_due_wall_ms (ws_observation_schedule w)) now) 65000))
       (sat_add ticks (recovery_observation_interval_ms w))"

definition checked_schedule :: "u64 \<Rightarrow> watcher_state \<Rightarrow> observation_schedule" where
  "checked_schedule now w =
     (let s = ws_observation_schedule w; sequence = sat_add (interval_sequence s) 1 in
      s\<lparr>last_check_wall_ms := Some now, interval_sequence := sequence,
        next_due_wall_ms := sat_add now (next_interval w sequence)\<rparr>)"

definition watcher_due ::
  "u64 \<Rightarrow> u64 \<Rightarrow> watcher_state \<Rightarrow> u64 btree \<Rightarrow> (watcher_state \<times> observation_schedule) option \<times> u64 btree" where
  "watcher_due now ticks w due =
     (if \<not> observable (ws_lifecycle w) then (None, due)
      else let t = due_at now ticks w due in
        if event_wake_pending (ws_observation_schedule w) \<or> t \<le> ticks
        then let s = checked_schedule now w in
          (Some (w, s), bt_insert (watcher_id w) (sat_add ticks (next_interval w (interval_sequence s))) due)
        else (None, bt_insert (watcher_id w) t due))"

fun due_pass ::
  "u64 \<Rightarrow> u64 \<Rightarrow> watcher_state list \<Rightarrow> u64 btree \<Rightarrow> (watcher_state \<times> observation_schedule) list \<times> u64 btree" where
  "due_pass now ticks [] due = ([], due)"
| "due_pass now ticks (w # ws) due =
     (case watcher_due now ticks w due of (found, due1) \<Rightarrow>
      case due_pass now ticks ws due1 of (rest, due2) \<Rightarrow> ((case found of None \<Rightarrow> rest | Some x \<Rightarrow> x # rest), due2))"

section \<open>Committing\<close>

record observation_result =
  or_event :: "event option"
  or_herdr_after_sequence :: "u64 option"

definition debounce :: "event \<Rightarrow> observation_schedule \<Rightarrow> observation_schedule" where
  "debounce e s =
     (if src_kind (ev_source e) \<noteq> ScreenDetection then s
      else if \<not> is_actionable (ev_category e) then s\<lparr>screen_fingerprint := None, screen_stable_count := 0\<rparr>
      else if screen_fingerprint s = Some (evidence_fingerprint e)
      then s\<lparr>screen_stable_count := sat_add (screen_stable_count s) 1\<rparr>
      else s\<lparr>screen_fingerprint := Some (evidence_fingerprint e), screen_stable_count := 1\<rparr>)"

definition observed_schedule :: "observation_result \<Rightarrow> observation_schedule \<Rightarrow> observation_schedule" where
  "observed_schedule res s =
     (let s1 = (case or_herdr_after_sequence res of None \<Rightarrow> s | Some n \<Rightarrow> s\<lparr>herdr_after_sequence := n\<rparr>) in
      case or_event res of None \<Rightarrow> s1 | Some e \<Rightarrow> debounce e s1)"

section \<open>The supervisor\<close>

text \<open>A job is known by its watcher and by whether it has finished.\<close>

record supervisor =
  sv_accepting :: bool
  sv_cancellation :: bool
  sv_jobs :: "(string \<times> bool) list"

definition supervisor_new :: supervisor where
  "supervisor_new = \<lparr>sv_accepting = True, sv_cancellation = False, sv_jobs = []\<rparr>"

definition supervisor_schedule :: "string \<Rightarrow> supervisor \<Rightarrow> bool \<times> supervisor" where
  "supervisor_schedule wid s =
     (if \<not> sv_accepting s then (False, s)
      else (True, s\<lparr>sv_jobs := filter (\<lambda>(_, finished). \<not> finished) (sv_jobs s) @ [(wid, False)]\<rparr>))"

definition begin_shutdown :: "supervisor \<Rightarrow> supervisor" where
  "begin_shutdown s = s\<lparr>sv_accepting := False, sv_cancellation := True\<rparr>"

text \<open>Each job in turn: one that does not end within the grace is handed to a human, then awaited. Whether it
  ends in time is the host's business.\<close>

fun drain_jobs ::
  "'h host \<Rightarrow> (string \<Rightarrow> 'h \<Rightarrow> bool \<times> 'h) \<Rightarrow> (string \<times> bool) list \<Rightarrow> 'h daemon \<Rightarrow> 'h daemon" where
  "drain_jobs h ends [] d = d"
| "drain_jobs h ends ((wid, finished) # jobs) d =
     (case (if finished then (True, d) else on_host (ends wid) d) of (in_grace, d1) \<Rightarrow>
      drain_jobs h ends jobs
       (if in_grace then d1
        else snd (locked_transition h wid
               (watcher_lifecycle.HumanRequired ''recovery cancellation exceeded shutdown grace'') d1)))"

definition wait_for_terminal_jobs ::
  "'h host \<Rightarrow> (string \<Rightarrow> 'h \<Rightarrow> bool \<times> 'h) \<Rightarrow> supervisor \<Rightarrow> 'h daemon \<Rightarrow> 'h daemon \<times> supervisor" where
  "wait_for_terminal_jobs h ends s d =
     (let s1 = begin_shutdown s in (drain_jobs h ends (sv_jobs s1) d, s1\<lparr>sv_jobs := []\<rparr>))"

section \<open>The loop\<close>

text \<open>A committed observation: the watcher for the job the supervisor accepted, if any.\<close>

definition commit_and_schedule ::
  "'h host \<Rightarrow> bool \<Rightarrow> watcher_state \<Rightarrow> observation_schedule \<Rightarrow> observation_result \<Rightarrow> supervisor \<times> 'h daemon
     \<Rightarrow> watcher_state option \<times> supervisor \<times> 'h daemon" where
  "commit_and_schedule h recovering w s res st =
     (case st of (sv, d) \<Rightarrow>
      case on_host (ho_now_ms h) (lock h d) of (now, d1) \<Rightarrow>
      case on_registry (commit_observation (watcher_id w) (observed_schedule res s) (or_event res) now) d1 of
        (Inl _, d2) \<Rightarrow> (None, sv, d2)
      | (Inr _, d2) \<Rightarrow>
          (case (if recovering then bt_get (reg_watchers (dm_registry d2)) (watcher_id w) else None) of
             None \<Rightarrow> (None, sv, d2)
           | Some current \<Rightarrow>
               (case supervisor_schedule (watcher_id current) sv of (accepted, sv1) \<Rightarrow>
                  (if accepted then Some current else None, sv1, d2))))"

text \<open>The body of the loop for each watcher that is due; \<open>observe\<close> includes its timeout, which is an error.\<close>

fun observe_due ::
  "'h host \<Rightarrow> bool \<Rightarrow> (watcher_state \<Rightarrow> 'h \<Rightarrow> (string, observation_result) result \<times> 'h)
     \<Rightarrow> (watcher_state \<times> observation_schedule) list \<Rightarrow> supervisor \<times> 'h daemon
     \<Rightarrow> watcher_state list \<times> supervisor \<times> 'h daemon" where
  "observe_due h recovering observe [] st = ([], st)"
| "observe_due h recovering observe ((w, s) # due) (sv, d) =
     (case on_host (observe w) d of
        (Inl _, d1) \<Rightarrow> observe_due h recovering observe due (sv, d1)
      | (Inr res, d1) \<Rightarrow>
          (case commit_and_schedule h recovering w s res (sv, d1) of (job, st1) \<Rightarrow>
           case observe_due h recovering observe due st1 of (jobs, st2) \<Rightarrow>
             ((case job of None \<Rightarrow> jobs | Some current \<Rightarrow> current # jobs), st2)))"

definition observation_tick ::
  "'h host \<Rightarrow> bool \<Rightarrow> (watcher_state \<Rightarrow> 'h \<Rightarrow> (string, observation_result) result \<times> 'h)
     \<Rightarrow> u64 btree \<times> supervisor \<times> 'h daemon \<Rightarrow> watcher_state list \<times> u64 btree \<times> supervisor \<times> 'h daemon" where
  "observation_tick h recovering observe st =
     (case st of (due, sv, d) \<Rightarrow>
      case on_host (ho_now_ms h) d of (now, d1) \<Rightarrow>
      case on_host (ho_observation_ms h) d1 of (ticks, d2) \<Rightarrow>
      let d3 = lock h d2 in
      case due_pass now ticks (bt_values (reg_watchers (dm_registry d3))) due of (found, due1) \<Rightarrow>
      case observe_due h recovering observe found (sv, d3) of (jobs, sv1, d4) \<Rightarrow> (jobs, due1, sv1, d4))"

section \<open>Cadence\<close>

lemma jitter_range: "- 5 \<le> observation_jitter_seconds wid n" "observation_jitter_seconds wid n \<le> 5"
proof -
  let ?x = "foldl (\<lambda>acc byte. acc * 109 + of_nat (of_char byte)) n wid :: u64"
  have "uint (?x mod 11) = uint ?x mod 11" by (simp add: uint_mod)
  moreover have "0 \<le> uint ?x mod 11" "uint ?x mod 11 < 11" by simp_all
  ultimately show "- 5 \<le> observation_jitter_seconds wid n" "observation_jitter_seconds wid n \<le> 5"
    unfolding observation_jitter_seconds_def by linarith+
qed

lemma interval_cases: "recovery_observation_interval_ms w = 1000 \<or> recovery_observation_interval_ms w = 60000"
  by (simp add: recovery_observation_interval_ms_def split: option.split)

lemma interval_le: "unat (recovery_observation_interval_ms w) \<le> 60000"
  using interval_cases [of w] by auto

lemma due_at_le: "unat (due_at now ticks w due) \<le> unat ticks + 60000"
  using interval_le [of w] unat_sat_add [of ticks "recovery_observation_interval_ms w"]
  by (auto simp: due_at_def min_def word_le_nat_alt)

lemma due_at_entry: "bt_get due (watcher_id w) = Some t \<Longrightarrow> due_at now ticks w due \<le> t"
  by (simp add: due_at_def)

lemma watcher_due_other:
  "wid \<noteq> watcher_id w \<Longrightarrow> bt_get (snd (watcher_due now ticks w due)) wid = bt_get due wid"
  by (auto simp: watcher_due_def Let_def bt.get_put)

lemma due_pass_other:
  "wid \<notin> set (map watcher_id ws) \<Longrightarrow> bt_get (snd (due_pass now ticks ws due)) wid = bt_get due wid"
  by (induction ws arbitrary: due) (auto simp: watcher_due_other case_prod_unfold split: prod.split)

text \<open>One pass over the watchers, seen from one of them.\<close>

lemma due_pass_watcher:
  assumes "distinct (map watcher_id ws)" "w \<in> set ws" "observable (ws_lifecycle w)"
    and "w \<notin> fst ` set (fst (due_pass now ticks ws due))"
  shows "due_at now ticks w due > ticks \<and>
    bt_get (snd (due_pass now ticks ws due)) (watcher_id w) = Some (due_at now ticks w due)"
  using assms
proof (induction ws arbitrary: due)
  case (Cons v ws)
  obtain found due1 where v: "watcher_due now ticks v due = (found, due1)" by fastforce
  obtain rest due2 where ws: "due_pass now ticks ws due1 = (rest, due2)" by fastforce
  have notin: "w \<notin> fst ` set rest" "found \<noteq> None \<Longrightarrow> fst (the found) \<noteq> w"
    using Cons.prems(4) v ws by (auto split: option.splits)
  show ?case
  proof (cases "v = w")
    case True
    then have "watcher_id w \<notin> set (map watcher_id ws)" using Cons.prems(1) by simp
    from due_pass_other [OF this, of now ticks due1] have "bt_get due2 (watcher_id w) = bt_get due1 (watcher_id w)"
      by (simp add: ws)
    with v ws True Cons.prems(3) notin(2) show ?thesis
      by (auto simp: watcher_due_def Let_def bt.get_put split: if_splits)
  next
    case False
    then have w: "w \<in> set ws" using Cons.prems(2) by simp
    then have "watcher_id w \<noteq> watcher_id v" using Cons.prems(1) by (metis distinct.simps(2) image_eqI list.simps(9) set_map)
    then have same: "due_at now ticks w due1 = due_at now ticks w due"
      using watcher_due_other [of "watcher_id w" v now ticks due] v by (simp add: due_at_def)
    from Cons.IH [of due1] Cons.prems w notin(1) ws same v show ?thesis by simp
  qed
qed simp

text \<open>A sequence of ticks, each with its clocks and the watchers it found in the registry.\<close>

type_synonym tick = "u64 \<times> u64 \<times> watcher_state list"

fun ticks_due :: "tick list \<Rightarrow> u64 btree \<Rightarrow> watcher_state list" where
  "ticks_due [] due = []"
| "ticks_due ((now, ticks, ws) # ts) due =
     (case due_pass now ticks ws due of (found, due1) \<Rightarrow> map fst found @ ticks_due ts due1)"

definition listed :: "string \<Rightarrow> tick \<Rightarrow> bool" where
  "listed wid t \<longleftrightarrow> (case t of (now, ticks, ws) \<Rightarrow>
     distinct (map watcher_id ws) \<and> (\<exists>w \<in> set ws. watcher_id w = wid \<and> observable (ws_lifecycle w)))"

lemma ticks_due_entry:
  assumes "\<forall>t \<in> set (ts @ [(now, ticks, ws)]). listed wid t" "bt_get due wid = Some e" "e \<le> ticks"
  shows "wid \<in> watcher_id ` set (ticks_due (ts @ [(now, ticks, ws)]) due)"
  using assms
proof (induction ts arbitrary: due e)
  case Nil
  then obtain w where w: "w \<in> set ws" "watcher_id w = wid" "observable (ws_lifecycle w)" "distinct (map watcher_id ws)"
    by (auto simp: listed_def)
  have "w \<in> fst ` set (fst (due_pass now ticks ws due))"
  proof (rule ccontr)
    assume "w \<notin> fst ` set (fst (due_pass now ticks ws due))"
    with due_pass_watcher [OF w(4,1,3)] have "ticks < due_at now ticks w due" by blast
    with due_at_entry [of due w e now ticks] Nil(2,3) w(2) show False by auto
  qed
  with w(2) show ?case by (force simp: case_prod_unfold)
next
  case (Cons t ts)
  obtain n k vs where t: "t = (n, k, vs)" by (metis prod_cases3)
  from Cons.prems t obtain w where w: "w \<in> set vs" "watcher_id w = wid" "observable (ws_lifecycle w)"
      "distinct (map watcher_id vs)" by (auto simp: listed_def)
  show ?case
  proof (cases "w \<in> fst ` set (fst (due_pass n k vs due))")
    case True
    with t w(2) show ?thesis by (force simp: case_prod_unfold)
  next
    case False
    from due_pass_watcher [OF w(4,1,3) this] w(2)
    have get: "bt_get (snd (due_pass n k vs due)) wid = Some (due_at n k w due)" by simp
    have "due_at n k w due \<le> ticks" using due_at_entry [of due w e n k] Cons.prems(2,3) w(2) by simp
    with Cons.IH [OF _ get] Cons.prems(1) t show ?thesis by (auto simp: case_prod_unfold)
  qed
qed

text \<open>C8: No watcher starves: over any run of the observation loop, a watcher that is neither paused, stopped nor
  terminated is observed at least once between any two ticks whose monotonic times are sixty seconds or more
  apart, whatever its schedule says and whatever happens to it and to the wall clock in between. In
  particular a jitter of more than one tick never lengthens the interval.\<close>

theorem observation_never_starves:
  assumes "\<forall>t \<in> set ((now, first, ws) # ts @ [(now', latest, ws')]). listed wid t"
    and "unat first + 60000 \<le> unat latest"
  shows "wid \<in> watcher_id ` set (ticks_due ((now, first, ws) # ts @ [(now', latest, ws')]) due)"
proof -
  from assms(1) obtain w where w: "w \<in> set ws" "watcher_id w = wid" "observable (ws_lifecycle w)"
      "distinct (map watcher_id ws)" by (auto simp: listed_def)
  show ?thesis
  proof (cases "w \<in> fst ` set (fst (due_pass now first ws due))")
    case True
    with w(2) show ?thesis by (force simp: case_prod_unfold)
  next
    case False
    from due_pass_watcher [OF w(4,1,3) this] w(2)
    have get: "bt_get (snd (due_pass now first ws due)) wid = Some (due_at now first w due)" by simp
    have "due_at now first w due \<le> latest" using due_at_le [of now first w due] assms(2) by (simp add: word_le_nat_alt)
    from ticks_due_entry [OF _ get this, of ts now' ws'] assms(1) show ?thesis by (auto simp: case_prod_unfold)
  qed
qed

theorem observation_never_starves_witness:
  "''w'' \<in> watcher_id ` set (ticks_due [(5, 0, [job_watcher]), (7, 30000, [job_watcher]), (9, 60000, [job_watcher])]
     [(''w'', 65000)])"
proof -
  have "listed ''w'' (n, k, [job_watcher])" for n k
    by (simp add: listed_def job_watcher_def watcher_state_new_def)
  then show ?thesis
    using observation_never_starves [of 5 0 "[job_watcher]" "[(7, 30000, [job_watcher])]" 9 60000 "[job_watcher]" "''w''"
        "[(''w'', 65000)]"] by simp
qed

section \<open>Committed observations\<close>

lemma update_stored:
  assumes "update_watcher wid change now r = (Inr x, r')"
  obtains w w1 where "bt_get (reg_watchers r) wid = Some w" "change w = Inr (w1, x)"
    "\<exists>rv. bt_get (reg_watchers r') wid = Some (w1\<lparr>ws_revision := rv, updated_at_unix_ms := now\<rparr>)"
  using assms
proof (cases rule: update_watcher_cases)
  case (stored w w1 y rv)
  then show thesis by (intro that [of w w1]) (auto simp: wrote_def bt.get_put)
qed auto

lemma commit_stored:
  assumes "commit_observation wid s ev now r = (Inr x, r')"
  obtains w w1 w2 where "bt_get (reg_watchers r) wid = Some w" "observed_watcher s ev now w = Inr w1"
    "bt_get (reg_watchers r') wid = Some w2" "ws_recovery w2 = ws_recovery w1"
    "ws_observation_schedule w2 = ws_observation_schedule w1"
  using assms unfolding commit_observation_def
  by (elim update_stored) (auto simp: result_simps intro: that)

lemma observed_schedule_stored:
  "observed_watcher s ev now w = Inr w1 \<Longrightarrow> ws_observation_schedule w1 = complete_wake now s"
  by (auto simp: observed_watcher_def Let_def result_simps split: option.splits)

lemma confirmed_by_stable_screen:
  assumes "observed_watcher s (Some e) now w = Inr w1" "ws_recovery w = Some m" "ws_recovery w1 = Some m1"
    and "rm_state m \<noteq> recovery_state.Confirmed" "rm_state m1 = recovery_state.Confirmed"
    and "src_kind (ev_source e) = ScreenDetection"
  shows "2 \<le> screen_stable_count s \<and> is_actionable (ev_category e)"
proof -
  obtain lc where "observe_machine e (complete_wake now s) (ws_lifecycle w, m) = Inr (lc, m1)"
    using assms(1-3) by (auto simp: observed_watcher_def Let_def result_simps)
  moreover have "screen_stable_count (complete_wake now s) = screen_stable_count s" by (simp add: complete_wake_def)
  ultimately show ?thesis
    using assms(4-6)
    by (auto simp: observe_machine_def result_simps apply_command_Inr rm_op_defs rm_step_iffs valid_edge_into
        screen_is_stable_def rearms_def split: if_splits)
qed

text \<open>C16: A screen is acted on only after it was seen twice: when the loop commits an observation read from the
  screen and the recovery machine becomes \<open>Confirmed\<close>, then the schedule the loop worked from
  already carried the fingerprint of the very same screen.\<close>

theorem screen_recovery_needs_two_sightings:
  assumes "commit_observation wid (observed_schedule res s) (Some e) now r = (Inr x, r')" "or_event res = Some e"
    and "src_kind (ev_source e) = ScreenDetection"
    and "bt_get (reg_watchers r) wid = Some w" "ws_recovery w = Some m" "rm_state m \<noteq> recovery_state.Confirmed"
    and "bt_get (reg_watchers r') wid = Some w'" "ws_recovery w' = Some m'" "rm_state m' = recovery_state.Confirmed"
  shows "screen_fingerprint s = Some (evidence_fingerprint e) \<and> 0 < screen_stable_count s"
proof -
  obtain w1 where w1: "observed_watcher (observed_schedule res s) (Some e) now w = Inr w1" "ws_recovery w1 = Some m'"
    using assms(1) by (rule commit_stored) (use assms(4,7,8) in auto)
  have two: "2 \<le> screen_stable_count (observed_schedule res s)" "is_actionable (ev_category e)"
    using confirmed_by_stable_screen [OF w1(1) assms(5) w1(2) assms(6,9,3)] by auto
  define s1 where "s1 = (case or_herdr_after_sequence res of None \<Rightarrow> s | Some n \<Rightarrow> s\<lparr>herdr_after_sequence := n\<rparr>)"
  have s1: "screen_fingerprint s1 = screen_fingerprint s" "screen_stable_count s1 = screen_stable_count s"
    by (simp_all add: s1_def split: option.split)
  have sch: "observed_schedule res s = debounce e s1" by (simp add: observed_schedule_def s1_def assms(2))
  have fp: "screen_fingerprint s1 = Some (evidence_fingerprint e)"
    using two assms(3) by (auto simp: sch debounce_def word_le_nat_alt split: if_splits)
  then have "2 \<le> unat (sat_add (screen_stable_count s1) 1)"
    using two assms(3) by (simp add: sch debounce_def word_le_nat_alt)
  then have "0 < unat (screen_stable_count s1)" by (auto simp: unat_sat_add)
  with fp s1 show ?thesis by (simp add: word_less_nat_alt)
qed

definition screen_event :: event where
  "screen_event = example_event\<lparr>ev_source := event_source_new ScreenDetection ''claude'' ''menu'', ev_category := UsageLimit\<rparr>"

definition seen_once :: observation_schedule where
  "seen_once = observation_schedule_default
     \<lparr>screen_fingerprint := Some (evidence_fingerprint screen_event), screen_stable_count := 1\<rparr>"

definition observing_registry :: registry where
  "observing_registry = example_registry\<lparr>reg_watchers := [(''w'', job_watcher\<lparr>ws_recovery := Some (rm_run
     [recovery_command.Revalidated] (rm_new \<lparr>max_attempts = 3, max_cumulative_wait = 0, budget_planner_calls = 0, cooldown = 0\<rparr>))\<rparr>)]\<rparr>"

definition machine_state :: "registry \<Rightarrow> recovery_state option" where
  "machine_state r = Option.bind (bt_get (reg_watchers r) ''w'') (\<lambda>w. map_option rm_state (ws_recovery w))"

definition screen_result :: observation_result where
  "screen_result = \<lparr>or_event = Some screen_event, or_herdr_after_sequence = None\<rparr>"

lemma screen_commit:
  "fst (commit_observation ''w'' (observed_schedule screen_result seen_once) (Some screen_event) 5 observing_registry) = Inr ()"
  "machine_state (snd (commit_observation ''w'' (observed_schedule screen_result seen_once) (Some screen_event) 5
     observing_registry)) = Some recovery_state.Confirmed"
  "machine_state observing_registry = Some recovery_state.Observing"
  by code_simp+

theorem screen_recovery_needs_two_sightings_witness:
  "machine_state (snd (commit_observation ''w'' (observed_schedule screen_result seen_once) (Some screen_event) 5
     observing_registry)) = Some recovery_state.Confirmed \<and>
   screen_fingerprint seen_once = Some (evidence_fingerprint screen_event) \<and> 0 < screen_stable_count seen_once"
proof -
  obtain r' where run: "commit_observation ''w'' (observed_schedule screen_result seen_once) (Some screen_event) 5
      observing_registry = (Inr (), r')" using screen_commit(1) by (metis prod.collapse)
  have src: "or_event screen_result = Some screen_event" "src_kind (ev_source screen_event) = ScreenDetection"
    by (simp_all add: screen_result_def screen_event_def event_source_new_def)
  obtain w m where "bt_get (reg_watchers observing_registry) ''w'' = Some w" "ws_recovery w = Some m"
      "rm_state m \<noteq> recovery_state.Confirmed"
    using screen_commit(3) by (auto simp: machine_state_def bind_eq_Some_conv)
  moreover obtain w' m' where "bt_get (reg_watchers r') ''w'' = Some w'" "ws_recovery w' = Some m'"
      "rm_state m' = recovery_state.Confirmed"
    using screen_commit(2) run by (auto simp: machine_state_def bind_eq_Some_conv)
  ultimately show ?thesis
    using screen_recovery_needs_two_sightings [OF run src] screen_commit(2) by blast
qed

text \<open>A wake-up that is accepted for a watcher with no wake pending is stored, and makes the watcher due at once.\<close>

lemma wake_stored:
  assumes "wake_observation wid fp t r = (Inr (), r1)" "bt_get (reg_watchers r) wid = Some w"
    and "\<not> event_wake_pending (ws_observation_schedule w)"
    and "last_wake_fingerprint (ws_observation_schedule w) \<noteq> Some fp" "observable (ws_lifecycle w)"
  shows "\<exists>v. bt_get (reg_watchers r1) wid = Some v \<and> event_wake_pending (ws_observation_schedule v) \<and>
    last_wake_fingerprint (ws_observation_schedule v) = Some fp \<and>
    (\<forall>now ticks due. fst (watcher_due now ticks v due) \<noteq> None)"
proof -
  have "persist_observation_schedule wid
      ((ws_observation_schedule w)\<lparr>event_wake_pending := True, last_wake_fingerprint := Some fp\<rparr>) t r = (Inr (), r1)"
    using assms(1-4) by (auto simp: wake_observation_def Let_def duplicate_in_cooldown_def split: if_splits)
  then show ?thesis
    unfolding persist_observation_schedule_def change_watcher_def
    by (rule update_stored) (use assms(2,5) in \<open>auto simp: watcher_due_def Let_def\<close>)
qed

lemma checked_schedule_wakes:
  "event_wake_pending (checked_schedule now w) = event_wake_pending (ws_observation_schedule w)"
  "last_wake_fingerprint (checked_schedule now w) = last_wake_fingerprint (ws_observation_schedule w)"
  "last_wake_completed_wall_ms (checked_schedule now w) = last_wake_completed_wall_ms (ws_observation_schedule w)"
  by (simp_all add: checked_schedule_def Let_def)

lemma observed_schedule_wakes:
  "event_wake_pending (observed_schedule res s) = event_wake_pending s"
  "last_wake_fingerprint (observed_schedule res s) = last_wake_fingerprint s"
  "last_wake_completed_wall_ms (observed_schedule res s) = last_wake_completed_wall_ms s"
  by (simp_all add: observed_schedule_def debounce_def Let_def split: option.split)

lemma commit_and_schedule_stored:
  assumes "commit_and_schedule h True w s res (sv, d) = (Some current, sv', d')"
  shows "\<exists>now v. bt_get (reg_watchers (dm_registry d')) (watcher_id w) = Some v \<and>
    ws_observation_schedule v = complete_wake now (observed_schedule res s)"
proof -
  obtain now d1 where d1: "on_host (ho_now_ms h) (lock h d) = (now, d1)" by fastforce
  obtain x d2 where d2: "on_registry (commit_observation (watcher_id w) (observed_schedule res s) (or_event res) now) d1 = (x, d2)"
    by fastforce
  have "x = Inr ()" "d' = d2"
    using assms d1 d2 by (auto simp: commit_and_schedule_def split: sum.splits option.splits prod.splits)
  with d2 have "commit_observation (watcher_id w) (observed_schedule res s) (or_event res) now (dm_registry d1) =
      (Inr (), dm_registry d')"
    by (auto simp: on_registry_def split: prod.splits)
  then show ?thesis by (rule commit_stored) (auto dest!: observed_schedule_stored)
qed

text \<open>C40: A wake-up that arrives while a watcher is being observed is lost. The loop finds the watcher due, with no
  wake pending, and observes it; meanwhile another task delivers a new wake-up, which the registry accepts and
  stores: with it the watcher is due at every tick. Then the loop commits the schedule it copied before the
  observation: the wake is no longer pending, its fingerprint is gone, and it was not recorded as completed.\<close>

theorem wake_during_observation_is_lost:
  assumes "bt_get (reg_watchers (dm_registry d)) (watcher_id w) = Some w"
    and "watcher_due now ticks w due = (Some (w, s), due1)"
    and "\<not> event_wake_pending (ws_observation_schedule w)"
    and "last_wake_fingerprint (ws_observation_schedule w) \<noteq> Some fp"
    and "on_host (observe w) d = (Inr res, d1)"
    and "ho_others h (dm_host d1) = ([OpWake (watcher_id w) fp t], hs)"
    and "wake_observation (watcher_id w) fp t (dm_registry d1) = (Inr (), r1)"
    and "commit_and_schedule h True w s res (sv, d1) = (Some current, sv', d2)"
  shows "dm_registry (lock h d1) = r1 \<and>
    (\<exists>v. bt_get (reg_watchers r1) (watcher_id w) = Some v \<and> event_wake_pending (ws_observation_schedule v) \<and>
       last_wake_fingerprint (ws_observation_schedule v) = Some fp \<and>
       (\<forall>now' ticks' due'. fst (watcher_due now' ticks' v due') \<noteq> None)) \<and>
    (\<exists>v'. bt_get (reg_watchers (dm_registry d2)) (watcher_id w) = Some v' \<and>
       \<not> event_wake_pending (ws_observation_schedule v') \<and>
       last_wake_fingerprint (ws_observation_schedule v') = last_wake_fingerprint (ws_observation_schedule w) \<and>
       last_wake_completed_wall_ms (ws_observation_schedule v') = last_wake_completed_wall_ms (ws_observation_schedule w))"
proof (intro conjI)
  have due: "s = checked_schedule now w" "observable (ws_lifecycle w)"
    using assms(2) by (auto simp: watcher_due_def Let_def split: if_splits)
  have entry: "bt_get (reg_watchers (dm_registry d1)) (watcher_id w) = Some w"
    using assms(1) on_host_registry [OF assms(5)] by simp
  show "dm_registry (lock h d1) = r1" using assms(6,7) by (simp add: lock_def on_host_def)
  show "\<exists>v. bt_get (reg_watchers r1) (watcher_id w) = Some v \<and> event_wake_pending (ws_observation_schedule v) \<and>
       last_wake_fingerprint (ws_observation_schedule v) = Some fp \<and>
       (\<forall>now' ticks' due'. fst (watcher_due now' ticks' v due') \<noteq> None)"
    by (rule wake_stored [OF assms(7) entry assms(3,4) due(2)])
  show "\<exists>v'. bt_get (reg_watchers (dm_registry d2)) (watcher_id w) = Some v' \<and>
       \<not> event_wake_pending (ws_observation_schedule v') \<and>
       last_wake_fingerprint (ws_observation_schedule v') = last_wake_fingerprint (ws_observation_schedule w) \<and>
       last_wake_completed_wall_ms (ws_observation_schedule v') = last_wake_completed_wall_ms (ws_observation_schedule w)"
    using commit_and_schedule_stored [OF assms(8)] assms(3)
    by (auto simp: complete_wake_def observed_schedule_wakes checked_schedule_wakes due(1))
qed

text \<open>A wake-up for the watcher of the example, delivered during its observation.\<close>

definition woken_host :: "string list host" where
  "woken_host = job_host\<lparr>ho_others := \<lambda>s. ([OpWake ''w'' ''0123456789abcdef'' 6], s)\<rparr>"

definition quiet_result :: observation_result where
  "quiet_result = \<lparr>or_event = None, or_herdr_after_sequence = None\<rparr>"

lemma woken_commit:
  "fst (wake_observation ''w'' ''0123456789abcdef'' 6 (dm_registry job_daemon)) = Inr ()"
  "(case commit_and_schedule woken_host True job_watcher (checked_schedule 5 job_watcher) quiet_result
      (supervisor_new, job_daemon) of (job, _) \<Rightarrow> job \<noteq> None) = True"
  "event_wake_pending (ws_observation_schedule job_watcher) = False"
  "last_wake_fingerprint (ws_observation_schedule job_watcher) = None"
  by code_simp+

theorem wake_during_observation_is_lost_witness:
  "\<exists>current sv' d2 v. commit_and_schedule woken_host True job_watcher (checked_schedule 5 job_watcher) quiet_result
       (supervisor_new, job_daemon) = (Some current, sv', d2) \<and>
     bt_get (reg_watchers (dm_registry d2)) ''w'' = Some v \<and> \<not> event_wake_pending (ws_observation_schedule v) \<and>
     last_wake_fingerprint (ws_observation_schedule v) = None"
proof -
  obtain r1 where wake: "wake_observation ''w'' ''0123456789abcdef'' 6 (dm_registry job_daemon) = (Inr (), r1)"
    using woken_commit(1) by (metis prod.collapse)
  obtain current sv' d2 where run: "commit_and_schedule woken_host True job_watcher (checked_schedule 5 job_watcher)
      quiet_result (supervisor_new, job_daemon) = (Some current, sv', d2)"
    using woken_commit(2) by (auto split: prod.splits)
  have id: "watcher_id job_watcher = ''w''" by (simp add: job_watcher_def watcher_state_new_def)
  have get: "bt_get (reg_watchers (dm_registry job_daemon)) ''w'' = Some job_watcher" by (simp add: job_daemon_def)
  have due: "watcher_due 5 0 job_watcher [(''w'', 0)] = (Some (job_watcher, checked_schedule 5 job_watcher),
      snd (watcher_due 5 0 job_watcher [(''w'', 0)]))"
    by (simp add: watcher_due_def Let_def due_at_def id) (simp add: job_watcher_def watcher_state_new_def)
  have seen: "on_host ((\<lambda>_ x. (Inr quiet_result, x)) job_watcher) job_daemon = (Inr quiet_result, job_daemon)"
    by (simp add: on_host_def)
  have wakes: "ho_others woken_host (dm_host job_daemon) = ([OpWake ''w'' ''0123456789abcdef'' 6], [])"
    by (simp add: woken_host_def job_daemon_def)
  have fresh: "\<not> event_wake_pending (ws_observation_schedule job_watcher)"
      "last_wake_fingerprint (ws_observation_schedule job_watcher) \<noteq> Some ''0123456789abcdef''"
    using woken_commit(3,4) by simp_all
  from wake_during_observation_is_lost [where w = job_watcher and observe = "\<lambda>_ x. (Inr quiet_result, x)", unfolded id,
      OF get due fresh seen wakes wake run] woken_commit(4) run
  show ?thesis by auto
qed

section \<open>Shutdown\<close>

lemma refusing_commit:
  "\<not> sv_accepting sv \<Longrightarrow> commit_and_schedule h recovering w s res (sv, d) = (job, sv1, d1) \<Longrightarrow> job = None \<and> sv1 = sv"
  by (auto simp: commit_and_schedule_def supervisor_schedule_def split: prod.splits sum.splits option.splits if_splits)

lemma refusing_observe:
  "\<not> sv_accepting sv \<Longrightarrow> observe_due h recovering observe due (sv, d) = (jobs, sv1, d1) \<Longrightarrow> jobs = [] \<and> sv1 = sv"
proof (induction due arbitrary: d jobs d1)
  case (Cons x due)
  obtain w s where x: "x = (w, s)" by fastforce
  obtain o1 d2 where ob: "on_host (observe w) d = (o1, d2)" by fastforce
  show ?case
  proof (cases o1)
    case (Inl e)
    with Cons x ob show ?thesis by simp
  next
    case (Inr res)
    obtain job sv2 d3 where cs: "commit_and_schedule h recovering w s res (sv, d2) = (job, sv2, d3)"
      by (metis prod_cases3)
    with Cons.prems(1) have "job = None" "sv2 = sv" using refusing_commit by blast+
    with Cons x ob Inr cs show ?thesis by (fastforce split: prod.splits)
  qed
qed simp

text \<open>Once shutdown has begun the loop may still observe and commit, but no tick starts another recovery job,
  and every job that is still running sees the cancellation.\<close>

theorem no_job_after_shutdown:
  assumes "observation_tick h recovering observe (due, begin_shutdown sv, d) = (jobs, due', sv', d')"
  shows "jobs = [] \<and> sv_jobs sv' = sv_jobs sv \<and> sv_cancellation sv' \<and> \<not> sv_accepting sv'"
proof -
  have "\<not> sv_accepting (begin_shutdown sv)" by (simp add: begin_shutdown_def)
  from refusing_observe [OF this] assms show ?thesis
    by (fastforce simp: observation_tick_def Let_def begin_shutdown_def split: prod.splits)
qed

theorem no_job_after_shutdown_witness:
  "\<exists>due sv d. observation_tick job_host True (\<lambda>w s. (Inr \<lparr>or_event = Some example_event, or_herdr_after_sequence = None\<rparr>, s))
      ([(''w'', 0)], begin_shutdown supervisor_new, job_daemon) = ([], due, sv, d) \<and> \<not> sv_accepting sv"
proof -
  obtain jobs due sv d where run: "observation_tick job_host True
      (\<lambda>w s. (Inr \<lparr>or_event = Some example_event, or_herdr_after_sequence = None\<rparr>, s))
      ([(''w'', 0)], begin_shutdown supervisor_new, job_daemon) = (jobs, due, sv, d)" by (metis prod_cases4)
  with no_job_after_shutdown [OF run] show ?thesis by auto
qed

end
