(* ===== verification/Restart.thy ===== *)
theory Restart
  imports Recovery_Job
begin

text \<open>
  What the daemon does with unfinished actions (\<open>recover_durable_actions_after_restart\<close> and
  \<open>recover_stale_durable_actions\<close> of \<open>src/src/daemon/runtime_services.rs\<close>): a scan over the active records of the
  ledger, with an evidence reader and an executor that refuse everything. A supervised job is the stale
  scan followed by the recovery job (\<open>src/src/daemon/recovery_jobs.rs\<close>).
\<close>

section \<open>The scans\<close>

definition scan_env :: "'h host \<Rightarrow> 'h daemon txn_env" where
  "scan_env h =
     \<lparr>te_parse = ho_parse h, te_snapshot = ho_snapshot h, te_debug = ho_debug h,
      te_read = (\<lambda>d. (Inl ''recovery scan has no live evidence'', d)),
      te_read_verification = (\<lambda>_ d. (Inl ''recovery scan has no live evidence'', d)),
      te_execute = (\<lambda>_ d. (Inl (Unsafe ''recovery scan cannot execute actions''), d)),
      te_monotonic_ms = on_host (ho_monotonic_ms h), te_wall = on_host (ho_wall h),
      te_sleep = (\<lambda>n d. d\<lparr>dm_host := ho_sleep h n (dm_host d)\<rparr>),
      te_claim = (\<lambda>t r. on_ledger (claim_prepared t r)), te_append = (\<lambda>t r. on_ledger (jas_append t r)),
      te_escalate = (\<lambda>t r reason. on_ledger (escalate_uncertain t r reason)),
      te_active = (\<lambda>t d. (jas_active t (dm_store d), d))\<rparr>"

definition scan_targets :: "'h daemon \<Rightarrow> string list" where
  "scan_targets d = (case active_records (dm_store d) of Inl _ \<Rightarrow> [] | Inr rs \<Rightarrow> map ar_target rs)"

definition recover_durable_actions_after_restart :: "'h host \<Rightarrow> 'h daemon \<Rightarrow> 'h daemon" where
  "recover_durable_actions_after_restart h d =
     fold (\<lambda>t d. snd (recover_after_restart (scan_env h) t d)) (scan_targets d) d"

text \<open>\<open>DaemonOwnerProbe\<close>: the process that owns the record still runs.\<close>

definition owner_alive :: "'h host \<Rightarrow> 'h daemon \<Rightarrow> owner_identity \<Rightarrow> bool" where
  "owner_alive h d o' =
     (case fst (ho_inspect h (owner_pid o') (dm_host d)) of
        Inr actual \<Rightarrow> pr_start_time actual = owner_start_time o' | Inl _ \<Rightarrow> False)"

definition recover_stale_durable_actions :: "'h host \<Rightarrow> 'h daemon \<Rightarrow> 'h daemon" where
  "recover_stale_durable_actions h d =
     fold (\<lambda>t d. snd (recover_stale (scan_env h) (owner_alive h d) t d)) (scan_targets d) d"

definition supervised_job ::
  "'h host \<Rightarrow> (watcher_state \<Rightarrow> action option) \<Rightarrow> owner_identity \<Rightarrow> watcher_state \<Rightarrow> 'h daemon \<Rightarrow> 'h daemon option" where
  "supervised_job h recipes owner w d = recovery_job h recipes owner w (recover_stale_durable_actions h d)"

section \<open>A scan settles everything\<close>

text \<open>The file can be written and every record is filed under its own target.\<close>

definition scannable :: "json_action_store \<Rightarrow> bool" where
  "scannable s \<longleftrightarrow> \<not> jas_poisoned s \<and> js_healthy (jas_store s) \<and>
     (\<forall>t r. ledger_active s t = Some r \<longrightarrow> ar_target r = t)"

lemma recovery_record_fields [simp]:
  "idempotency_key (recovery_record p q r) = idempotency_key r" "ar_action_id (recovery_record p q r) = ar_action_id r"
  "is_terminal (ar_phase (recovery_record p q r))"
  by (simp_all add: recovery_record_def record_next_def)

lemma append_closes:
  assumes "scannable s" "ledger_active s t = Some r"
  shows "\<exists>s'. jas_append t (recovery_record p q r) s = (Inr (), s') \<and> scannable s' \<and>
    ledger_active s' = (ledger_active s)(t := None)"
proof -
  define l where "l = (audit_extend t [recovery_record p q r] (jas_state s))
     \<lparr>lg_active := bt_remove t (lg_active (audit_extend t [recovery_record p q r] (jas_state s)))\<rparr>"
  obtain st where st: "js_write l (jas_store s) = (Inr (), st)" "js_healthy st"
    using js_write_healthy [of "jas_store s" l] assms(1) by (auto simp: scannable_def)
  have run: "jas_append t (recovery_record p q r) s = (Inr (), s\<lparr>jas_store := st, jas_state := l\<rparr>)"
    using assms st(1) by (simp add: jas_append_def scannable_def ledger_active_def jas_commit_def l_def Let_def)
  moreover have "ledger_active (s\<lparr>jas_store := st, jas_state := l\<rparr>) = (ledger_active s)(t := None)"
    by (simp add: ledger_active_def l_def audit_extend_def fun_eq_iff bt.get_del)
  moreover have "scannable (s\<lparr>jas_store := st, jas_state := l\<rparr>)"
    using assms(1) st(2) calculation(2) by (simp add: scannable_def)
  ultimately show ?thesis by blast
qed

text \<open>One step of the scan after a restart.\<close>

lemma restart_step:
  fixes h :: "'h host" and t :: string
  assumes "scannable (dm_store d)"
  defines "d' \<equiv> snd (recover_after_restart (scan_env h) t d)"
  shows "scannable (dm_store d') \<and> ledger_active (dm_store d') = (ledger_active (dm_store d))(t := None) \<and>
    dm_registry d' = dm_registry d \<and> dm_sent d' = dm_sent d \<and> dm_dispatched d' = dm_dispatched d"
proof (cases "ledger_active (dm_store d) t")
  case None
  then show ?thesis
    using assms(1) by (auto simp: d'_def recover_after_restart_def scan_env_def jas_active_def scannable_def
        ledger_active_def fun_eq_iff)
next
  case (Some r)
  let ?fin = "recovery_record ''restart cancelled prepared action before side effect''
     ''restart found action after commit boundary; blind retry forbidden'' r"
  from append_closes [OF assms(1) Some] obtain s' where
    s': "jas_append t ?fin (dm_store d) = (Inr (), s')" "scannable s'"
      "ledger_active s' = (ledger_active (dm_store d))(t := None)" by blast
  have "d' = d\<lparr>dm_store := s'\<rparr>"
    using assms(1) Some s'(1)
    by (simp add: d'_def recover_after_restart_def scan_env_def jas_active_def scannable_def ledger_active_def
        on_ledger_def Let_def)
  with s' show ?thesis by simp
qed

lemma restart_scan:
  fixes h :: "'h host" and ts :: "string list"
  assumes "scannable (dm_store d)"
  defines "d' \<equiv> fold (\<lambda>t d. snd (recover_after_restart (scan_env h) t d)) ts d"
  shows "(\<forall>t. ledger_active (dm_store d') t = (if t \<in> set ts then None else ledger_active (dm_store d) t)) \<and>
    dm_registry d' = dm_registry d \<and> dm_sent d' = dm_sent d \<and> dm_dispatched d' = dm_dispatched d"
  using assms(1) unfolding d'_def
proof (induction ts arbitrary: d)
  case (Cons t ts)
  from restart_step [OF Cons.prems, of h t] Cons.IH [of "snd (recover_after_restart (scan_env h) t d)"]
  show ?case by auto
qed simp

text \<open>C17: After a restart the daemon closes every unfinished action before anything else: with a ledger file that
  can be written and in which every record is filed under its own target, no action is active after the
  scan, so every target can be claimed again, and the scan has executed nothing, dispatched nothing and left
  the registry alone.\<close>

theorem restart_scan_settles_everything:
  assumes "scannable (dm_store d)" "bt_wf (lg_active (jas_state (dm_store d)))"
  shows "ledger_active (dm_store (recover_durable_actions_after_restart h d)) t = None \<and>
    dm_registry (recover_durable_actions_after_restart h d) = dm_registry d \<and>
    dm_sent (recover_durable_actions_after_restart h d) = dm_sent d \<and>
    dm_dispatched (recover_durable_actions_after_restart h d) = dm_dispatched d"
proof -
  have all: "t \<in> set (scan_targets d)" if act: "ledger_active (dm_store d) t = Some r" for t r
  proof -
    have "(t, r) \<in> set (lg_active (jas_state (dm_store d)))"
      using act assms(2) by (simp add: ledger_active_def bt.get_entries)
    then have "r \<in> set (bt_values (lg_active (jas_state (dm_store d))))" by force
    moreover have "ar_target r = t" using act assms(1) by (simp add: scannable_def)
    ultimately show ?thesis using assms(1) by (force simp: scan_targets_def active_records_def scannable_def)
  qed
  have "ledger_active (dm_store (recover_durable_actions_after_restart h d)) t = None"
    using restart_scan [OF assms(1), of h "scan_targets d"] all
    by (cases "ledger_active (dm_store d) t") (auto simp: recover_durable_actions_after_restart_def)
  with restart_scan [OF assms(1), of h "scan_targets d"] show ?thesis
    by (simp add: recover_durable_actions_after_restart_def)
qed

definition interrupted_daemon :: "string list daemon" where
  "interrupted_daemon = job_daemon\<lparr>dm_store := ledger_run example_ops (fresh_ledger [])\<rparr>"

lemma interrupted_active_records:
  "lg_active (jas_state (dm_store interrupted_daemon)) =
     [(''w'', record_next Begun ''commit boundary entered'' example_record)]"
  "jas_poisoned (dm_store interrupted_daemon) = False" "js_faults (jas_store (dm_store interrupted_daemon)) = []"
  by (simp_all add: interrupted_daemon_def example_ops_def fresh_ledger_def ledger_default_def claim_prepared_def
      jas_append_def Let_def bt_contains_def jas_commit_def js_write_def audit_extend_def example_record_def)

theorem restart_scan_settles_everything_witness:
  "ledger_active (dm_store interrupted_daemon) ''w'' \<noteq> None \<and>
   ledger_active (dm_store (recover_durable_actions_after_restart job_host interrupted_daemon)) ''w'' = None"
proof -
  have "scannable (dm_store interrupted_daemon)" "bt_wf (lg_active (jas_state (dm_store interrupted_daemon)))"
    using interrupted_active_records
    by (simp_all add: scannable_def js_healthy_def ledger_active_def bt_wf_def example_record_def record_prepared_def
        record_next_def)
  from restart_scan_settles_everything [OF this] interrupted_active_records show ?thesis
    by (simp add: ledger_active_def)
qed

end
