(* ===== verification/Tmux_Adapter.thy ===== *)
theory Tmux_Adapter
  imports Runtime Screen
begin

text \<open>
  The tmux client (\<open>src/src/mux/tmux.rs\<close>): commands run under a timeout with bounded output, the metadata of a pane,
  the identity check, captures and the two ways of typing. Outside are the operating system, which runs \<open>tmux\<close>,
  inspects processes and reads the clock, and the derived \<open>Debug\<close> of a process identity; they are functions on a
  state \<open>'o\<close>. A child is what its pipes delivered and how waiting for it ended: the polling loop leaves by one of the
  three ways of \<open>child_end\<close>. The history \<open>tw_log\<close> records the commands that were run.
\<close>

section \<open>The operating system\<close>

datatype child_end = Exited bool | Hung | WaitFailed string

record stream =
  sm_chunks :: "string list"
  sm_error :: "string option"

record child =
  ch_end :: child_end
  ch_stdout :: stream
  ch_stderr :: stream

record 'o tmux_os =
  os_env :: "string \<Rightarrow> string option"
  os_spawn :: "string \<Rightarrow> string list \<Rightarrow> duration \<Rightarrow> 'o \<Rightarrow> (string, child) result \<times> 'o"
  os_inspect :: "u32 \<Rightarrow> 'o \<Rightarrow> (process_error, process_record) result \<times> 'o"
  os_instant :: "'o \<Rightarrow> duration \<times> 'o"
  os_process_debug :: "process_identity \<Rightarrow> string"

record ran =
  ran_args :: "string list"
  ran_result :: "(mux_error, string) result"

record 'o tmux_world =
  tw_os :: 'o
  tw_log :: "ran list"

definition on_os :: "('o \<Rightarrow> 'a \<times> 'o) \<Rightarrow> 'o tmux_world \<Rightarrow> 'a \<times> 'o tmux_world" where
  "on_os f w = (case f (tw_os w) of (x, s) \<Rightarrow> (x, w\<lparr>tw_os := s\<rparr>))"

section \<open>Text\<close>

definition usize_add :: "nat \<Rightarrow> nat \<Rightarrow> nat" where
  "usize_add a b = min (a + b) USIZE_MAX"

text \<open>\<open>Utf8Error\<close>: the length of the longest valid prefix, and whether the input ended inside a character, which is
  \<open>error_len() = None\<close>.\<close>

function utf8_valid_up_to :: "string \<Rightarrow> nat" where
  "utf8_valid_up_to s =
     (if s = [] \<or> \<not> fst (utf8_take s) then 0
      else snd (utf8_take s) + utf8_valid_up_to (drop (snd (utf8_take s)) s))"
  by auto
termination
proof (relation "measure length", goal_cases)
  case (2 s)
  then show ?case using utf8_take_pos [of s] by (auto intro: diff_less)
qed simp

declare utf8_valid_up_to.simps [simp del]

fun utf8_cut_short :: "string \<Rightarrow> bool" where
  "utf8_cut_short [] = False"
| "utf8_cut_short (a # s) =
     (194 \<le> byte_of a \<and> byte_of a \<le> 244 \<and> utf8_take (a # s) = (False, Suc (length s)))"

fun hex_digits :: "nat \<Rightarrow> string" where
  "hex_digits n =
     (if n < 16 then [''0123456789abcdef'' ! n] else hex_digits (n div 16) @ [''0123456789abcdef'' ! (n mod 16)])"

declare hex_digits.simps [simp del]

text \<open>\<open>str::escape_default\<close>, character by character.\<close>

definition escape_char :: "nat \<Rightarrow> string" where
  "escape_char c =
     (if c = 9 then [char_of (92 :: nat), CHR ''t''] else if c = 13 then [char_of (92 :: nat), CHR ''r'']
      else if c = 10 then [char_of (92 :: nat), CHR ''n'']
      else if c \<in> {34, 39, 92} then [char_of (92 :: nat), char_of c]
      else if 32 \<le> c \<and> c \<le> 126 then [char_of c]
      else char_of (92 :: nat) # ''u{'' @ hex_digits c @ ''}'')"

definition escape_default :: "string \<Rightarrow> string" where
  "escape_default s = concat (map escape_char (str_chars s))"

section \<open>Selectors and arguments\<close>

definition tmux_selector_parse :: "string \<Rightarrow> (mux_error, string) result" where
  "tmux_selector_parse value =
     (if value = [] \<or> starts_with value ''-'' \<or> list_ex is_control (str_chars value)
      then Inl (InvalidSelector (escape_default value)) else Inr value)"

definition validate_argument :: "string \<Rightarrow> (mux_error, unit) result" where
  "validate_argument value =
     (if char_of (0 :: nat) \<in> set value \<or> list_ex (\<lambda>c. c = 10 \<or> c = 13) (str_chars value)
      then Inl (InvalidSelector (escape_default value)) else Inr ())"

definition validate_literal :: "string \<Rightarrow> (mux_error, unit) result" where
  "validate_literal value =
     (if list_ex is_control (str_chars value)
      then Inl (InvalidSelector ''literal text contains a control character'') else Inr ())"

definition capture_arguments :: "string \<Rightarrow> string \<Rightarrow> string list" where
  "capture_arguments pane start_line = [''capture-pane'', ''-p'', ''-J'', ''-S'', start_line, ''-t'', pane]"

definition literal_arguments :: "string \<Rightarrow> string \<Rightarrow> string list" where
  "literal_arguments pane text = [''send-keys'', ''-t'', pane, ''-l'', ''--'', text]"

definition symbolic_arguments :: "string \<Rightarrow> symbolic_key \<Rightarrow> string list" where
  "symbolic_arguments pane key = [''send-keys'', ''-t'', pane, tmux_name key]"

section \<open>Running tmux\<close>

datatype server = DefaultServer | SocketName string | SocketPath string

record tmux =
  tm_server :: server
  tm_timeout :: duration

definition for_socket_name :: "string \<Rightarrow> duration \<Rightarrow> tmux" where
  "for_socket_name name timeout = \<lparr>tm_server = SocketName name, tm_timeout = timeout\<rparr>"

definition for_socket_path :: "string \<Rightarrow> duration \<Rightarrow> tmux" where
  "for_socket_path path timeout = \<lparr>tm_server = SocketPath path, tm_timeout = timeout\<rparr>"

definition default_server :: "duration \<Rightarrow> tmux" where
  "default_server timeout = \<lparr>tm_server = DefaultServer, tm_timeout = timeout\<rparr>"

definition from_environment :: "'o tmux_os \<Rightarrow> duration \<Rightarrow> (mux_error, tmux) result" where
  "from_environment os timeout =
     rbind (ok_or (Command ''TMUX is not set'') (os_env os ''TMUX''))
       (\<lambda>value. let socket = hd (split_when (\<lambda>c. c = CHR '','') value) in
          if socket = [] then Inl (mux_error.Malformed ''TMUX has no socket path'')
          else rbind (validate_argument socket) (\<lambda>_. Inr (for_socket_path socket timeout)))"

fun server_args :: "server \<Rightarrow> string list" where
  "server_args DefaultServer = []"
| "server_args (SocketName name) = [''-L'', name]"
| "server_args (SocketPath path) = [''-S'', path]"

definition OUTPUT_LIMIT :: nat where
  "OUTPUT_LIMIT = 256 * 1024"

text \<open>The reader of one pipe keeps at most one byte more than the limit, and reads on to the end.\<close>

fun drain :: "nat \<Rightarrow> string \<Rightarrow> string list \<Rightarrow> string" where
  "drain limit result [] = result"
| "drain limit result (chunk # chunks) =
     drain limit
       (if length result \<le> limit then result @ take (usize_add limit 1 - length result) chunk else result) chunks"

definition read_stream :: "nat \<Rightarrow> stream \<Rightarrow> (string, string) result" where
  "read_stream limit s = (case sm_error s of Some e \<Rightarrow> Inl e | None \<Rightarrow> Inr (drain limit [] (sm_chunks s)))"

definition child_result :: "nat \<Rightarrow> child \<Rightarrow> (mux_error, string) result" where
  "child_result limit c =
     (case ch_end c of
        WaitFailed e \<Rightarrow> Inl (Command e)
      | Hung \<Rightarrow> Inl Timeout
      | Exited success \<Rightarrow>
          rbind (map_err (\<lambda>e. Command (''stdout read failed: '' @ e)) (read_stream limit (ch_stdout c))) (\<lambda>output.
          rbind (map_err (\<lambda>e. Command (''stderr read failed: '' @ e)) (read_stream limit (ch_stderr c))) (\<lambda>errors.
            if success then Inr output else Inl (Command (str_trim (from_utf8_lossy errors))))))"

definition run_bounded ::
  "'o tmux_os \<Rightarrow> string \<Rightarrow> string list \<Rightarrow> duration \<Rightarrow> nat \<Rightarrow> 'o \<Rightarrow> (mux_error, string) result \<times> 'o" where
  "run_bounded os executable args timeout limit s =
     (case os_spawn os executable args timeout s of
        (Inl e, s1) \<Rightarrow> (Inl (Command e), s1) | (Inr c, s1) \<Rightarrow> (child_result limit c, s1))"

definition tmux_run ::
  "'o tmux_os \<Rightarrow> tmux \<Rightarrow> string list \<Rightarrow> nat \<Rightarrow> 'o tmux_world \<Rightarrow> (mux_error, string) result \<times> 'o tmux_world" where
  "tmux_run os t args limit w =
     (case on_os (run_bounded os ''tmux'' (server_args (tm_server t) @ args) (tm_timeout t) limit) w of
        (r, w1) \<Rightarrow> (r, w1\<lparr>tw_log := tw_log w1 @ [\<lparr>ran_args = args, ran_result = r\<rparr>]\<rparr>))"

section \<open>Metadata of a pane\<close>

record pane_info =
  pn_identity :: mux_identity
  pn_server_id :: string
  pn_session_name :: string
  pn_window_name :: string
  pn_window_index :: u32
  pn_pane_index :: u32
  pn_pane_title :: string
  pn_current_command :: string
  pn_current_path :: string
  pn_dead :: bool
  pn_dead_status :: "int option"
  pn_started_at :: "u64 option"
  pn_dead_at :: "u64 option"

abbreviation FIELD_SEPARATOR :: char where
  "FIELD_SEPARATOR \<equiv> CHR 0x1F"

abbreviation BACKSLASH :: char where
  "BACKSLASH \<equiv> CHR 0x5C"

definition METADATA_FORMAT :: string where
  "METADATA_FORMAT =
     str_join [FIELD_SEPARATOR]
       [''#{socket_path}'', ''#{session_id}'', ''#{session_name}'', ''#{window_id}'', ''#{window_name}'',
        ''#{window_index}'', ''#{pane_id}'', ''#{pane_index}'', ''#{pane_tty}'', ''#{pane_pid}'',
        ''#{pane_current_command}'', ''#{pane_current_path}'', ''#{pane_dead}'', ''#{pane_dead_status}'',
        ''#{pane_start_time}'', ''#{pane_dead_time}'']"

definition is_octal :: "char \<Rightarrow> bool" where
  "is_octal c = (48 \<le> byte_of c \<and> byte_of c \<le> 55)"

text \<open>The loop over the octal digits: at most three, most significant first.\<close>

definition octal_digits :: "string \<Rightarrow> string" where
  "octal_digits s = takeWhile is_octal (take 3 s)"

definition octal_value :: "string \<Rightarrow> nat" where
  "octal_value = foldl (\<lambda>n d. n * 8 + (byte_of d - 48)) 0"

lemma octal_digits_length: "length (octal_digits s) \<le> 3" "length (octal_digits s) \<le> length s"
  using length_takeWhile_le [of is_octal "take 3 s"] by (simp_all add: octal_digits_def)

function decode_escapes :: "string \<Rightarrow> (mux_error, string) result" where
  "decode_escapes [] = Inr []"
| "decode_escapes (c # s) =
     (if c = BACKSLASH \<and> s \<noteq> [] \<and> hd s = BACKSLASH
      then rbind (decode_escapes (tl s)) (\<lambda>out. Inr (BACKSLASH # out))
      else if c = BACKSLASH \<and> s \<noteq> [] \<and> is_octal (hd s)
      then (if 255 < octal_value (octal_digits s)
            then Inl (mux_error.Malformed ''tmux octal escape out of byte range'')
            else rbind (decode_escapes (drop (length (octal_digits s)) s))
              (\<lambda>out. Inr (char_of (octal_value (octal_digits s)) # out)))
      else rbind (decode_escapes s) (\<lambda>out. Inr (c # out)))"
  by pat_completeness auto
termination by (relation "measure length") auto

declare decode_escapes.simps(2) [simp del]

definition decode_tmux_display_escapes :: "string \<Rightarrow> (mux_error, string) result" where
  "decode_tmux_display_escapes value =
     rbind (decode_escapes value) (\<lambda>out. if utf8_valid out then Inr out else Inl InvalidUtf8)"

definition number_field :: "string list \<Rightarrow> nat \<Rightarrow> string \<Rightarrow> (mux_error, u32) result" where
  "number_field fs i name =
     ok_or (mux_error.Malformed (''invalid '' @ name)) (map_option of_nat (parse_unsigned 32 (fs ! i)))"

definition optional_field :: "(string \<Rightarrow> 'a option) \<Rightarrow> string list \<Rightarrow> nat \<Rightarrow> (mux_error, 'a option) result" where
  "optional_field parse fs i =
     (if fs ! i = [] then Inr None
      else ok_or (mux_error.Malformed (''invalid optional numeric field '' @ decimal i)) (map_option Some (parse (fs ! i))))"

definition required_fields :: "nat list" where
  "required_fields = [0, 1, 3, 6, 8]"

definition check_fields :: "string list \<Rightarrow> (mux_error, bool \<times> u32) result" where
  "check_fields fs =
     (if length fs \<noteq> 16
      then Inl (mux_error.Malformed (''expected 16 fields, got '' @ decimal (length fs)))
      else case List.find (\<lambda>i. fs ! i = []) required_fields of
        Some i \<Rightarrow> Inl (mux_error.Malformed (''required field '' @ decimal i @ '' is empty''))
      | None \<Rightarrow>
          rbind (if fs ! 12 = ''0'' then Inr False else if fs ! 12 = ''1'' then Inr True
                 else Inl (mux_error.Malformed ''pane dead marker must be 0 or 1''))
            (\<lambda>dead. rbind (number_field fs 9 ''pane PID'') (\<lambda>pid. Inr (dead, pid))))"

fun process_error_display :: "process_error \<Rightarrow> string" where
  "process_error_display (Disappeared pid) = ''process '' @ decimal (unat pid) @ '' disappeared during inspection''"
| "process_error_display (process_error.Malformed pid reason) =
     ''malformed process metadata for PID '' @ decimal (unat pid) @ '': '' @ reason"
| "process_error_display (Inspection e) = ''process inspection failed: '' @ e"
| "process_error_display (IncompleteEnumeration e) = ''process enumeration was incomplete: '' @ e"
| "process_error_display (Ambiguous pids) =
     ''agent process discovery is ambiguous (['' @ str_join '', '' (map (\<lambda>p. decimal (unat p)) pids)
       @ '']); run `watchme doctor` for pane and process evidence''"
| "process_error_display (NoConfidentCandidate _) =
     ''no agent process has sufficient correlated evidence; invoke through `!watchme` and run `watchme doctor`''"

definition pane_of_fields :: "string list \<Rightarrow> bool \<Rightarrow> process_identity \<Rightarrow> (mux_error, pane_info) result" where
  "pane_of_fields fs dead process =
     rbind (number_field fs 5 ''window index'') (\<lambda>window_index.
     rbind (number_field fs 7 ''pane index'') (\<lambda>pane_index.
     rbind (optional_field (parse_signed 32) fs 13) (\<lambda>status.
     rbind (optional_field (\<lambda>s. map_option of_nat (parse_unsigned 64 s)) fs 14) (\<lambda>started.
     rbind (optional_field (\<lambda>s. map_option of_nat (parse_unsigned 64 s)) fs 15) (\<lambda>ended.
       Inr \<lparr>pn_identity = \<lparr>mi_provider = ''tmux'', mi_server_instance = fs ! 0, mi_server = fs ! 0,
              mi_session_id = fs ! 1, mi_window_id = fs ! 3, mi_pane_id = fs ! 6, mi_tty = fs ! 8, mi_process = process\<rparr>,
            pn_server_id = fs ! 0, pn_session_name = fs ! 2, pn_window_name = fs ! 4, pn_window_index = window_index,
            pn_pane_index = pane_index, pn_pane_title = fs ! 4, pn_current_command = fs ! 10,
            pn_current_path = fs ! 11, pn_dead = dead, pn_dead_status = status, pn_started_at = started,
            pn_dead_at = ended\<rparr>)))))"

definition parse_metadata :: "'o tmux_os \<Rightarrow> string \<Rightarrow> 'o \<Rightarrow> (mux_error, pane_info) result \<times> 'o" where
  "parse_metadata os value s =
     (case decode_tmux_display_escapes value of Inl e \<Rightarrow> (Inl e, s) | Inr decoded \<Rightarrow>
      let fs = split_when (\<lambda>c. c = FIELD_SEPARATOR) decoded in
      case check_fields fs of Inl e \<Rightarrow> (Inl e, s) | Inr (dead, pid) \<Rightarrow>
      case os_inspect os pid s of
        (Inl e, s1) \<Rightarrow> (Inl (IdentityChanged (process_error_display e)), s1)
      | (Inr r, s1) \<Rightarrow> (pane_of_fields fs dead (record_identity r), s1))"

definition tmux_query ::
  "'o tmux_os \<Rightarrow> tmux \<Rightarrow> string \<Rightarrow> 'o tmux_world \<Rightarrow> (mux_error, pane_info) result \<times> 'o tmux_world" where
  "tmux_query os t target w =
     (case validate_argument target of Inl e \<Rightarrow> (Inl e, w) | Inr _ \<Rightarrow>
      case tmux_run os t [''display-message'', ''-p'', ''-t'', target, METADATA_FORMAT] OUTPUT_LIMIT w of
        (Inl e, w1) \<Rightarrow> (Inl e, w1)
      | (Inr output, w1) \<Rightarrow>
          if utf8_valid output then on_os (parse_metadata os (trim_end output)) w1 else (Inl InvalidUtf8, w1))"

section \<open>The operations of the multiplexer\<close>

definition tmux_current_target ::
  "'o tmux_os \<Rightarrow> tmux \<Rightarrow> 'o tmux_world \<Rightarrow> (mux_error, mux_identity) result \<times> 'o tmux_world" where
  "tmux_current_target os t w =
     (case os_env os ''TMUX_PANE'' of None \<Rightarrow> (Inl (Command ''TMUX_PANE is not set''), w) | Some pane \<Rightarrow>
      case tmux_query os t pane w of (r, w1) \<Rightarrow> (rbind r (\<lambda>info. Inr (pn_identity info)), w1))"

definition tmux_resolve_selector ::
  "'o tmux_os \<Rightarrow> tmux \<Rightarrow> string \<Rightarrow> 'o tmux_world \<Rightarrow> (mux_error, mux_identity) result \<times> 'o tmux_world" where
  "tmux_resolve_selector os t selector w =
     (case tmux_query os t selector w of (r, w1) \<Rightarrow> (rbind r (\<lambda>info. Inr (pn_identity info)), w1))"

definition tmux_pane_info ::
  "'o tmux_os \<Rightarrow> tmux \<Rightarrow> mux_identity \<Rightarrow> 'o tmux_world \<Rightarrow> (mux_error, pane_info) result \<times> 'o tmux_world" where
  "tmux_pane_info os t i = tmux_query os t (mi_pane_id i)"

definition process_matches :: "process_identity \<Rightarrow> process_identity \<Rightarrow> bool" where
  "process_matches expected actual = (expected = actual)"

definition identity_matches :: "mux_identity \<Rightarrow> mux_identity \<Rightarrow> bool" where
  "identity_matches expected actual =
     (mi_provider actual = mi_provider expected \<and> mi_server actual = mi_server expected
      \<and> mi_session_id actual = mi_session_id expected \<and> mi_window_id actual = mi_window_id expected
      \<and> mi_pane_id actual = mi_pane_id expected \<and> mi_tty actual = mi_tty expected
      \<and> process_matches (mi_process expected) (mi_process actual))"

definition tmux_validate_identity ::
  "'o tmux_os \<Rightarrow> tmux \<Rightarrow> mux_identity \<Rightarrow> 'o tmux_world \<Rightarrow> (mux_error, unit) result \<times> 'o tmux_world" where
  "tmux_validate_identity os t expected w =
     (case tmux_query os t (mi_pane_id expected) w of
        (Inl e, w1) \<Rightarrow>
          (Inl (IdentityChanged (''pane '' @ mi_pane_id expected @ '' is no longer the recorded target: ''
             @ mux_error_display e)), w1)
      | (Inr info, w1) \<Rightarrow>
          let actual = pn_identity info in
          (if identity_matches expected actual then Inr ()
           else Inl (IdentityChanged (''expected pane '' @ mi_pane_id expected @ '' process ''
             @ os_process_debug os (mi_process expected) @ '', found pane '' @ mi_pane_id actual @ '' process ''
             @ os_process_debug os (mi_process actual))), w1))"

definition UTF8_BOUNDARY_LOOKAHEAD :: nat where
  "UTF8_BOUNDARY_LOOKAHEAD = 3"

definition complete_prefix :: "nat \<Rightarrow> nat \<Rightarrow> string \<Rightarrow> (mux_error, string \<times> nat \<times> bool) result" where
  "complete_prefix max_bytes produced valid_bytes =
     (if \<not> utf8_valid valid_bytes then Inl InvalidUtf8
      else let boundary = floor_boundary valid_bytes (min (length valid_bytes) max_bytes) in
        Inr (take boundary valid_bytes, boundary, max_bytes < produced))"

definition truncate_capture :: "string \<Rightarrow> nat \<Rightarrow> (mux_error, string \<times> nat \<times> bool) result" where
  "truncate_capture output max_bytes =
     (let valid_up_to = utf8_valid_up_to output in
      if utf8_valid output then complete_prefix max_bytes (length output) output
      else if utf8_cut_short (drop valid_up_to output) \<and> max_bytes \<le> valid_up_to \<and> max_bytes < length output
      then complete_prefix max_bytes (length output) (take valid_up_to output)
      else Inl InvalidUtf8)"

definition tmux_capture_tail ::
  "'o tmux_os \<Rightarrow> tmux \<Rightarrow> mux_identity \<Rightarrow> nat \<Rightarrow> nat \<Rightarrow> 'o tmux_world
     \<Rightarrow> (mux_error, mux_capture) result \<times> 'o tmux_world" where
  "tmux_capture_tail os t i lines max_bytes w =
     (case tmux_validate_identity os t i w of (Inl e, w1) \<Rightarrow> (Inl e, w1) | (Inr _, w1) \<Rightarrow>
      if lines = 0 \<or> max_bytes = 0
      then (Inr \<lparr>cap_text = [], cap_bytes = 0, cap_truncated = False, cap_elapsed = 0\<rparr>, w1)
      else case on_os (os_instant os) w1 of (start, w2) \<Rightarrow>
      case tmux_run os t (capture_arguments (mi_pane_id i) (CHR ''-'' # decimal lines))
             (usize_add max_bytes UTF8_BOUNDARY_LOOKAHEAD) w2 of (Inl e, w3) \<Rightarrow> (Inl e, w3) | (Inr output, w3) \<Rightarrow>
      case tmux_validate_identity os t i w3 of (Inl e, w4) \<Rightarrow> (Inl e, w4) | (Inr _, w4) \<Rightarrow>
      case truncate_capture output max_bytes of Inl e \<Rightarrow> (Inl e, w4) | Inr (txt, bytes, truncated) \<Rightarrow>
      case on_os (os_instant os) w4 of (now, w5) \<Rightarrow>
        (Inr \<lparr>cap_text = txt, cap_bytes = bytes, cap_truncated = truncated, cap_elapsed = dur_sat_sub now start\<rparr>, w5))"

fun composer_state_debug :: "composer_state \<Rightarrow> string" where
  "composer_state_debug ComposerSafe = ''Safe''"
| "composer_state_debug ComposerUnsafe = ''Unsafe''"
| "composer_state_debug ComposerUnknown = ''Unknown''"
| "composer_state_debug ComposerStale = ''Stale''"

definition require_safe :: "'w composer_safety \<Rightarrow> mux_identity \<Rightarrow> 'w \<Rightarrow> (mux_error, unit) result \<times> 'w" where
  "require_safe safety i w =
     (case safety i w of
        (Inl e, w1) \<Rightarrow> (Inl e, w1)
      | (Inr state, w1) \<Rightarrow>
          (if state = ComposerSafe then Inr ()
           else Inl (IdentityChanged (''composer safety is '' @ composer_state_debug state)), w1))"

text \<open>The last steps of both ways of typing: check, look at the composer, check again, type.\<close>

definition guarded_send ::
  "'o tmux_os \<Rightarrow> tmux \<Rightarrow> mux_identity \<Rightarrow> string list \<Rightarrow> 'o tmux_world composer_safety \<Rightarrow> 'o tmux_world
     \<Rightarrow> (mux_error, unit) result \<times> 'o tmux_world" where
  "guarded_send os t i args safety w =
     (case tmux_validate_identity os t i w of (Inl e, w1) \<Rightarrow> (Inl e, w1) | (Inr _, w1) \<Rightarrow>
      case require_safe safety i w1 of (Inl e, w2) \<Rightarrow> (Inl e, w2) | (Inr _, w2) \<Rightarrow>
      case tmux_validate_identity os t i w2 of (Inl e, w3) \<Rightarrow> (Inl e, w3) | (Inr _, w3) \<Rightarrow>
      case tmux_run os t args OUTPUT_LIMIT w3 of (r, w4) \<Rightarrow> (rbind r (\<lambda>_. Inr ()), w4))"

definition tmux_send_literal ::
  "'o tmux_os \<Rightarrow> tmux \<Rightarrow> 'o tmux_world composer_safety \<Rightarrow> mux_identity \<Rightarrow> string \<Rightarrow> 'o tmux_world
     \<Rightarrow> (mux_error, unit) result \<times> 'o tmux_world" where
  "tmux_send_literal os t safety i text w =
     (case validate_literal text of Inl e \<Rightarrow> (Inl e, w)
      | Inr _ \<Rightarrow> guarded_send os t i (literal_arguments (mi_pane_id i) text) safety w)"

definition tmux_send_key ::
  "'o tmux_os \<Rightarrow> tmux \<Rightarrow> 'o tmux_world composer_safety \<Rightarrow> mux_identity \<Rightarrow> symbolic_key \<Rightarrow> 'o tmux_world
     \<Rightarrow> (mux_error, unit) result \<times> 'o tmux_world" where
  "tmux_send_key os t safety i key w = guarded_send os t i (symbolic_arguments (mi_pane_id i) key) safety w"

definition tmux_multiplexer ::
  "'o tmux_os \<Rightarrow> tmux \<Rightarrow> 'o tmux_world composer_safety \<Rightarrow> 'o tmux_world multiplexer" where
  "tmux_multiplexer os t safety =
     \<lparr>mux_validate_identity = tmux_validate_identity os t, mux_capture_tail = tmux_capture_tail os t,
      mux_send_literal = tmux_send_literal os t safety, mux_submit_literal = submit_literal_default,
      mux_send_key = tmux_send_key os t safety\<rparr>"

section \<open>The tmux client in the daemon\<close>

text \<open>The daemon builds a client for the socket of the watcher, with a timeout of two seconds, for every call.\<close>

definition tmux_host :: "'o tmux_os \<Rightarrow> 'o tmux_world host \<Rightarrow> 'o tmux_world host" where
  "tmux_host os h =
     h\<lparr>ho_adapter := \<lambda>ctx safety.
        (case ctx of
           Tmux socket _ _ _ _ _ \<Rightarrow> Inr (tmux_multiplexer os (for_socket_path socket (dur_from_secs 2)) safety)
         | Herdr _ _ _ _ _ _ _ \<Rightarrow> ho_adapter h ctx safety)\<rparr>"

text \<open>The composer check for a tmux pane: three lines and a kilobyte, and the last line of them has to be blank.\<close>

definition bottom_is_blank :: "string \<Rightarrow> bool" where
  "bottom_is_blank txt = (str_lines txt = [] \<or> blank (last (str_lines txt)))"

definition tmux_composer :: "'o tmux_os \<Rightarrow> tmux \<Rightarrow> 'o tmux_world composer_safety" where
  "tmux_composer os t i w =
     (case tmux_capture_tail os t i 3 1024 w of
        (Inl e, w1) \<Rightarrow> (Inl e, w1)
      | (Inr c, w1) \<Rightarrow> (Inr (if bottom_is_blank (cap_text c) then ComposerSafe else ComposerUnsafe), w1))"

lemma tmux_composer_observe:
  assumes "observation_context (ws_target w) = Some (Tmux socket a b c d e)"
  shows "composer_observe (tmux_host os h) w = tmux_composer os (for_socket_path socket (dur_from_secs 2))"
  using assms
  by (auto simp: composer_observe_def tmux_composer_def capture_mux_target_def with_adapter_def tmux_host_def
      tmux_multiplexer_def native_codex_def bottom_is_blank_def fun_eq_iff split: sum.split prod.split)

end
