(* ===== verification/Tmux_Properties.thy ===== *)
theory Tmux_Properties
  imports Tmux_Adapter
begin

text \<open>
  What the tmux client guarantees about what it reads: bounded captures that never break on a cut character, and
  metadata that reads back exactly whichever bytes the installed tmux escapes, as long as no backslash in it looks
  like the beginning of an escape; and what happens when one does.
\<close>

section \<open>Cut characters\<close>

lemma utf8_char_cut:
  assumes "utf8_char g" "strict_prefix p g" "p \<noteq> []"
  shows "utf8_cut_short p" "length p \<le> 3"
proof -
  obtain a s where g: "g = a # s" using assms(1) by (cases g) (auto simp: utf8_char_def)
  obtain q where p: "p = a # q" "strict_prefix q s" using assms(2,3) g by (cases p) auto
  then obtain k where q: "q = take k s" "k < length s"
    by (metis append_eq_conv_conj prefix_length_less strict_prefixE')
  have form: "utf8_form (Suc (length s)) (byte_of a) s"
    using assms(1) g unfolding utf8_char_def utf8_take_form [symmetric] by simp
  then have len: "length s \<le> 3" by (auto simp: utf8_form_def)
  then show "length p \<le> 3" using p q by simp
  have lead: "194 \<le> byte_of a" "byte_of a \<le> 244" "\<not> byte_of a < 128"
    using form q(2) by (auto simp: utf8_form_def)
  have "utf8_take (a # take k s) = (False, Suc k)"
  proof -
    consider "length s = 1" | "length s = 2" | "length s = 3" using len q(2) by linarith
    then show ?thesis
    proof cases
      case 1
      then show ?thesis using form q(2) by (simp add: utf8_form_def)
    next
      case 2
      then have "k = 0 \<or> k = 1" using q(2) by linarith
      then show ?thesis using form 2 by (elim disjE) (simp_all add: utf8_form_def)
    next
      case 3
      then have "k = 0 \<or> k = 1 \<or> k = 2" using q(2) by linarith
      then show ?thesis using form 3 by (elim disjE) (simp_all add: utf8_form_def)
    qed
  qed
  then show "utf8_cut_short p" using lead q by (simp add: p del: utf8_take.simps)
qed

text \<open>A cut of a valid text: whole characters and the beginning of at most one more.\<close>

lemma take_concat_chars:
  "\<exists>hs p rest. gs = hs @ rest \<and> take n (concat gs) = concat hs @ p \<and>
     (p = [] \<or> (\<exists>g rest'. rest = g # rest' \<and> strict_prefix p g))"
proof (induction gs arbitrary: n)
  case (Cons g gs)
  show ?case
  proof (cases "length g \<le> n")
    case True
    obtain hs p rest where "gs = hs @ rest" "take (n - length g) (concat gs) = concat hs @ p"
      "p = [] \<or> (\<exists>g rest'. rest = g # rest' \<and> strict_prefix p g)"
      using Cons.IH by blast
    then show ?thesis using True by (intro exI [of _ "g # hs"] exI [of _ p] exI [of _ rest]) simp
  next
    case False
    then have "strict_prefix (take n g) g"
      by (metis nat_le_linear strict_prefixI take_all_iff take_is_prefix)
    with False show ?thesis by (intro exI [of _ "[]"] exI [of _ "take n g"] exI [of _ "g # gs"]) simp
  qed
qed simp

lemma utf8_valid_up_to_chars:
  assumes "\<forall>g \<in> set gs. utf8_char g" "p = [] \<or> \<not> fst (utf8_take p)"
  shows "utf8_valid_up_to (concat gs @ p) = length (concat gs)"
  using assms(1)
proof (induction gs)
  case Nil
  then show ?case using assms(2) by (subst utf8_valid_up_to.simps) simp
next
  case (Cons g gs)
  then have "g \<noteq> []" "utf8_take (g @ concat gs @ p) = (True, length g)"
    using utf8_take_append [of g "concat gs @ p"] by (simp_all add: utf8_char_def)
  then show ?case using Cons by (subst utf8_valid_up_to.simps) simp
qed

lemma cut_short_not_char: "utf8_cut_short p \<Longrightarrow> \<not> fst (utf8_take p)"
  by (cases p) (simp_all del: utf8_take.simps(2))

lemma utf8_valid_appendD:
  assumes "utf8_valid (x @ y)" "utf8_valid x"
  shows "utf8_valid y"
proof -
  have x: "\<forall>g \<in> set (str_segs x). utf8_char g" using assms(2) by (simp add: utf8_valid_segs)
  have "str_segs (concat gs @ y) = gs @ str_segs y" if "\<forall>g \<in> set gs. utf8_char g" for gs
    using that by (induction gs) (simp_all add: str_segs_char_append)
  from this [OF x] have "str_segs (x @ y) = str_segs x @ str_segs y" by simp
  with assms(1) show ?thesis by (simp add: utf8_valid_segs)
qed

lemma boundary_iff_valid:
  assumes "utf8_valid s" "b \<le> length s"
  shows "is_char_boundary s b \<longleftrightarrow> utf8_valid (take b s)"
proof
  assume valid: "utf8_valid (take b s)"
  then have rest: "utf8_valid (drop b s)" using utf8_valid_appendD [of "take b s" "drop b s"] assms(1) by simp
  have "\<not> is_cont (s ! b)" if "b < length s"
  proof -
    have "drop b s = s ! b # drop (Suc b) s" using that by (simp add: Cons_nth_drop_Suc)
    with rest have "fst (utf8_take (s ! b # drop (Suc b) s))" by (simp add: utf8_valid.simps(2) del: utf8_take.simps)
    then show ?thesis by (auto simp: is_cont_def Let_def split: if_splits)
  qed
  with assms(2) show "is_char_boundary s b" by (auto simp: is_char_boundary_def)
next
  assume boundary: "is_char_boundary s b"
  define gs where "gs = str_segs s"
  have gs: "\<forall>g \<in> set gs. utf8_char g" "concat gs = s" using assms(1) by (simp_all add: gs_def utf8_valid_segs)
  obtain hs p rest where cut: "gs = hs @ rest" "take b s = concat hs @ p"
      "p = [] \<or> (\<exists>g rest'. rest = g # rest' \<and> strict_prefix p g)"
    using take_concat_chars [of gs b] gs(2) by auto
  have "p = []"
  proof (rule ccontr)
    assume p: "p \<noteq> []"
    then obtain g rest' where g: "rest = g # rest'" "strict_prefix p g" using cut(3) by blast
    then obtain a u q where u: "g = a # u" "p = a # q" "length q < length u"
      using p by (cases p; cases g) (auto dest: prefix_length_less)
    have len: "b = length (concat hs) + length p" using arg_cong [OF cut(2), of length] assms(2) by simp
    have "s = concat hs @ g @ concat rest'" using gs(2) cut(1) g(1) by auto
    then have "s ! b = u ! length q" "b < length s" "0 < b" using len u by (simp_all add: nth_append)
    moreover have "is_cont (u ! length q)" using utf8_char_tail_cont [of a u "length q"] gs(1) cut(1) g(1) u by auto
    ultimately show False using boundary by (auto simp: is_char_boundary_def)
  qed
  with cut gs show "utf8_valid (take b s)" using utf8_valid_concat [of hs] by simp
qed

lemma floor_boundary_greatest:
  "floor_boundary s m \<le> m" "is_char_boundary s (floor_boundary s m)"
  "is_char_boundary s b \<Longrightarrow> b \<le> m \<Longrightarrow> b \<le> floor_boundary s m"
  by (induction m) (auto simp: is_char_boundary_def le_Suc_eq)

text \<open>The longest whole-character prefix within a number of bytes.\<close>

definition longest_prefix_within :: "nat \<Rightarrow> string \<Rightarrow> string \<Rightarrow> bool" where
  "longest_prefix_within n s t \<longleftrightarrow>
     prefix t s \<and> utf8_valid t \<and> length t \<le> n \<and> (\<forall>u. prefix u s \<and> utf8_valid u \<and> length u \<le> n \<longrightarrow> length u \<le> length t)"

lemma complete_prefix_longest:
  assumes "utf8_valid s"
  shows "\<exists>t. complete_prefix n k s = Inr (t, length t, n < k) \<and> longest_prefix_within n s t"
proof -
  define b where "b = floor_boundary s (min (length s) n)"
  have b: "b \<le> length s" "b \<le> n" "is_char_boundary s b"
    using floor_boundary_greatest(1,2) [of s "min (length s) n"] by (simp_all add: b_def)
  have "length u \<le> b" if u: "prefix u s" "utf8_valid u" "length u \<le> n" for u
  proof -
    have "u = take (length u) s" using u(1) by (auto simp: prefix_def)
    then have "is_char_boundary s (length u)" using boundary_iff_valid [OF assms] u by (metis prefix_length_le)
    then show ?thesis using floor_boundary_greatest(3) u prefix_length_le [OF u(1)] by (simp add: b_def)
  qed
  moreover have "utf8_valid (take b s)" using boundary_iff_valid [OF assms b(1)] b(3) by simp
  ultimately have "longest_prefix_within n s (take b s)"
    using b by (simp add: longest_prefix_within_def take_is_prefix)
  moreover have "complete_prefix n k s = Inr (take b s, length (take b s), n < k)"
    using assms b(1) by (simp add: complete_prefix_def Let_def b_def [symmetric])
  ultimately show ?thesis by blast
qed

lemma longest_prefix_take:
  assumes "longest_prefix_within n (take k s) t" "n \<le> k"
  shows "longest_prefix_within n s t"
proof -
  have "prefix u (take k s)" if "prefix u s" "length u \<le> n" for u
    using that assms(2) by (auto simp: prefix_def)
  with assms(1) show ?thesis
    unfolding longest_prefix_within_def by (meson prefix_order.trans take_is_prefix)
qed

section \<open>Captures\<close>

lemma drain_take:
  assumes "limit < USIZE_MAX" "length result \<le> Suc limit"
  shows "drain limit result chunks = take (Suc limit) (result @ concat chunks)"
  using assms(2)
proof (induction chunks arbitrary: result)
  case (Cons c cs)
  have "usize_add limit 1 = Suc limit" using assms(1) by (simp add: usize_add_def)
  moreover have "take (Suc limit - (length result + min (length c) (Suc limit - length result))) xs
      = take (Suc limit - (length result + length c)) xs" for xs :: string
    by (simp add: min_def)
  ultimately show ?case using Cons by (cases "length result = Suc limit") auto
qed simp

lemma truncate_capture_longest:
  assumes "utf8_valid s" "max_bytes + 3 < k"
  shows "\<exists>t. truncate_capture (take k s) max_bytes = Inr (t, length t, max_bytes < length s)
    \<and> longest_prefix_within max_bytes s t"
proof (cases "utf8_valid (take k s)")
  case True
  obtain t where "complete_prefix max_bytes (length (take k s)) (take k s)
      = Inr (t, length t, max_bytes < length (take k s))" "longest_prefix_within max_bytes (take k s) t"
    using complete_prefix_longest [OF True] by blast
  then show ?thesis
    using True assms(2) longest_prefix_take [of max_bytes k s t] by (auto simp: truncate_capture_def)
next
  case False
  define gs where "gs = str_segs s"
  have gs: "\<forall>g \<in> set gs. utf8_char g" "concat gs = s" using assms(1) by (simp_all add: gs_def utf8_valid_segs)
  obtain hs p rest where cut: "gs = hs @ rest" "take k s = concat hs @ p"
      "p = [] \<or> (\<exists>g rest'. rest = g # rest' \<and> strict_prefix p g)"
    using take_concat_chars [of gs k] gs(2) by auto
  have hs: "\<forall>g \<in> set hs. utf8_char g" using gs(1) cut(1) by simp
  then have valid: "utf8_valid (concat hs)" by (rule utf8_valid_concat)
  then have "p \<noteq> []" using False cut(2) by auto
  with cut gs(1) obtain g where "utf8_char g" "strict_prefix p g" by auto
  then have short: "utf8_cut_short p" "length p \<le> 3" using utf8_char_cut \<open>p \<noteq> []\<close> by blast+
  have upto: "utf8_valid_up_to (take k s) = length (concat hs)"
    unfolding cut(2) using utf8_valid_up_to_chars [OF hs] cut_short_not_char [OF short(1)] by blast
  have "k < length s" using False assms(1) by (metis not_le_imp_less take_all_iff)
  then have "k = length (concat hs) + length p" using arg_cong [OF cut(2), of length] by simp
  then have long: "max_bytes < length (concat hs)" using short(2) assms(2) by linarith
  obtain t where t: "complete_prefix max_bytes (length (take k s)) (concat hs)
      = Inr (t, length t, max_bytes < length (take k s))" "longest_prefix_within max_bytes (concat hs) t"
    using complete_prefix_longest [OF valid] by blast
  have "concat hs = take (length (concat hs)) s" using gs(2) cut(1) by auto
  then have "longest_prefix_within max_bytes s t" using longest_prefix_take t(2) long by (metis less_imp_le_nat)
  moreover have "truncate_capture (take k s) max_bytes = Inr (t, length t, max_bytes < length s)"
    using False t(1) long short(1) \<open>k < length s\<close> assms(2) upto cut(2)
    by (simp add: truncate_capture_def Let_def)
  ultimately show ?thesis by blast
qed

text \<open>C25: A capture of valid text always succeeds, however the output limit cuts it: the reader keeps the first
  \<open>max_bytes + 4\<close> bytes of what tmux prints, and the result is the longest prefix of whole characters
  within the limit, with an exact mark of whether anything was left out.\<close>

theorem capture_never_breaks_characters:
  assumes "utf8_valid (concat (sm_chunks out))" "sm_error out = None" "max_bytes + 3 < USIZE_MAX"
  shows "\<exists>output t. read_stream (usize_add max_bytes UTF8_BOUNDARY_LOOKAHEAD) out = Inr output \<and>
    truncate_capture output max_bytes = Inr (t, length t, max_bytes < length (concat (sm_chunks out))) \<and>
    longest_prefix_within max_bytes (concat (sm_chunks out)) t"
proof -
  have limit: "usize_add max_bytes UTF8_BOUNDARY_LOOKAHEAD = max_bytes + 3"
    using assms(3) by (simp add: usize_add_def UTF8_BOUNDARY_LOOKAHEAD_def)
  have "read_stream (max_bytes + 3) out = Inr (take (max_bytes + 4) (concat (sm_chunks out)))"
    using assms(2) drain_take [OF assms(3), of "[]"] by (simp add: read_stream_def add.commute)
  with truncate_capture_longest [OF assms(1), of max_bytes "max_bytes + 4"] limit show ?thesis by fastforce
qed

text \<open>One euro sign cut after its second byte: the capture is empty and marked as truncated.\<close>

theorem capture_never_breaks_characters_witness:
  "\<exists>output t. read_stream (usize_add 1 UTF8_BOUNDARY_LOOKAHEAD)
       \<lparr>sm_chunks = [[CHR 0xE2, CHR 0x82], [CHR 0xAC], ''ab'', [CHR 0xE2, CHR 0x82, CHR 0xAC]], sm_error = None\<rparr> = Inr output \<and>
     truncate_capture output 1 = Inr (t, length t, True)"
proof -
  let ?out = "\<lparr>sm_chunks = [[CHR 0xE2, CHR 0x82], [CHR 0xAC], ''ab'', [CHR 0xE2, CHR 0x82, CHR 0xAC]], sm_error = None\<rparr>"
  have "utf8_valid (concat (sm_chunks ?out))" by code_simp
  moreover have "(1 :: nat) + 3 < USIZE_MAX" by (simp add: USIZE_MAX_def)
  ultimately show ?thesis using capture_never_breaks_characters [of ?out 1] by fastforce
qed

section \<open>Metadata\<close>

text \<open>How a build of tmux prints a text: some bytes, \<open>esc\<close>, as a backslash and three octal digits; the comment in the
  source knows builds that do so with control bytes and builds that print them raw. Backslashes are printed raw,
  or, since the decoder also reads that, doubled (\<open>dbl\<close>). Every other byte is printed as it is.\<close>

definition octal3 :: "char \<Rightarrow> string" where
  "octal3 c = [char_of (48 + byte_of c div 64), char_of (48 + byte_of c div 8 mod 8), char_of (48 + byte_of c mod 8)]"

definition tmux_prints :: "bool \<Rightarrow> (char \<Rightarrow> bool) \<Rightarrow> string \<Rightarrow> string" where
  "tmux_prints dbl esc s =
     concat (map (\<lambda>c. if esc c then BACKSLASH # octal3 c
       else if dbl \<and> c = BACKSLASH then [BACKSLASH, BACKSLASH] else [c]) s)"

text \<open>No raw backslash is printed directly before a backslash, an octal digit or an escape.\<close>

fun unambiguous :: "(char \<Rightarrow> bool) \<Rightarrow> string \<Rightarrow> bool" where
  "unambiguous esc (c # d # s) =
     (\<not> (c = BACKSLASH \<and> (d = BACKSLASH \<or> is_octal d \<or> esc d)) \<and> unambiguous esc (d # s))"
| "unambiguous esc _ = True"

lemma tmux_prints_simps [simp]:
  "tmux_prints dbl esc [] = []"
  "tmux_prints dbl esc (c # s) = (if esc c then BACKSLASH # octal3 c
     else if dbl \<and> c = BACKSLASH then [BACKSLASH, BACKSLASH] else [c]) @ tmux_prints dbl esc s"
  by (simp_all add: tmux_prints_def)

lemma tmux_prints_raw [simp]: "tmux_prints False (\<lambda>_. False) s = s"
  by (induction s) simp_all

lemma byte_less: "byte_of c < 256"
  by simp

lemma octal_digit: "d < 8 \<Longrightarrow> byte_of (char_of (48 + d :: nat)) = 48 + d"
  by simp

lemma octal_sum: "(n div 64 * 8 + n div 8 mod 8) * 8 + n mod 8 = (n :: nat)"
proof -
  have "n div 64 = n div 8 div 8" by (simp add: div_mult2_eq [symmetric])
  then show ?thesis by (metis div_mult_mod_eq)
qed

lemma octal3_digits:
  "octal_digits (octal3 c @ t) = octal3 c" "octal_value (octal3 c) = byte_of c" "is_octal (hd (octal3 c))"
  "hd (octal3 c) \<noteq> BACKSLASH"
proof -
  define x where "x = byte_of c div 64"
  define y where "y = byte_of c div 8 mod 8"
  define z where "z = byte_of c mod 8"
  have c: "octal3 c = [char_of (48 + x), char_of (48 + y), char_of (48 + z)]"
    by (simp add: octal3_def x_def y_def z_def)
  have "byte_of c < 8 * 64" using byte_less [of c] by linarith
  then have "x < 8" "y < 8" "z < 8" by (simp_all add: x_def y_def z_def less_mult_imp_div_less)
  then have d: "byte_of (char_of (48 + x)) = 48 + x" "byte_of (char_of (48 + y)) = 48 + y"
      "byte_of (char_of (48 + z)) = 48 + z" "x < 8" "y < 8" "z < 8"
    by (simp_all only: octal_digit)
  then have oct: "is_octal (char_of (48 + x))" "is_octal (char_of (48 + y))" "is_octal (char_of (48 + z))"
    by (simp_all only: is_octal_def) simp_all
  then show "octal_digits (octal3 c @ t) = octal3 c" "is_octal (hd (octal3 c))"
    by (simp_all add: octal_digits_def c)
  have "\<not> is_octal BACKSLASH" by (simp add: is_octal_def)
  then show "hd (octal3 c) \<noteq> BACKSLASH" using oct(1) unfolding c by (metis list.sel(1))
  have "(x * 8 + y) * 8 + z = byte_of c" unfolding x_def y_def z_def by (rule octal_sum)
  then show "octal_value (octal3 c) = byte_of c"
    unfolding octal_value_def c by (simp only: foldl_Cons foldl_Nil d diff_add_inverse mult_0 add_0)
qed

lemma decode_octal3: "decode_escapes (BACKSLASH # octal3 c @ t) = rbind (decode_escapes t) (\<lambda>out. Inr (c # out))"
proof -
  have small: "\<not> 255 < byte_of c" using byte_less [of c] by linarith
  have c: "hd (octal3 c @ t) = hd (octal3 c)" "octal3 c @ t \<noteq> []"
    "drop (length (octal3 c)) (octal3 c @ t) = t" "char_of (byte_of c) = c"
    by (simp_all add: octal3_def)
  show ?thesis
    unfolding decode_escapes.simps(2) [of BACKSLASH "octal3 c @ t"] octal3_digits(1,2) c
    using octal3_digits(3,4) [of c] c(2) small by simp
qed

lemma decode_tmux_prints: "dbl \<or> unambiguous esc s \<Longrightarrow> decode_escapes (tmux_prints dbl esc s) = Inr s"
proof (induction s)
  case (Cons c s)
  then have IH: "decode_escapes (tmux_prints dbl esc s) = Inr s" by (cases s) auto
  have "tmux_prints dbl esc s = [] \<or> hd (tmux_prints dbl esc s) \<noteq> BACKSLASH \<and> \<not> is_octal (hd (tmux_prints dbl esc s))"
    if "\<not> dbl" "c = BACKSLASH" using Cons.prems that by (cases s) auto
  note raw = this
  show ?case
  proof (cases "esc c")
    case True
    with IH show ?thesis by (simp add: decode_octal3)
  next
    case False
    with IH raw show ?thesis
      by (cases dbl; cases "c = BACKSLASH")
        (auto simp: decode_escapes.simps(2) [of c] decode_escapes.simps(2) [of BACKSLASH])
  qed
qed simp

text \<open>Where the decoder finds an escape its result is shorter than what was printed.\<close>

lemma decode_shortens:
  "decode_escapes s = Inr out \<Longrightarrow>
     length out \<le> length s \<and> (\<not> unambiguous (\<lambda>_. False) s \<longrightarrow> length out < length s)"
proof (induction s arbitrary: out rule: decode_escapes.induct)
  case (2 c s)
  have digits: "0 < length (octal_digits s)" if "s \<noteq> []" "is_octal (hd s)"
    using that by (cases s) (simp_all add: octal_digits_def)
  consider (pair) "c = BACKSLASH" "s \<noteq> []" "hd s = BACKSLASH"
    | (octal) "c = BACKSLASH" "s \<noteq> []" "hd s \<noteq> BACKSLASH" "is_octal (hd s)"
    | (raw) "\<not> (c = BACKSLASH \<and> s \<noteq> [] \<and> (hd s = BACKSLASH \<or> is_octal (hd s)))" by blast
  then show ?case
  proof cases
    case pair
    then obtain rest where "decode_escapes (tl s) = Inr rest" "length out = Suc (length rest)"
      using 2(4) by (auto simp: decode_escapes.simps(2) [of BACKSLASH s] result_simps)
    moreover from this(1) have "length rest \<le> length (tl s)" using 2(1) pair by blast
    ultimately show ?thesis using pair(2) by (cases s) auto
  next
    case octal
    then obtain rest where "decode_escapes (drop (length (octal_digits s)) s) = Inr rest" "length out = Suc (length rest)"
        "octal_value (octal_digits s) \<le> 255"
      using 2(4) by (auto simp: decode_escapes.simps(2) [of BACKSLASH s] result_simps split: if_splits)
    moreover from this(1,3) have "length rest \<le> length (drop (length (octal_digits s)) s)"
      using 2(2) octal by fastforce
    ultimately have "length out \<le> length s"
      using digits [OF octal(2,4)] octal_digits_length(2) [of s] unfolding length_drop by linarith
    then show ?thesis by simp
  next
    case raw
    then obtain rest where "decode_escapes s = Inr rest" "out = c # rest"
      using 2(4) by (auto simp: decode_escapes.simps(2) [of c] result_simps split: if_splits)
    moreover from this(1) have "length rest \<le> length s \<and> (\<not> unambiguous (\<lambda>_. False) s \<longrightarrow> length rest < length s)"
      using 2(3) raw by blast
    ultimately show ?thesis using raw by (cases s) auto
  qed
qed simp

lemma decode_raw_iff: "decode_escapes s = Inr s \<longleftrightarrow> unambiguous (\<lambda>_. False) s"
  using decode_tmux_prints [of False "\<lambda>_. False" s] decode_shortens [of s s] by auto

definition signed_decimal :: "int \<Rightarrow> string" where
  "signed_decimal n = (if n < 0 then CHR ''-'' # decimal (nat (- n)) else decimal (nat n))"

lemma parse_signed_decimal_int:
  "- (2 ^ 31) \<le> n \<Longrightarrow> n < 2 ^ 31 \<Longrightarrow> parse_signed 32 (signed_decimal n) = Some n"
  using parse_signed_decimal [of "nat n" 32]
  by (auto simp: signed_decimal_def parse_signed_def [of 32 "CHR ''-'' # _"] starts_with_def nat_le_iff nat_less_iff)

text \<open>The sixteen fields that \<open>METADATA_FORMAT\<close> asks for.\<close>

definition pane_fields :: "pane_info \<Rightarrow> string list" where
  "pane_fields p =
     (let i = pn_identity p; number = (\<lambda>n :: u64. decimal (unat n)) in
      [mi_server i, mi_session_id i, pn_session_name p, mi_window_id i, pn_window_name p,
       decimal (unat (pn_window_index p)), mi_pane_id i, decimal (unat (pn_pane_index p)), mi_tty i,
       decimal (unat (pi_pid (mi_process i))), pn_current_command p, pn_current_path p,
       if pn_dead p then ''1'' else ''0'', case_option [] signed_decimal (pn_dead_status p),
       case_option [] number (pn_started_at p), case_option [] number (pn_dead_at p)])"

text \<open>A pane that tmux can report: its identifiers are not empty, its exit status is an \<open>i32\<close>, and no name holds
  the separator.\<close>

definition reportable :: "pane_info \<Rightarrow> bool" where
  "reportable p =
     (let i = pn_identity p in
      mi_provider i = ''tmux'' \<and> mi_server_instance i = mi_server i \<and> pn_server_id p = mi_server i
      \<and> pn_pane_title p = pn_window_name p
      \<and> list_all (\<lambda>s. s \<noteq> []) [mi_server i, mi_session_id i, mi_window_id i, mi_pane_id i, mi_tty i]
      \<and> (case pn_dead_status p of None \<Rightarrow> True | Some n \<Rightarrow> - (2 ^ 31) \<le> n \<and> n < 2 ^ 31)
      \<and> list_all (\<lambda>s. FIELD_SEPARATOR \<notin> set s) (pane_fields p))"

lemma split_join_separated:
  "list_all (\<lambda>s. x \<notin> set s) gs \<Longrightarrow> gs \<noteq> [] \<Longrightarrow> split_when (\<lambda>c. c = x) (str_join [x] gs) = gs"
proof (induction "[x]" gs rule: str_join.induct)
  case (2 g)
  then show ?case by (induction g) auto
next
  case (3 g h gs)
  have "split_when (\<lambda>c. c = x) (g @ x # t) = g # split_when (\<lambda>c. c = x) t" for t
    using 3(2) by (induction g) auto
  with 3 show ?case by simp
qed simp

lemma check_pane_fields:
  assumes "reportable p"
  shows "check_fields (pane_fields p) = Inr (pn_dead p, pi_pid (mi_process (pn_identity p)))"
  using assms unat_below [of "pi_pid (mi_process (pn_identity p))"]
  by (simp add: check_fields_def required_fields_def pane_fields_def reportable_def Let_def number_field_def)

lemma pane_of_pane_fields:
  assumes "reportable p"
  shows "pane_of_fields (pane_fields p) (pn_dead p) (mi_process (pn_identity p)) = Inr p"
proof -
  have u64: "unat n < 18446744073709551616" for n :: u64 using unat_below [of n] by simp
  have number: "optional_field (\<lambda>s. map_option of_nat (parse_unsigned 64 s)) fs i = Inr x"
    if "fs ! i = case_option [] (\<lambda>n. decimal (unat n)) x" for fs i and x :: "u64 option"
    using that u64 by (auto simp: optional_field_def split: option.splits)
  have status: "optional_field (parse_signed 32) (pane_fields p) 13 = Inr (pn_dead_status p)"
    using assms by (auto simp: optional_field_def pane_fields_def reportable_def Let_def parse_signed_decimal_int
        signed_decimal_def [of _, THEN arg_cong [of _ _ "\<lambda>s. s = []"]] split: option.splits)
  have index: "number_field fs i name = Inr n" if "fs ! i = decimal (unat n)" for fs i name and n :: u32
    using that unat_below [of n] by (simp add: number_field_def)
  show ?thesis
    unfolding pane_of_fields_def status
    using assms number [of "pane_fields p" 14 "pn_started_at p"] number [of "pane_fields p" 15 "pn_dead_at p"]
      index [of "pane_fields p" 5 "pn_window_index p"] index [of "pane_fields p" 7 "pn_pane_index p"]
    by (simp add: pane_fields_def reportable_def Let_def)
qed

lemma parse_pane:
  assumes "reportable p" "decode_tmux_display_escapes printed = Inr (str_join [FIELD_SEPARATOR] (pane_fields p))"
    and "os_inspect os (pi_pid (mi_process (pn_identity p))) s = (Inr r, s')"
    and "record_identity r = mi_process (pn_identity p)"
  shows "parse_metadata os printed s = (Inr p, s')"
proof -
  have "list_all (\<lambda>s. FIELD_SEPARATOR \<notin> set s) (pane_fields p)" "pane_fields p \<noteq> []"
    using assms(1) by (simp_all add: reportable_def Let_def pane_fields_def)
  from split_join_separated [OF this] assms(2-4) check_pane_fields [OF assms(1)] pane_of_pane_fields [OF assms(1)]
  show ?thesis by (simp add: parse_metadata_def Let_def)
qed

text \<open>C26: Metadata reads back exactly where it can. For every reportable pane, whichever bytes the installed tmux
  prints in octal, \<open>parse_metadata\<close> returns that pane, provided that the process table still shows the process
  and that the build doubles its backslashes or no backslash of the sixteen fields stands directly before a
  backslash, an octal digit or an escaped byte. The proviso is not idle: a build that prints everything raw has
  its line decoded to itself exactly when there is no such backslash, so that a session, window or directory
  name such as \<open>a\101\<close> is read as another name.\<close>

theorem pane_metadata_roundtrip:
  assumes "reportable p" "line = str_join [FIELD_SEPARATOR] (pane_fields p)" "utf8_valid line"
    and "os_inspect os (pi_pid (mi_process (pn_identity p))) s = (Inr r, s')"
    and "record_identity r = mi_process (pn_identity p)"
  shows "(dbl \<or> unambiguous esc line \<longrightarrow> parse_metadata os (tmux_prints dbl esc line) s = (Inr p, s')) \<and>
    (decode_tmux_display_escapes line = Inr line \<longleftrightarrow> unambiguous (\<lambda>_. False) line)"
proof
  have "decode_tmux_display_escapes (tmux_prints dbl esc line) = Inr line" if "dbl \<or> unambiguous esc line"
    using decode_tmux_prints [OF that] assms(3) by (simp add: decode_tmux_display_escapes_def)
  with parse_pane [OF assms(1) _ assms(4,5)] assms(2)
  show "dbl \<or> unambiguous esc line \<longrightarrow> parse_metadata os (tmux_prints dbl esc line) s = (Inr p, s')" by blast
  show "decode_tmux_display_escapes line = Inr line \<longleftrightarrow> unambiguous (\<lambda>_. False) line"
    using assms(3) by (auto simp: decode_tmux_display_escapes_def result_simps decode_raw_iff [symmetric] split: if_splits)
qed

text \<open>The build that the source mentions: control bytes in octal, everything else raw.\<close>

definition octal_build :: "string \<Rightarrow> string" where
  "octal_build = tmux_prints False (\<lambda>c. byte_of c < 32)"

definition example_pane_record :: process_record where
  "example_pane_record = (synthetic 7 1 9 ''claude'')\<lparr>pr_tty := Some ''/dev/pts/1''\<rparr>"

definition example_pane :: pane_info where
  "example_pane =
     \<lparr>pn_identity = \<lparr>mi_provider = ''tmux'', mi_server_instance = ''/tmp/s'', mi_server = ''/tmp/s'', mi_session_id = ''$0'',
        mi_window_id = ''@1'', mi_pane_id = ''%2'', mi_tty = ''/dev/pts/1'', mi_process = record_identity example_pane_record\<rparr>,
      pn_server_id = ''/tmp/s'', pn_session_name = ''a'' @ [BACKSLASH] @ ''b'', pn_window_name = [], pn_window_index = 3,
      pn_pane_index = 0, pn_pane_title = [], pn_current_command = ''claude'', pn_current_path = ''/home'',
      pn_dead = True, pn_dead_status = Some (- 1), pn_started_at = Some 8, pn_dead_at = None\<rparr>"

text \<open>The outside world of the examples: tmux reports the pane, shows a screen, and accepts keys.\<close>

definition example_tmux_os :: "string \<Rightarrow> unit tmux_os" where
  "example_tmux_os screen =
     \<lparr>os_env = \<lambda>_. None,
      os_spawn = \<lambda>program args timeout s.
        (Inr \<lparr>ch_end = Exited True,
           ch_stdout = \<lparr>sm_chunks =
             [if args ! 2 = ''capture-pane'' then screen
              else if args ! 2 = ''display-message''
              then octal_build (str_join [FIELD_SEPARATOR] (pane_fields example_pane)) else []], sm_error = None\<rparr>,
           ch_stderr = \<lparr>sm_chunks = [], sm_error = None\<rparr>\<rparr>, s),
      os_inspect = \<lambda>_ s. (Inr example_pane_record, s), os_instant = \<lambda>s. (0, s), os_process_debug = \<lambda>_. []\<rparr>"

lemma example_pane_reportable: "reportable example_pane"
  by code_simp

lemma example_pane_utf8: "utf8_valid (str_join [FIELD_SEPARATOR] (pane_fields example_pane))"
  by code_simp

lemma example_pane_unambiguous:
  "unambiguous (\<lambda>c. byte_of c < 32) (str_join [FIELD_SEPARATOR] (pane_fields example_pane))"
  by code_simp

theorem pane_metadata_roundtrip_witness:
  "parse_metadata (example_tmux_os []) (octal_build (str_join [FIELD_SEPARATOR] (pane_fields example_pane))) ()
     = (Inr example_pane, ())"
proof -
  have "os_inspect (example_tmux_os []) (pi_pid (mi_process (pn_identity example_pane))) () = (Inr example_pane_record, ())"
    "record_identity example_pane_record = mi_process (pn_identity example_pane)"
    by (simp_all add: example_tmux_os_def example_pane_def)
  from pane_metadata_roundtrip [OF example_pane_reportable refl example_pane_utf8 this] example_pane_unambiguous
  show ?thesis unfolding octal_build_def by blast
qed

text \<open>A session called \<open>a\101\<close>, printed raw, is reported as \<open>aA\<close>; and one that ends in a backslash, printed with octal
  separators, loses the separator, so that the line is refused.\<close>

lemma raw_backslash_is_misread:
  assumes "p = example_pane\<lparr>pn_session_name := ''a'' @ [BACKSLASH] @ ''101''\<rparr>"
  shows "reportable p \<and> parse_metadata (example_tmux_os []) (str_join [FIELD_SEPARATOR] (pane_fields p)) ()
       = (Inr (p\<lparr>pn_session_name := ''aA''\<rparr>), ())"
proof
  show "reportable p" unfolding assms by code_simp
  have "reportable (p\<lparr>pn_session_name := ''aA''\<rparr>)"
    "decode_tmux_display_escapes (str_join [FIELD_SEPARATOR] (pane_fields p)) =
       Inr (str_join [FIELD_SEPARATOR] (pane_fields (p\<lparr>pn_session_name := ''aA''\<rparr>)))"
    unfolding assms by code_simp+
  then show "parse_metadata (example_tmux_os []) (str_join [FIELD_SEPARATOR] (pane_fields p)) ()
       = (Inr (p\<lparr>pn_session_name := ''aA''\<rparr>), ())"
    by (rule parse_pane) (simp_all add: assms example_tmux_os_def example_pane_def)
qed

lemma trailing_backslash_is_refused:
  "let p = example_pane\<lparr>pn_session_name := ''a'' @ [BACKSLASH]\<rparr> in reportable p \<and>
     parse_metadata (example_tmux_os []) (octal_build (str_join [FIELD_SEPARATOR] (pane_fields p))) ()
       = (Inl (mux_error.Malformed ''expected 16 fields, got 15''), ())"
  by code_simp

end
