(* ===== verification/Tmux_Typing.thy ===== *)
theory Tmux_Typing
  imports Tmux_Properties Executor
begin

text \<open>
  What reaches the terminal through the tmux client. The locale \<open>typing_multiplexer\<close> is what the multiplexer actuator
  relies on: checks and captures type nothing, and a call that types does so at most once, exactly once when it
  reports success. The tmux client with the daemon's composer check interprets it. Then the trace of
  commands around a typed text, and the screen that the composer check leaves unseen.
\<close>

section \<open>The contract\<close>

definition types_once :: "('w \<Rightarrow> nat) \<Rightarrow> 'w \<Rightarrow> ('e, 'a) result \<times> 'w \<Rightarrow> bool" where
  "types_once typed w call \<longleftrightarrow>
     typed w \<le> typed (snd call) \<and> typed (snd call) \<le> Suc (typed w) \<and> (is_ok (fst call) \<longrightarrow> typed (snd call) = Suc (typed w))"

text \<open>How often an action types when it succeeds.\<close>

fun keystrokes :: "action_kind \<Rightarrow> nat" where
  "keystrokes (SendText _) = 1"
| "keystrokes (SubmitText _) = 1"
| "keystrokes (SendKeys keys) = length keys"
| "keystrokes _ = 0"

locale typing_multiplexer =
  fixes mux :: "'w multiplexer" and typed :: "'w \<Rightarrow> nat"
  assumes validate_typed: "typed (snd (mux_validate_identity mux i w)) = typed w"
    and capture_typed: "typed (snd (mux_capture_tail mux i n b w)) = typed w"
    and literal_typed: "types_once typed w (mux_send_literal mux i text w)"
    and submit_typed: "types_once typed w (mux_submit_literal mux i text w)"
    and key_typed: "types_once typed w (mux_send_key mux i key w)"
begin

lemma loop_typed:
  "typed w \<le> typed (snd (send_keys_loop mux i keys w)) \<and>
   typed (snd (send_keys_loop mux i keys w)) \<le> typed w + length keys \<and>
   (is_ok (fst (send_keys_loop mux i keys w)) \<longrightarrow> typed (snd (send_keys_loop mux i keys w)) = typed w + length keys)"
proof (induction keys arbitrary: w)
  case (Cons k ks)
  show ?case
  proof (cases "symbolic_key_of k")
    case (Some key)
    obtain r w1 where call: "mux_send_key mux i key w = (r, w1)" by fastforce
    from key_typed [of w i key] Cons.IH [of w1] show ?thesis
      by (cases r) (auto simp: Some call types_once_def possible_side_effect_def)
  qed simp
qed simp

lemma kind_typed:
  "typed w \<le> typed (snd (mux_kind_execute mux i src k w)) \<and>
   typed (snd (mux_kind_execute mux i src k w)) \<le> typed w + keystrokes k \<and>
   (is_ok (fst (mux_kind_execute mux i src k w)) \<longrightarrow> typed (snd (mux_kind_execute mux i src k w)) = typed w + keystrokes k)"
proof (cases k)
  case (SendText tx)
  with literal_typed [of w i tx] show ?thesis
    by (cases "mux_send_literal mux i tx w") (auto simp: types_once_def split: sum.splits)
next
  case (SubmitText tx)
  with submit_typed [of w i tx] show ?thesis
    by (cases "mux_submit_literal mux i tx w") (auto simp: types_once_def split: sum.splits)
next
  case (SendKeys keys)
  then show ?thesis using loop_typed by simp
next
  case (Capture requested n)
  with capture_typed [of i "unat n" MAX_CAPTURE_BYTES w] show ?thesis
    by (cases "mux_capture_tail mux i (unat n) MAX_CAPTURE_BYTES w") (auto split: sum.splits)
qed simp_all

lemma execute_typed:
  assumes "mux_execute parse mux i src a w = (r, w')"
  shows "typed w \<le> typed w'" "typed w' \<le> typed w + keystrokes (act_kind a)"
    and "is_ok r \<Longrightarrow> typed w' = typed w + keystrokes (act_kind a)"
    and "r = Inl err \<Longrightarrow> (\<And>msg. err \<noteq> Raised (PossibleSideEffect msg)) \<Longrightarrow> typed w' = typed w"
proof -
  have checked: "typed w1 = typed w" if "mux_validate_identity mux i w = (x, w1)" for x w1
    using validate_typed [of i w] that by simp
  have kind: "typed w1 \<le> typed w'" "typed w' \<le> typed w1 + keystrokes (act_kind a)"
      "is_ok r \<Longrightarrow> typed w' = typed w1 + keystrokes (act_kind a)"
    if "mux_kind_execute mux i src (act_kind a) w1 = (r, w')" for w1
    using kind_typed [of w1 i src "act_kind a"] that by auto
  show "typed w \<le> typed w'" "typed w' \<le> typed w + keystrokes (act_kind a)"
    "is_ok r \<Longrightarrow> typed w' = typed w + keystrokes (act_kind a)"
    using assms by (auto simp: mux_execute_def integration_def dest!: checked dest: kind split: sum.splits prod.splits)
  show "typed w' = typed w" if err: "r = Inl err" "\<And>msg. err \<noteq> Raised (PossibleSideEffect msg)"
  proof (cases "is_input (act_kind a)")
    case False
    then have "keystrokes (act_kind a) = 0" by (cases "act_kind a") auto
    then show ?thesis using \<open>typed w \<le> typed w'\<close> \<open>typed w' \<le> typed w + keystrokes (act_kind a)\<close> by simp
  next
    case True
    show ?thesis
    proof (cases "validate_action parse a")
      case (Inr u)
      obtain x w1 where v: "mux_validate_identity mux i w = (x, w1)" by fastforce
      have "x \<noteq> Inr y" for y
      proof
        assume "x = Inr y"
        then have k: "mux_kind_execute mux i src (act_kind a) w1 = (Inl err, w')"
          using assms Inr v err(1) by (simp add: mux_execute_def)
        then obtain e where e: "err = Raised e"
          using mux_kind_execute_no_panic [OF Inr True, of mux i src w1] by (cases err) auto
        with mux_kind_execute_err [of mux i src "act_kind a" w1 e w'] k True err(2) show False by auto
      qed
      then show ?thesis using assms Inr v checked by (cases x) (auto simp: mux_execute_def)
    qed (use assms in \<open>auto simp: mux_execute_def\<close>)
  qed
qed

end

section \<open>The commands of the client\<close>

definition types :: "ran \<Rightarrow> bool" where
  "types e = (ran_args e \<noteq> [] \<and> hd (ran_args e) = ''send-keys'')"

definition typed :: "'o tmux_world \<Rightarrow> nat" where
  "typed w = length (filter types (tw_log w))"

text \<open>The world after a call that typed nothing.\<close>

definition quiet :: "'o tmux_world \<Rightarrow> 'o tmux_world \<Rightarrow> bool" where
  "quiet w w' \<longleftrightarrow> (\<exists>l. tw_log w' = tw_log w @ l \<and> filter types l = [])"

lemma quiet_refl [simp]: "quiet w w"
  by (simp add: quiet_def)

lemma quiet_trans: "quiet w w1 \<Longrightarrow> quiet w1 w2 \<Longrightarrow> quiet w w2"
  by (fastforce simp: quiet_def)

lemma quiet_typed: "quiet w w' \<Longrightarrow> typed w' = typed w"
  by (auto simp: quiet_def typed_def)

text \<open>A log entry that confirms the identity: the query for the pane, whose answer reads as the expected pane.\<close>

definition confirms :: "'o tmux_os \<Rightarrow> mux_identity \<Rightarrow> ran \<Rightarrow> bool" where
  "confirms os i e \<longleftrightarrow> ran_args e = [''display-message'', ''-p'', ''-t'', mi_pane_id i, METADATA_FORMAT] \<and>
     (\<exists>out s info s'. ran_result e = Inr out \<and> parse_metadata os (trim_end out) s = (Inr info, s') \<and>
        identity_matches i (pn_identity info))"

lemma on_os_log: "on_os f w = (x, w') \<Longrightarrow> tw_log w' = tw_log w"
  by (auto simp: on_os_def split: prod.splits)

lemma run_log:
  "tmux_run os t args limit w = (r, w') \<Longrightarrow> tw_log w' = tw_log w @ [\<lparr>ran_args = args, ran_result = r\<rparr>]"
  by (auto simp: tmux_run_def dest: on_os_log split: prod.splits)

lemma run_quiet:
  "tmux_run os t args limit w = (r, w') \<Longrightarrow> args \<noteq> [] \<Longrightarrow> hd args \<noteq> ''send-keys'' \<Longrightarrow> quiet w w'"
  by (auto simp: quiet_def types_def dest: run_log)

lemma query_cases:
  assumes "tmux_query os t target w = (r, w')"
  obtains e where "tw_log w' = tw_log w" "r = Inl e"
  | out where "tw_log w' = tw_log w @ [\<lparr>ran_args = [''display-message'', ''-p'', ''-t'', target, METADATA_FORMAT], ran_result = out\<rparr>]"
      "\<And>info. r = Inr info \<Longrightarrow> \<exists>tx s s'. out = Inr tx \<and> parse_metadata os (trim_end tx) s = (Inr info, s')"
proof (cases "validate_argument target")
  case (Inr u)
  let ?args = "[''display-message'', ''-p'', ''-t'', target, METADATA_FORMAT]"
  obtain out w1 where run: "tmux_run os t ?args OUTPUT_LIMIT w = (out, w1)" by fastforce
  note log = run_log [OF run]
  show ?thesis
  proof (cases out)
    case (Inl e)
    then show ?thesis using assms Inr run log that(2) [of out] by (auto simp: tmux_query_def)
  next
    case out: (Inr o')
    show ?thesis
    proof (cases "utf8_valid o'")
      case True
      then have "on_os (parse_metadata os (trim_end o')) w1 = (r, w')" using assms Inr run out by (simp add: tmux_query_def)
      then have "tw_log w' = tw_log w1" "\<exists>s s'. parse_metadata os (trim_end o') s = (r, s')"
        by (auto simp: on_os_def split: prod.splits)
      then show ?thesis using log that(2) [of out] out by auto
    qed (use assms Inr run out log that(2) [of out] in \<open>auto simp: tmux_query_def\<close>)
  qed
qed (use assms that(1) in \<open>auto simp: tmux_query_def\<close>)

lemma validate_log:
  assumes "tmux_validate_identity os t i w = (r, w')"
  shows "quiet w w'" and "r = Inr u \<Longrightarrow> \<exists>e. tw_log w' = tw_log w @ [e] \<and> confirms os i e"
proof -
  obtain q where q: "tmux_query os t (mi_pane_id i) w = (q, w')"
    using assms by (auto simp: tmux_validate_identity_def Let_def split: prod.splits sum.splits)
  show "quiet w w'"
    using q by (cases rule: query_cases) (auto simp: quiet_def types_def)
  assume "r = Inr u"
  then obtain info where "q = Inr info" "identity_matches i (pn_identity info)"
    using assms q by (cases q) (auto simp: tmux_validate_identity_def Let_def split: if_splits)
  with q show "\<exists>e. tw_log w' = tw_log w @ [e] \<and> confirms os i e"
    by (cases rule: query_cases) (auto simp: confirms_def)
qed

text \<open>A log entry of a capture whose kept text ends in a blank line.\<close>

definition shows_blank_bottom :: "mux_identity \<Rightarrow> ran \<Rightarrow> bool" where
  "shows_blank_bottom i e \<longleftrightarrow> ran_args e = capture_arguments (mi_pane_id i) ''-3'' \<and>
     (\<exists>out tx n cut. ran_result e = Inr out \<and> truncate_capture out 1024 = Inr (tx, n, cut) \<and> bottom_is_blank tx)"

lemma capture_quiet:
  assumes "tmux_capture_tail os t i lines max_bytes w = (r, w')"
  shows "quiet w w'"
proof -
  have cap: "quiet w2 w3" if "tmux_run os t (capture_arguments p l) limit w2 = (x, w3)" for w2 w3 x p l limit
    using run_quiet [OF that] by (simp add: capture_arguments_def)
  have inst: "quiet w2 w3" if "on_os f w2 = (x, w3)" for f w2 w3 and x :: 'c
    using on_os_log [OF that] by (simp add: quiet_def)
  show ?thesis
    using assms
    by (auto simp: tmux_capture_tail_def dest!: validate_log(1) cap inst split: prod.splits sum.splits if_splits)
      (blast intro: quiet_trans)+
qed

lemma capture_log:
  assumes "tmux_capture_tail os t i 3 1024 w = (Inr c, w')"
  shows "\<exists>q1 e q2 out. tw_log w' = tw_log w @ [q1, e, q2] \<and> confirms os i q1 \<and> confirms os i q2 \<and>
    e = \<lparr>ran_args = capture_arguments (mi_pane_id i) ''-3'', ran_result = Inr out\<rparr> \<and>
    truncate_capture out 1024 = Inr (cap_text c, cap_bytes c, cap_truncated c)"
proof -
  have three: "CHR ''-'' # decimal 3 = ''-3''" by code_simp
  obtain w1 start w2 out w3 w4 tx n cut now where
    v1: "tmux_validate_identity os t i w = (Inr (), w1)" and i1: "on_os (os_instant os) w1 = (start, w2)" and
    run: "tmux_run os t (capture_arguments (mi_pane_id i) ''-3'') (usize_add 1024 UTF8_BOUNDARY_LOOKAHEAD) w2 = (Inr out, w3)" and
    v2: "tmux_validate_identity os t i w3 = (Inr (), w4)" and
    tr: "truncate_capture out 1024 = Inr (tx, n, cut)" and i2: "on_os (os_instant os) w4 = (now, w')" and
    c: "cap_text c = tx" "cap_bytes c = n" "cap_truncated c = cut"
    using assms unfolding tmux_capture_tail_def three by (auto split: prod.splits sum.splits)
  obtain q1 q2 where "tw_log w1 = tw_log w @ [q1]" "confirms os i q1" "tw_log w4 = tw_log w3 @ [q2]" "confirms os i q2"
    using validate_log(2) [OF v1] validate_log(2) [OF v2] by blast
  then show ?thesis
    using on_os_log [OF i1] on_os_log [OF i2] run_log [OF run] tr c by auto
qed

lemma composer_quiet: "tmux_composer os t i w = (r, w') \<Longrightarrow> quiet w w'"
  by (auto simp: tmux_composer_def dest: capture_quiet split: prod.splits sum.splits)

lemma composer_log:
  assumes "tmux_composer os t i w = (Inr ComposerSafe, w')"
  shows "\<exists>q1 e q2. tw_log w' = tw_log w @ [q1, e, q2] \<and> confirms os i q1 \<and> shows_blank_bottom i e \<and> confirms os i q2"
proof -
  obtain c where c: "tmux_capture_tail os t i 3 1024 w = (Inr c, w')" "bottom_is_blank (cap_text c)"
    using assms by (auto simp: tmux_composer_def split: prod.splits sum.splits if_splits)
  from capture_log [OF c(1)] c(2) show ?thesis by (auto simp: shows_blank_bottom_def)
qed

lemma require_safe_eq:
  "require_safe safety i w = (r, w') \<Longrightarrow> snd (safety i w) = w' \<and> (r = Inr u \<longrightarrow> safety i w = (Inr ComposerSafe, w'))"
  by (auto simp: require_safe_def split: prod.splits sum.splits if_splits)

text \<open>The six commands around a typed text.\<close>

lemma guarded_send_cases:
  assumes "guarded_send os t i args (tmux_composer os t) w = (r, w')"
  obtains e where "r = Inl e" "quiet w w'"
  | q1 q2 c q3 q4 out w3 where "r = rbind out (\<lambda>_. Inr ())" "quiet w w3" "tw_log w3 = tw_log w @ [q1, q2, c, q3, q4]"
      "tw_log w' = tw_log w3 @ [\<lparr>ran_args = args, ran_result = out\<rparr>]"
      "list_all (confirms os i) [q1, q2, q3, q4]" "shows_blank_bottom i c"
proof -
  obtain r1 w1 where v1: "tmux_validate_identity os t i w = (r1, w1)" by fastforce
  obtain r2 w2 where s: "require_safe (tmux_composer os t) i w1 = (r2, w2)" by fastforce
  obtain r3 w3 where v2: "tmux_validate_identity os t i w2 = (r3, w3)" by fastforce
  obtain out w4 where run: "tmux_run os t args OUTPUT_LIMIT w3 = (out, w4)" by fastforce
  have q: "quiet w w1" "quiet w1 w2" "quiet w2 w3"
    using validate_log(1) [OF v1] validate_log(1) [OF v2] require_safe_eq [OF s] composer_quiet [of os t i w1]
    by (auto simp: prod_eq_iff)
  show thesis
  proof (cases "is_ok r1 \<and> is_ok r2 \<and> is_ok r3")
    case True
    then have ok: "r1 = Inr ()" "r2 = Inr ()" "r3 = Inr ()" by (auto simp: is_ok_iff)
    obtain q1 q4 where e: "tw_log w1 = tw_log w @ [q1]" "confirms os i q1" "tw_log w3 = tw_log w2 @ [q4]" "confirms os i q4"
      using validate_log(2) [OF v1 ok(1)] validate_log(2) [OF v2 ok(3)] by blast
    obtain q2 c q3 where f: "tw_log w2 = tw_log w1 @ [q2, c, q3]" "confirms os i q2" "shows_blank_bottom i c" "confirms os i q3"
      using composer_log [of os t i w1 w2] require_safe_eq [OF s] ok(2) by blast
    show ?thesis
      by (rule that(2) [of out w3 q1 q2 c q3 q4])
        (use assms v1 s v2 run ok e f run_log [OF run] q in \<open>auto simp: guarded_send_def intro: quiet_trans\<close>)
  next
    case False
    have "quiet w w2" "quiet w w3" using q by (blast intro: quiet_trans)+
    with False show ?thesis
      using assms v1 s v2 run q that(1)
      by (cases r1; cases r2; cases r3) (auto simp: guarded_send_def)
  qed
qed

section \<open>The client keeps the contract\<close>

lemma guarded_send_types_once:
  assumes "args \<noteq> []" "hd args = ''send-keys''"
  shows "types_once typed w (guarded_send os t i args (tmux_composer os t) w)"
proof -
  obtain r w' where g: "guarded_send os t i args (tmux_composer os t) w = (r, w')" by fastforce
  then show ?thesis
  proof (cases rule: guarded_send_cases)
    case (1 e)
    then show ?thesis by (simp add: g types_once_def quiet_typed)
  next
    case (2 q1 q2 c q3 q4 out w3)
    have "typed w' = Suc (typed w3)" using 2(4) assms by (simp add: typed_def types_def)
    with quiet_typed [OF 2(2)] show ?thesis by (simp add: g types_once_def)
  qed
qed

interpretation tm: typing_multiplexer "tmux_multiplexer os t (tmux_composer os t)" "typed :: 'o tmux_world \<Rightarrow> nat"
proof unfold_locales
  fix w :: "'o tmux_world" and i n b tx key
  show "typed (snd (mux_validate_identity (tmux_multiplexer os t (tmux_composer os t)) i w)) = typed w"
    by (simp add: tmux_multiplexer_def) (rule quiet_typed [OF validate_log(1) [OF prod.collapse [symmetric]]])
  show "typed (snd (mux_capture_tail (tmux_multiplexer os t (tmux_composer os t)) i n b w)) = typed w"
    by (simp add: tmux_multiplexer_def) (rule quiet_typed [OF capture_quiet [OF prod.collapse [symmetric]]])
  show "types_once typed w (mux_send_literal (tmux_multiplexer os t (tmux_composer os t)) i tx w)"
    using guarded_send_types_once [of "literal_arguments (mi_pane_id i) tx" w os t i]
    by (auto simp: tmux_multiplexer_def tmux_send_literal_def literal_arguments_def types_once_def split: sum.split)
  show "types_once typed w (mux_submit_literal (tmux_multiplexer os t (tmux_composer os t)) i tx w)"
    by (simp add: tmux_multiplexer_def submit_literal_default_def types_once_def)
  show "types_once typed w (mux_send_key (tmux_multiplexer os t (tmux_composer os t)) i key w)"
    using guarded_send_types_once [of "symbolic_arguments (mi_pane_id i) key" w os t i]
    by (simp add: tmux_multiplexer_def tmux_send_key_def symbolic_arguments_def)
qed

text \<open>C4: For a watcher in a tmux pane, the executor types what the action says and no more: at most as many
  \<open>send-keys\<close> commands as the action has keystrokes, exactly that many when it reports success, and none at all
  when it reports an error other than a possible side effect. This holds for every behaviour of tmux and
  of the operating system.\<close>

theorem tmux_executor_types_as_told:
  assumes "observation_context (ws_target w) = Some (Tmux socket c1 c2 c3 c4 c5)"
    and "execute_mux_action (tmux_host os h) w a s = (r, s')"
  shows "typed s \<le> typed s' \<and> typed s' \<le> typed s + keystrokes (act_kind a) \<and>
    (is_ok r \<longrightarrow> typed s' = typed s + keystrokes (act_kind a)) \<and>
    (\<forall>e. r = Inl e \<and> (\<forall>msg. e \<noteq> PossibleSideEffect msg) \<longrightarrow> typed s' = typed s)"
proof -
  let ?t = "for_socket_path socket (dur_from_secs 2)"
  let ?mux = "tmux_multiplexer os ?t (tmux_composer os ?t)"
  have adapter: "ho_adapter (tmux_host os h) (Tmux socket c1 c2 c3 c4 c5) (composer_observe (tmux_host os h) w) = Inr ?mux"
    unfolding tmux_composer_observe [OF assms(1)] by (simp add: tmux_host_def)
  consider e where "s' = s" "r = Inl e"
    | i src m where "mux_execute (ho_parse (tmux_host os h)) ?mux i src a s = (m, s')" "r = raised m"
    using assms(2) adapter
    by (auto simp: execute_mux_action_def assms(1) split: option.splits sum.splits prod.splits)
  then show ?thesis
  proof cases
    case 2
    note once = tm.execute_typed [OF 2(1)]
    have "m = Inl (Raised e)" if "r = Inl e" "\<forall>msg. e \<noteq> PossibleSideEffect msg" for e
      using that 2(2) by (cases m rule: raised.cases) auto
    moreover have "is_ok m" if "is_ok r" using that 2(2) by (cases m rule: raised.cases) auto
    ultimately show ?thesis using once by fastforce
  qed simp
qed

text \<open>C3: A text is typed only into a pane that was checked twice, around a look at its composer. If a call of
  \<open>send_literal\<close> ran any \<open>send-keys\<close>, then it ran exactly these six commands: a query that confirmed the
  identity; the composer check, which is a query, a capture whose kept text ends in a blank line, and a
  query; a query; and the text, which has no control characters, to the same pane. Success means that
  the last command succeeded.\<close>

theorem tmux_types_only_between_checks:
  assumes "tmux_send_literal os t (tmux_composer os t) i content w = (r, w')" "typed w' \<noteq> typed w"
  shows "list_all (\<lambda>c. \<not> is_control c) (str_chars content) \<and>
    (\<exists>q1 q2 c q3 q4 out. tw_log w' = tw_log w @ [q1, q2, c, q3, q4,
         \<lparr>ran_args = literal_arguments (mi_pane_id i) content, ran_result = out\<rparr>] \<and>
       list_all (confirms os i) [q1, q2, q3, q4] \<and> shows_blank_bottom i c \<and> (is_ok r \<longleftrightarrow> is_ok out))"
proof -
  have lit: "validate_literal content = Inr ()"
      and send: "guarded_send os t i (literal_arguments (mi_pane_id i) content) (tmux_composer os t) w = (r, w')"
    using assms by (auto simp: tmux_send_literal_def split: sum.splits)
  from send show ?thesis
  proof (cases rule: guarded_send_cases)
    case (1 e)
    then show ?thesis using assms(2) quiet_typed by blast
  next
    case (2 q1 q2 c q3 q4 out w3)
    have "is_ok r \<longleftrightarrow> is_ok out" using 2(1) by (cases out) simp_all
    moreover have "tw_log w' = tw_log w @ [q1, q2, c, q3, q4,
        \<lparr>ran_args = literal_arguments (mi_pane_id i) content, ran_result = out\<rparr>]" using 2(3,4) by simp
    moreover have "list_all (\<lambda>c. \<not> is_control c) (str_chars content)"
      using lit by (auto simp: validate_literal_def list_ex_iff list_all_iff split: if_splits)
    ultimately show ?thesis using 2(5,6) by blast
  qed
qed

section \<open>What the composer check sees\<close>

text \<open>A pane under examination: its identity holds, and tmux prints a screen and accepts keys.\<close>

definition pane_shows :: "'o tmux_os \<Rightarrow> tmux \<Rightarrow> mux_identity \<Rightarrow> string \<Rightarrow> bool" where
  "pane_shows os t i screen \<longleftrightarrow>
     (\<forall>w. \<exists>w'. tmux_validate_identity os t i w = (Inr (), w')) \<and>
     (\<forall>w. \<exists>w'. tmux_run os t (capture_arguments (mi_pane_id i) ''-3'') (usize_add 1024 UTF8_BOUNDARY_LOOKAHEAD) w
        = (Inr (take 1028 screen), w')) \<and>
     (\<forall>w content. \<exists>w'. tmux_run os t (literal_arguments (mi_pane_id i) content) OUTPUT_LIMIT w = (Inr [], w'))"

lemma composer_of_pane:
  assumes "pane_shows os t i screen" "truncate_capture (take 1028 screen) 1024 = Inr (kept, n, m)"
  shows "\<exists>w'. tmux_composer os t i w = (Inr (if bottom_is_blank kept then ComposerSafe else ComposerUnsafe), w')"
proof -
  have three: "CHR ''-'' # decimal 3 = ''-3''" by code_simp
  obtain w1 where v1: "tmux_validate_identity os t i w = (Inr (), w1)" using assms(1) unfolding pane_shows_def by blast
  obtain a w2 where i1: "on_os (os_instant os) w1 = (a, w2)" by fastforce
  obtain w3 where run: "tmux_run os t (capture_arguments (mi_pane_id i) ''-3'') (usize_add 1024 UTF8_BOUNDARY_LOOKAHEAD) w2
      = (Inr (take 1028 screen), w3)" using assms(1) unfolding pane_shows_def by blast
  obtain w4 where v2: "tmux_validate_identity os t i w3 = (Inr (), w4)" using assms(1) unfolding pane_shows_def by blast
  obtain b w5 where i2: "on_os (os_instant os) w4 = (b, w5)" by fastforce
  show ?thesis
    unfolding tmux_composer_def tmux_capture_tail_def three by (simp add: v1 i1 run v2 assms(2) i2)
qed

lemma pane_accepts:
  assumes "pane_shows os t i screen" "truncate_capture (take 1028 screen) 1024 = Inr (kept, n, m)"
    and "bottom_is_blank kept" "list_all (\<lambda>c. \<not> is_control c) (str_chars content)"
  shows "\<exists>w'. tmux_send_literal os t (tmux_composer os t) i content w = (Inr (), w') \<and> typed w' = Suc (typed w)"
proof -
  obtain w1 where v1: "tmux_validate_identity os t i w = (Inr (), w1)" using assms(1) unfolding pane_shows_def by blast
  obtain w2 where c: "tmux_composer os t i w1 = (Inr ComposerSafe, w2)"
    using composer_of_pane [OF assms(1,2), of w1] assms(3) by auto
  obtain w3 where v2: "tmux_validate_identity os t i w2 = (Inr (), w3)" using assms(1) unfolding pane_shows_def by blast
  obtain w4 where run: "tmux_run os t (literal_arguments (mi_pane_id i) content) OUTPUT_LIMIT w3 = (Inr [], w4)"
    using assms(1) unfolding pane_shows_def by blast
  have "\<not> list_ex is_control (str_chars content)" using assms(4) by (auto simp: list_ex_iff list_all_iff)
  then have sent: "tmux_send_literal os t (tmux_composer os t) i content w = (Inr (), w4)"
    by (simp add: tmux_send_literal_def validate_literal_def guarded_send_def require_safe_def v1 c v2 run)
  have "types_once typed w (tmux_send_literal os t (tmux_composer os t) i content w)"
    using tm.literal_typed [of w os t i content] by (simp add: tmux_multiplexer_def)
  with sent show ?thesis by (simp add: types_once_def)
qed

text \<open>C20: The composer check looks at the beginning of the capture, not at its end. \<open>capture_tail\<close> keeps the first
  1024 bytes of the lines that tmux prints from three lines above the screen down to its bottom, so
  whatever follows them is not seen: if those bytes end in a blank line, the text is typed,
  even behind a draft that the user has in the composer at the bottom.\<close>

theorem composer_check_misses_the_bottom:
  assumes "pane_shows os t i (seen @ draft)" "length seen = 1024" "utf8_valid seen" "utf8_valid (seen @ draft)"
    and "bottom_is_blank seen" "list_all (\<lambda>c. \<not> is_control c) (str_chars content)"
  shows "\<exists>w'. tmux_send_literal os t (tmux_composer os t) i content w = (Inr (), w') \<and> typed w' = Suc (typed w)"
proof -
  have "\<exists>kept. truncate_capture (take 1028 (seen @ draft)) 1024 = Inr (kept, length kept, 1024 < length (seen @ draft)) \<and>
      longest_prefix_within 1024 (seen @ draft) kept"
    using truncate_capture_longest [OF assms(4), of 1024 1028] by simp
  then obtain kept where kept: "truncate_capture (take 1028 (seen @ draft)) 1024 = Inr (kept, length kept, 1024 < length (seen @ draft))"
      "longest_prefix_within 1024 (seen @ draft) kept" by blast
  have "1024 \<le> length kept" "length kept \<le> 1024" "prefix kept (seen @ draft)"
    using kept(2) assms(2,3) unfolding longest_prefix_within_def by (metis prefixI order_refl)+
  then have "kept = seen" using assms(2) by (auto simp: prefix_def append_eq_append_conv)
  with kept(1) show ?thesis using pane_accepts [OF assms(1) _ _ assms(6)] assms(5) by blast
qed

section \<open>Examples\<close>

definition example_tmux :: tmux where
  "example_tmux = for_socket_path ''/tmp/s'' (dur_from_secs 2)"

definition example_printed :: string where
  "example_printed = octal_build (str_join [FIELD_SEPARATOR] (pane_fields example_pane))"

definition empty_world :: "unit tmux_world" where
  "empty_world = \<lparr>tw_os = (), tw_log = []\<rparr>"

lemma example_printed_facts:
  "utf8_valid example_printed" "trim_end example_printed = example_printed" "length example_printed \<le> 200"
  "validate_argument ''%2'' = Inr ()"
  by code_simp+

lemma example_spawned:
  assumes "out = (if command = ''capture-pane'' then screen else if command = ''display-message'' then example_printed else [])"
  shows "tmux_run (example_tmux_os screen) example_tmux (command # args) limit w =
    (Inr (drain limit [] [out]), w\<lparr>tw_log := tw_log w @ [\<lparr>ran_args = command # args, ran_result = Inr (drain limit [] [out])\<rparr>]\<rparr>)"
  using assms
  by (simp add: tmux_run_def on_os_def run_bounded_def example_tmux_os_def child_result_def read_stream_def
      example_printed_def example_tmux_def for_socket_path_def)

lemma example_drain: "drain OUTPUT_LIMIT [] [example_printed] = example_printed"
  using drain_take [of OUTPUT_LIMIT "[]" "[example_printed]"] example_printed_facts(3)
  by (simp add: OUTPUT_LIMIT_def USIZE_MAX_def)

lemma example_metadata:
  "parse_metadata (example_tmux_os screen) example_printed s = (Inr example_pane, s)"
proof -
  have "decode_tmux_display_escapes example_printed = Inr (str_join [FIELD_SEPARATOR] (pane_fields example_pane))"
    using decode_tmux_prints [OF disjI2 [OF example_pane_unambiguous]] example_pane_utf8
    by (simp add: decode_tmux_display_escapes_def example_printed_def octal_build_def)
  then show ?thesis
    by (rule parse_pane [OF example_pane_reportable]) (simp_all add: example_tmux_os_def example_pane_def)
qed

lemma example_identity:
  "\<exists>w'. tmux_validate_identity (example_tmux_os screen) example_tmux (pn_identity example_pane) w = (Inr (), w')"
proof -
  have "mi_pane_id (pn_identity example_pane) = ''%2''" by (simp add: example_pane_def)
  then show ?thesis
    by (simp add: tmux_validate_identity_def tmux_query_def example_printed_facts example_spawned example_drain
        on_os_def example_metadata identity_matches_def process_matches_def Let_def del: drain.simps)
qed

lemma example_pane_shows: "pane_shows (example_tmux_os screen) example_tmux (pn_identity example_pane) screen"
proof -
  have "drain (usize_add 1024 UTF8_BOUNDARY_LOOKAHEAD) [] [screen] = take 1028 screen"
    using drain_take [of 1027 "[]" "[screen]"] by (simp add: usize_add_def UTF8_BOUNDARY_LOOKAHEAD_def USIZE_MAX_def)
  moreover have "mi_pane_id (pn_identity example_pane) = ''%2''" by (simp add: example_pane_def)
  ultimately show ?thesis
    using example_identity
    by (simp add: pane_shows_def example_spawned capture_arguments_def literal_arguments_def del: drain.simps(2))
      (simp add: drain.simps)
qed

lemma example_accepts:
  "\<exists>w'. tmux_send_literal (example_tmux_os []) example_tmux (tmux_composer (example_tmux_os []) example_tmux)
     (pn_identity example_pane) ''continue'' w = (Inr (), w') \<and> typed w' = Suc (typed w)"
proof (rule pane_accepts [OF example_pane_shows])
  show "truncate_capture (take 1028 []) 1024 = Inr ([], 0, False)" by (simp add: truncate_capture_def complete_prefix_def)
  show "bottom_is_blank []" by code_simp
  show "list_all (\<lambda>c. \<not> is_control c) (str_chars ''continue'')" by code_simp
qed

theorem tmux_types_only_between_checks_witness:
  "\<exists>w' q1 q2 c q3 q4 out. tmux_send_literal (example_tmux_os []) example_tmux
       (tmux_composer (example_tmux_os []) example_tmux) (pn_identity example_pane) ''continue'' empty_world = (Inr (), w') \<and>
     tw_log w' = [q1, q2, c, q3, q4, \<lparr>ran_args = [''send-keys'', ''-t'', ''%2'', ''-l'', ''--'', ''continue''], ran_result = out\<rparr>] \<and>
     is_ok out"
proof -
  obtain w' where sent: "tmux_send_literal (example_tmux_os []) example_tmux
      (tmux_composer (example_tmux_os []) example_tmux) (pn_identity example_pane) ''continue'' empty_world = (Inr (), w')"
      "typed w' = Suc (typed empty_world)"
    using example_accepts by blast
  then have "typed w' \<noteq> typed empty_world" by simp
  from tmux_types_only_between_checks [OF sent(1) this] sent(1) show ?thesis
    by (fastforce simp: literal_arguments_def example_pane_def empty_world_def)
qed

text \<open>A kilobyte of blank lines, and a draft below them.\<close>

theorem composer_check_misses_the_bottom_witness:
  "\<exists>w'. tmux_send_literal (example_tmux_os (replicate 1024 NL @ ''rm -rf'')) example_tmux
      (tmux_composer (example_tmux_os (replicate 1024 NL @ ''rm -rf'')) example_tmux) (pn_identity example_pane) ''continue'' empty_world
      = (Inr (), w') \<and> typed w' = 1"
proof -
  have ascii: "utf8_valid s" if "\<forall>c \<in> set s. byte_of c < 128" for s
    using that utf8_valid_concat [of "map (\<lambda>c. [c]) s"] utf8_char_ascii by simp
  have "split_when (\<lambda>c. c = NL) (replicate n NL) = replicate (Suc n) []" for n
    by (induction n) auto
  then have "str_lines (replicate 1024 NL) = replicate 1024 []"
    by (simp add: str_lines_def Let_def strip_cr_def butlast_conv_take del: replicate.simps)
  then have "bottom_is_blank (replicate 1024 NL)"
    by (simp add: bottom_is_blank_def blank_def str_trim_def trim_end_def trim_start_def last_replicate del: replicate.simps)
  moreover have "list_all (\<lambda>c. \<not> is_control c) (str_chars ''continue'')" by code_simp
  ultimately have "\<exists>w'. tmux_send_literal (example_tmux_os (replicate 1024 NL @ ''rm -rf'')) example_tmux
      (tmux_composer (example_tmux_os (replicate 1024 NL @ ''rm -rf'')) example_tmux) (pn_identity example_pane) ''continue'' empty_world
      = (Inr (), w') \<and> typed w' = Suc (typed empty_world)"
    by (intro composer_check_misses_the_bottom [OF example_pane_shows] ascii) auto
  moreover have "typed empty_world = 0" by (simp add: typed_def empty_world_def)
  ultimately show ?thesis by simp
qed

definition tmux_watcher :: watcher_state where
  "tmux_watcher =
     waiting_watcher\<lparr>ws_target := Multiplexer ''tmux'' ''/tmp/s'' ''%2'' (record_identity example_pane_record) None
        (Some (Tmux ''/tmp/s'' ''/tmp/s'' ''$0'' ''@1'' ''%2'' ''/dev/pts/1'')) None False\<rparr>"

definition example_send_text :: action where
  "example_send_text = action_new ''t'' (SendText ''continue'') ''why'' ''fedcba9876543210'' 30"

theorem tmux_executor_types_as_told_witness:
  "\<forall>h. \<exists>s'. execute_mux_action (tmux_host (example_tmux_os []) h) tmux_watcher example_send_text empty_world = (Inr Committed, s')
     \<and> typed s' = 1"
proof
  fix h
  let ?h = "tmux_host (example_tmux_os []) h"
  let ?mux = "tmux_multiplexer (example_tmux_os []) example_tmux (tmux_composer (example_tmux_os []) example_tmux)"
  let ?i = "pn_identity example_pane"
  have ctx: "observation_context (ws_target tmux_watcher) = Some (Tmux ''/tmp/s'' ''/tmp/s'' ''$0'' ''@1'' ''%2'' ''/dev/pts/1'')"
    by (simp add: tmux_watcher_def)
  have adapter: "ho_adapter ?h (Tmux ''/tmp/s'' ''/tmp/s'' ''$0'' ''@1'' ''%2'' ''/dev/pts/1'') (composer_observe ?h tmux_watcher) = Inr ?mux"
    unfolding tmux_composer_observe [OF ctx] by (simp add: tmux_host_def example_tmux_def)
  have ident: "watcher_mux_identity tmux_watcher = Inr (Some ?i)"
    by (simp add: watcher_mux_identity_def tmux_watcher_def context_identity_def example_pane_def)
  obtain s1 where v: "mux_validate_identity ?mux ?i empty_world = (Inr (), s1)"
    using example_identity [of "[]" empty_world] by (auto simp: tmux_multiplexer_def)
  obtain s2 where sent: "mux_send_literal ?mux ?i ''continue'' s1 = (Inr (), s2)"
    using example_accepts [of s1] by (auto simp: tmux_multiplexer_def)
  have valid: "validate_action (ho_parse ?h) example_send_text = Inr ()"
    by (simp add: validate_action_def action_validate_def well_formed_id_def
      is_ascii_alphanumeric_def is_ascii_digit_def is_ascii_upper_def is_ascii_lower_def
      example_send_text_def action_new_def valid_precondition_def valid_outcome_def
      scalar_value_def PRECONDITION_KINDS_def OUTCOME_KINDS_def forbidden_literal_character_def)
  have "ws_last_observation tmux_watcher = Some example_event" "act_kind example_send_text = SendText ''continue''"
    by (simp_all add: tmux_watcher_def waiting_watcher_def example_send_text_def action_new_def)
  then have run: "execute_mux_action ?h tmux_watcher example_send_text empty_world = (Inr Committed, s2)"
    by (simp add: execute_mux_action_def ctx adapter ident mux_execute_def valid v sent)
  have "typed empty_world = 0" by (simp add: typed_def empty_world_def)
  with tmux_executor_types_as_told [OF ctx run] run
  show "\<exists>s'. execute_mux_action ?h tmux_watcher example_send_text empty_world = (Inr Committed, s') \<and> typed s' = 1"
    by (simp add: example_send_text_def action_new_def)
qed

end
