(* ===== verification/Spec2Isabelle.thy ===== *)
theory Spec2Isabelle
  imports Engine Registry_Properties Screen_Properties Observe Jsonl_Properties Inspector_Properties Lifecycle
    Strict_Json_Properties Planner_Properties Config Redact
    Reset_Time Ipc_Properties Recovery_Outcome Observation_Loop Restart Tmux_Typing
begin

text \<open>
  WatchMe is a daemon that watches coding agents in terminal panes and recovers them when they stall: it
  observes a target, confirms that it is blocked, and then waits, types one of a few safe texts or hands over
  to a human. What makes it hard is that typing into somebody's terminal cannot be undone, that every step can
  fail, that several tasks share the registry of watchers, and that the daemon can be restarted at any
  moment. This development models the path of an action from the observation to the terminal, with the data,
  the stores and the parsers it rests on, and proves that it fails closed, or shows where it does not.

  \<^bold>\<open>How the parts interact.\<close> The observation loop (\<open>daemon/recovery_jobs.rs\<close>) ticks over the registry, asks an
  observer about the watchers that are due, debounces what it says and commits it to the registry. A confirmed
  watcher gets a recovery job (\<open>daemon/recovery_runtime.rs\<close>): a recipe proposes an action, the coordinator
  begins it in the watcher's recovery machine, and the engine runs it as a transaction over the action ledger,
  with live evidence, the compiled policy, and an executor that types through a multiplexer under the
  registry's lock. Clients reach the registry over a socket, the lifecycle monitor watches the processes, the
  planner may propose plans, and after a restart the unfinished records of the ledger are settled.

  \<^bold>\<open>Theories.\<close> (files under \<open>src/src/\<close>; a theory \<open>X_Properties\<close> holds the lemmas and theorems about \<open>X\<close>)

  \<^item> Foundations. \<open>Prelude\<close>: machine words with Rust's saturating and checked arithmetic, durations, floats,
    results, ASCII strings, JSON values, and \<open>BTreeMap\<close> as a sorted association list, with the laws of a keyed map
    as the locale \<open>keyed_map\<close>. \<open>Text\<close>: UTF-8, white space, lines, splitting and decimal numbers.
  \<^item> Data. \<open>Model_Event\<close>, \<open>Model_Action\<close>, \<open>Model_Identity\<close>, \<open>Watcher_State\<close> (\<open>model/\<close>): constructors, validation
    and versioned readers.
  \<^item> Decisions. \<open>Recovery_Machine\<close> (\<open>recovery/state_machine.rs\<close>): states, budgets, audit trail and seven commands;
    reachable machines keep their budgets and starts are bounded. \<open>Policy\<close> (\<open>policy.rs\<close>): \<open>authorize\<close>, proved equivalent
    to a declarative policy. \<open>Reset_Time\<close> (\<open>recovery/reset_time.rs\<close>): the reset times in messages, which lie in
    the future. \<open>Planner\<close>, \<open>Strict_Json\<close> (\<open>planner/\<close>): routing, budgets, plan validation and the strict reader,
    shown against the grammar of JSON: of the texts it spells, exactly those with a repeated key are rejected.
  \<^item> Durable state. \<open>Durable_Store\<close> (\<open>store.rs\<close>): the JSON file as its users see it; which step of a coming write
    fails is part of the state, so every theorem holds for every pattern of failures. \<open>Action_Store\<close>
    (\<open>recovery/action_store.rs\<close>): the ledger, an interpretation of the contract \<open>action_store\<close>. \<open>Registry\<close>
    (\<open>daemon/registry.rs\<close>, \<open>recovery/coordinator.rs\<close>): operations are atomic, memory and disk agree, loading
    fails closed, processes are watched once, and, by the locale \<open>versioned_store\<close>, a dispatch token that still
    matches has matched all along.
  \<^item> Transactions. \<open>Transaction\<close> (\<open>recovery/transaction.rs\<close>): revalidate, authorise, claim, cross the commit
    boundary, execute, verify, and the recovery of interrupted transactions. \<open>Transaction_Safety\<close> proves what a
    transaction guarantees over any environment that keeps the contract \<open>transaction_env\<close>, an extension of
    \<open>action_store\<close>; \<open>Transaction_Invariant\<close> carries any invariant of the environment through a transaction
    (\<open>txn_invariant\<close>). Both are interpreted on the JSON ledger with arbitrary evidence, executor and clock, or on the
    daemon's own environment. \<open>Transaction_Properties\<close>: termination, gating, agreement of result and ledger,
    honesty about side effects, at-most-once execution; gating names the three readings of the
    evidence that the guards saw. \<open>Engine\<close> (\<open>recovery/engine.rs\<close>): from a watcher to a transaction.
  \<^item> The daemon's job. \<open>Runtime\<close>: the host, live evidence and the composer. \<open>Executor\<close>: the executor with its
    critical region, the runtime services and notifications (\<open>daemon/runtime_services.rs\<close>, \<open>notify.rs\<close>).
    \<open>Recovery_Job\<close>: the job, and that input reaches a multiplexer only for a watcher in nobody's hands; the locale
    \<open>daemon_frame\<close> carries any relation that the lock, the host and the job's own registry operations keep through
    every step of a job, and is interpreted twice. \<open>Recovery_Outcome\<close>: what a failed job leaves behind, a recovery
    machine that stays acting until a registration or a restart among it. \<open>Restart\<close>: the scans over unfinished records. \<open>Observation_Loop\<close>:
    due watchers, debouncing, job supervision and shutdown.
  \<^item> Typing. \<open>Actuator\<close> (\<open>recovery/actuator.rs\<close>, \<open>mux/mod.rs\<close>): the two executors over arbitrary multiplexers and
    services. \<open>Tmux_Adapter\<close> (\<open>mux/tmux.rs\<close>): the tmux client. \<open>Tmux_Properties\<close>: captures end at character
    boundaries, metadata reads back whichever bytes tmux escapes unless a raw backslash looks like an escape. \<open>Tmux_Typing\<close>: the contract \<open>typing_multiplexer\<close> between the
    actuator and a multiplexer, its interpretation on the client, the commands around a typed text, and the
    part of the screen that the composer check does not see.
  \<^item> Observation. \<open>Screen\<close>, \<open>Observe\<close>, \<open>Jsonl\<close> (\<open>observe/\<close>): the sanitizer, trusted regions, debouncing, the choice of evidence
    (over the locale \<open>total_preorder\<close>), and the tailing of transcripts, which delivers every complete record once as long as no line
    exceeds the record limit. The sanitizer removes ASCII controls and bidirectional controls, and not the C1
    controls that are encoded in UTF-8.
    \<open>Process\<close>, \<open>Inspector\<close> (\<open>process/\<close>): discovery and scoring over any \<open>honest_inspector\<close>, and the inspectors of
    Linux and macOS, which interpret it.
  \<^item> Around the registry. \<open>Scheduler\<close>, \<open>Lifecycle\<close> (\<open>daemon/scheduler.rs\<close>, \<open>daemon/lifecycle.rs\<close>): the scheduler implements its
    specification, and the monitor does to each watcher exactly what its decision says, unless the write can fail. \<open>Ipc\<close> (\<open>ipc/\<close>,
    \<open>daemon/ipc_service.rs\<close>): frames, peers and requests; only the owner's valid requests take effect, and no
    sequence of connections breaks the registry. \<open>Config\<close> (\<open>config.rs\<close>) and \<open>Redact\<close> (\<open>redact.rs\<close>).
  \<^item> This theory: properties that span components.

  \<^bold>\<open>How the code is rendered.\<close> Structures are records, enums datatypes, and each function of the source is
  one definition with the source's order of checks. Methods that change \<open>self\<close> return the new state next
  to their result, on errors too. Errors are the left side of a sum; panics are values of their own
  (\<open>Panic\<close>, \<open>Unwound\<close>, \<open>Panicked\<close>). \<open>u8\<close> to \<open>u64\<close> are words of their width; a \<open>Duration\<close> is its number of
  nanoseconds with the bound of the type; strings are lists of bytes. Serialised images are modelled after
  parsing: a wire structure is the record of its fields, and the hand-written version checks and defaults
  are kept. Repeated code shapes are one definition, such as \<open>update_watcher\<close> for the mutations of the
  registry.

  \<^bold>\<open>Concurrency.\<close> The job, the loop and the socket service share the registry behind a lock. Whenever a job
  takes the lock, the host first applies any registry operations it likes: those are the other tasks. The
  ledger is not interleaved: one job at a time works on it, as the active record of its target excludes others.

  \<^bold>\<open>Parameters.\<close> Code outside the repository is an argument: chrono's RFC 3339 parser (\<open>rfc3339\<close>, an instant in
  nanoseconds or nothing) and calendar, the regex engine, SHA-256 and the default hasher, the TOML and JSON
  codecs and the rendering of values by serde and \<open>Debug\<close>, the operating system (files, processes, clocks,
  children), the notification programs and the planner processes. Of the repository, the Herdr client, the
  observer and the readers of the agents' progress (\<open>ho_progress\<close>) are arguments too, as the code that
  calls them has them behind a trait or a function. The theorems hold for all of them; only termination asks
  that the clock eventually passes every deadline.

  \<^bold>\<open>Bounds.\<close> The verification loop of a transaction is a partial function into \<open>option\<close>, and that a transaction
  returns is a theorem of \<open>Transaction_Properties\<close>. The strict JSON reader recurses on fuel, twice the length of the input
  and two; \<open>strict_parser_returns\<close> shows that this is always enough, since every step of the grammar that does
  not consume a byte is followed by one that does. All other recursions are structural or have a measure.

  \<^bold>\<open>What is not modelled.\<close> File descriptors, permissions and quarantine names of the store, and the lexical part of
  serde, which are library work. The recognisers of the agents and their manifests (\<open>agents/\<close>), which match the
  files, databases and screens of other programs by tables of patterns, and the observer that chooses among them. The
  Herdr client (\<open>mux/herdr/\<close>), whose protocol has its other side outside the repository. Start-up, the
  daemon's lock file and the wiring of asynchronous tasks (\<open>daemon/mod.rs\<close>, \<open>daemon/lock.rs\<close>), the command line, the audit
  log and the installation of hooks, which are input and output around the modelled parts.
\<close>

section \<open>Properties that span components\<close>

lemma dormant_no_context: "dormant w \<Longrightarrow> \<exists>e. recovery_context_from_watcher w now = Inl e"
  by (cases "ws_recovery w"; cases "ws_last_observation w")
    (auto simp: recovery_context_from_watcher_def dormant_def)

text \<open>C14: A restart executes nothing. Whatever the registry file holds, for every watcher a restarted
  daemon loads from it and every recipe provider, the engine hands no action to the executor: the
  watcher's machine has first to be revalidated by a live observation.\<close>

theorem restarted_engine_executes_nothing:
  assumes "registry_load store audited = Inr r" "bt_get (reg_watchers r) wid = Some watcher"
    and "engine_execute (world_env parse snapshot debug wall) recipes watcher owner w = Some (res, w')"
  shows "wd_sent w' = wd_sent w \<and> (res = Inr None \<or> (\<exists>e. res = Inl (txn_error.PolicyDenied e)))"
proof -
  let ?env = "world_env parse snapshot debug wall"
  obtain now w1 where mono: "te_monotonic_ms ?env w = (now, w1)" by fastforce
  then have sent: "wd_sent w1 = wd_sent w" by (auto simp: world_env_def)
  obtain e where "recovery_context_from_watcher watcher (now div 1000) = Inl e"
    using dormant_no_context [OF loaded_dormant [OF assms(1,2)]] by blast
  with assms(3) mono sent show ?thesis
    by (auto simp: engine_execute_def split: option.splits)
qed

theorem restarted_engine_executes_nothing_witness:
  "\<exists>r watcher res w'. registry_load example_store False = Inr r \<and>
     bt_get (reg_watchers r) ''w'' = Some watcher \<and>
     engine_execute example_env (\<lambda>_. Some example_submit) watcher example_owner example_world = Some (res, w') \<and>
     wd_sent w' = wd_sent example_world"
proof -
  obtain r watcher where r: "registry_load example_store False = Inr r"
      "bt_get (reg_watchers r) ''w'' = Some watcher"
    using example_store_loads by blast
  have "\<exists>e. recovery_context_from_watcher watcher 0 = Inl e"
    by (rule dormant_no_context [OF loaded_dormant [OF r]])
  then obtain res w' where run:
      "engine_execute example_env (\<lambda>_. Some example_submit) watcher example_owner example_world = Some (res, w')"
    by (auto simp: engine_execute_def example_env_def world_env_def example_world_def)
  from restarted_engine_executes_nothing [OF r run [unfolded example_env_def]] r run show ?thesis by blast
qed

text \<open>Policy and recovery machine agree on the budget: when the policy authorises an action under the
  context that the engine derives from a watcher whose machine is Confirmed, the machine accepts the
  start of an action at that moment for its current fingerprint, unless that fingerprint was already
  completed. An authorised action is never refused for its attempts or its cooldown.\<close>

theorem authorised_action_can_begin:
  assumes "recovery_context_from_watcher watcher now = Inr ctx" "ws_recovery watcher = Some m"
    and "authorize parse a (policy_context_of live ctx wall) = Inr ()"
    and "rm_state m = recovery_state.Confirmed" "rm_current m = Some fp" "fp \<notin> rm_completed m"
  shows "\<exists>m'. begin_action fp \<lparr>monotonic_seconds = now, wall_seconds = secs\<rparr> m = (Inr (), m') \<and>
    rm_state m' = recovery_state.Acting \<and> rm_attempts m' = rm_attempts m + 1"
proof -
  have ctx: "rc_attempts_remaining ctx = sat_sub (max_attempts (rm_budget m)) (rm_attempts m)"
    "rc_cooldown_ready ctx \<longleftrightarrow> (\<forall>prev. rm_last_attempt_mono m = Some prev \<longrightarrow>
       dur_as_secs (cooldown (rm_budget m)) \<le> sat_sub now prev)"
    using assms(1,2,4)
    by (auto simp: recovery_context_from_watcher_def Let_def result_simps split: if_splits option.splits)
  have "0 < rc_attempts_remaining ctx" "rc_cooldown_ready ctx"
    using assms(3) by (simp_all add: authorize_permits policy_permits_def policy_context_of_def)
  then have "rm_attempts m < max_attempts (rm_budget m)"
      "\<And>prev. rm_last_attempt_mono m = Some prev \<Longrightarrow> dur_as_secs (cooldown (rm_budget m)) \<le> sat_sub now prev"
    using ctx by (simp_all add: sat_sub_pos)
  with assms(4-6) show ?thesis
    by (auto simp: begin_action_def rm_transition_def not_less not_le split: option.split)
qed

theorem authorised_action_can_begin_witness:
  "\<exists>m m'. ws_recovery waiting_watcher = Some m \<and>
     begin_action ''fedcba9876543210'' \<lparr>monotonic_seconds = 0, wall_seconds = 0\<rparr> m = (Inr (), m') \<and>
     rm_state m' = recovery_state.Acting"
proof -
  obtain m where m: "ws_recovery waiting_watcher = Some m" "rm_state m = recovery_state.Confirmed"
      "rm_current m = Some ''fedcba9876543210''" "''fedcba9876543210'' \<notin> rm_completed m"
    by (simp add: waiting_watcher_def rm_op_defs rm_transition_def rm_new_def)
  from authorised_action_can_begin [OF waiting_context_of m(1) waiting_guards(2) m(2-4)] m show ?thesis
    by blast
qed

end
